theory Spec2Isabelle
  imports Main "HOL-Library.Sublist"
begin

section \<open>Strings\<close>

text \<open>
  A JavaScript string is a sequence of UTF-16 code units. A code unit is modelled as a
  natural number (the code units are the numbers below 65536; the program never
  computes with them, so the bound is not imposed). The string literals of the program
  are ASCII; \<open>str\<close> turns such a literal into the string of its code units.
\<close>

type_synonym codeunit = nat

type_synonym jsstring = "codeunit list"

definition str :: "string \<Rightarrow> jsstring" where
  "str s = map of_char s"

text \<open>
  \<open>String.prototype.trim\<close> removes from both ends the code units of the ECMAScript
  productions \<open>WhiteSpace\<close> (TAB, VT, FF, ZWNBSP and the Unicode category \<open>Zs\<close>: SP, NBSP,
  U+1680, U+2000 to U+200A, U+202F, U+205F, U+3000) and \<open>LineTerminator\<close> (LF, CR, LS,
  PS).
\<close>

definition isWhiteSpace :: "codeunit \<Rightarrow> bool" where
  "isWhiteSpace c =
     (c \<in> {0x0009, 0x000B, 0x000C, 0xFEFF, 0x0020, 0x00A0, 0x1680, 0x202F, 0x205F, 0x3000} \<or>
      (0x2000 \<le> c \<and> c \<le> 0x200A))"

definition isLineTerminator :: "codeunit \<Rightarrow> bool" where
  "isLineTerminator c = (c \<in> {0x000A, 0x000D, 0x2028, 0x2029})"

definition trim :: "jsstring \<Rightarrow> jsstring" where
  "trim s =
     rev (dropWhile (\<lambda>c. isWhiteSpace c \<or> isLineTerminator c)
       (rev (dropWhile (\<lambda>c. isWhiteSpace c \<or> isLineTerminator c) s)))"

definition includes_str :: "jsstring \<Rightarrow> jsstring \<Rightarrow> bool" where
  "includes_str txt query = sublist query txt"

definition nl :: jsstring where
  "nl = [0x000A]"

fun join :: "jsstring \<Rightarrow> jsstring list \<Rightarrow> jsstring" where
  "join sep [] = []"
| "join sep [x] = x"
| "join sep (x # y # ys) = x @ sep @ join sep (y # ys)"

text \<open>
  \<open>String.prototype.toLowerCase\<close> is the case conversion of the Unicode Character
  Database (with its special casings, it is not a map over code units). Its tables are
  not part of the program: the search takes the function as its parameter
  \<open>toLowerCase\<close>, and what is proved of the search holds for every value of it. For the
  examples, \<open>latin1ToLowerCase\<close> is the conversion on strings of the Latin-1 range: the
  letters A to Z, and U+00C0 to U+00DE except the multiplication sign U+00D7, move up
  by 32.
\<close>

definition latin1ToLowerCase :: "jsstring \<Rightarrow> jsstring" where
  "latin1ToLowerCase s =
     map (\<lambda>c. if (0x41 \<le> c \<and> c \<le> 0x5A) \<or> (0xC0 \<le> c \<and> c \<le> 0xDE \<and> c \<noteq> 0xD7)
              then c + 32 else c) s"

section \<open>TopSearchPill: searchMeetings\<close>

text \<open>
  The \<open>Meeting\<close> and \<open>SearchResult\<close> interfaces of the search pill. The constant field
  \<open>type: 'meeting'\<close> of a result is kept as a string. The subtitle is
  \<open>new Date(meeting.date).toLocaleDateString('en-US', ...)\<close>; the date formatter is the
  parameter \<open>fmt\<close> of the model.
\<close>

record PillMeeting =
  pm_id :: jsstring
  pm_title :: jsstring
  pm_date :: jsstring
  pm_summary :: "jsstring option"

record SearchResult =
  sr_id :: jsstring
  sr_type :: jsstring
  sr_title :: jsstring
  sr_subtitle :: "jsstring option"
  sr_meetingId :: jsstring

definition fuzzyMatch :: "(jsstring \<Rightarrow> jsstring) \<Rightarrow> jsstring \<Rightarrow> jsstring \<Rightarrow> bool" where
  "fuzzyMatch toLowerCase txt query =
     (let normalizedText = toLowerCase txt; normalizedQuery = toLowerCase query
      in if includes_str normalizedText normalizedQuery then True else False)"

definition titleMatch :: "(jsstring \<Rightarrow> jsstring) \<Rightarrow> PillMeeting \<Rightarrow> jsstring \<Rightarrow> bool" where
  "titleMatch toLowerCase meeting query = fuzzyMatch toLowerCase (pm_title meeting) query"

text \<open>\<open>meeting.summary && fuzzyMatch(meeting.summary, query)\<close>: an absent or empty
  summary is falsy.\<close>

definition summaryMatch :: "(jsstring \<Rightarrow> jsstring) \<Rightarrow> PillMeeting \<Rightarrow> jsstring \<Rightarrow> bool" where
  "summaryMatch toLowerCase meeting query =
     (case pm_summary meeting of
        None \<Rightarrow> False
      | Some s \<Rightarrow> s \<noteq> [] \<and> fuzzyMatch toLowerCase s query)"

definition mkResult :: "(jsstring \<Rightarrow> jsstring) \<Rightarrow> PillMeeting \<Rightarrow> SearchResult" where
  "mkResult fmt meeting =
     \<lparr> sr_id = pm_id meeting, sr_type = str ''meeting'', sr_title = pm_title meeting,
       sr_subtitle = Some (fmt (pm_date meeting)), sr_meetingId = pm_id meeting \<rparr>"

text \<open>The \<open>for\<close> loop of \<open>searchMeetings\<close>, with its \<open>continue\<close> on an id already seen
  and its \<open>break\<close> once five results are collected.\<close>

fun searchLoop ::
  "(jsstring \<Rightarrow> jsstring) \<Rightarrow> (jsstring \<Rightarrow> jsstring) \<Rightarrow> jsstring \<Rightarrow> PillMeeting list \<Rightarrow>
     SearchResult list \<Rightarrow> jsstring set \<Rightarrow> SearchResult list" where
  "searchLoop toLowerCase fmt query [] results seen = results"
| "searchLoop toLowerCase fmt query (meeting # rest) results seen =
     (if pm_id meeting \<in> seen then searchLoop toLowerCase fmt query rest results seen
      else if titleMatch toLowerCase meeting query \<or> summaryMatch toLowerCase meeting query then
        (if length (results @ [mkResult fmt meeting]) \<ge> 5
         then results @ [mkResult fmt meeting]
         else searchLoop toLowerCase fmt query rest (results @ [mkResult fmt meeting])
                (insert (pm_id meeting) seen))
      else if length results \<ge> 5 then results
      else searchLoop toLowerCase fmt query rest results seen)"

definition searchMeetings ::
  "(jsstring \<Rightarrow> jsstring) \<Rightarrow> (jsstring \<Rightarrow> jsstring) \<Rightarrow> PillMeeting list \<Rightarrow> jsstring \<Rightarrow>
     SearchResult list" where
  "searchMeetings toLowerCase fmt meetings query =
     (if trim query = [] then [] else searchLoop toLowerCase fmt query meetings [] {})"

text \<open>
  A meeting matches a query when its title, or its summary, contains the query, both
  sides taken through \<open>toLowerCase\<close>. An empty summary is not looked at (it could
  contain only a query that is empty once in lower case).
\<close>

definition matches :: "(jsstring \<Rightarrow> jsstring) \<Rightarrow> PillMeeting \<Rightarrow> jsstring \<Rightarrow> bool" where
  "matches toLowerCase meeting query =
     (sublist (toLowerCase query) (toLowerCase (pm_title meeting)) \<or>
      (case pm_summary meeting of
         None \<Rightarrow> False
       | Some s \<Rightarrow> s \<noteq> [] \<and> sublist (toLowerCase query) (toLowerCase s)))"

text \<open>The matching meetings of a list in input order, keeping of each id the first
  matching meeting (and none of an id in \<open>seen\<close>).\<close>

fun distinctMatches ::
  "(jsstring \<Rightarrow> jsstring) \<Rightarrow> jsstring \<Rightarrow> PillMeeting list \<Rightarrow> jsstring set \<Rightarrow> PillMeeting list" where
  "distinctMatches toLowerCase query [] seen = []"
| "distinctMatches toLowerCase query (meeting # rest) seen =
     (if pm_id meeting \<in> seen then distinctMatches toLowerCase query rest seen
      else if matches toLowerCase meeting query
      then meeting # distinctMatches toLowerCase query rest (insert (pm_id meeting) seen)
      else distinctMatches toLowerCase query rest seen)"

text \<open>Sample data for the search: six meetings whose titles all contain the letter a;
  three meetings of which two share an id; a title with U+00E9 and queries with
  U+00C9 and of white space only (NBSP, LS, ZWNBSP).\<close>

definition pillMeeting :: "jsstring \<Rightarrow> jsstring \<Rightarrow> PillMeeting" where
  "pillMeeting i t =
     \<lparr> pm_id = i, pm_title = t, pm_date = str ''2025-01-01'', pm_summary = None \<rparr>"

definition sixMeetings :: "PillMeeting list" where
  "sixMeetings =
     [pillMeeting (str ''1'') (str ''Alpha''), pillMeeting (str ''2'') (str ''Beta''),
      pillMeeting (str ''3'') (str ''Gamma''), pillMeeting (str ''4'') (str ''Delta''),
      pillMeeting (str ''5'') (str ''Kappa''), pillMeeting (str ''6'') (str ''Lambda'')]"

definition threeMeetings :: "PillMeeting list" where
  "threeMeetings =
     [pillMeeting (str ''1'') (str ''Demo''), pillMeeting (str ''2'') (str ''Standup''),
      pillMeeting (str ''1'') (str ''demo again'')]"

definition cafeMeetings :: "PillMeeting list" where
  "cafeMeetings =
     [pillMeeting (str ''1'') (str ''Caf'' @ [0xE9] @ str '' chat''),
      pillMeeting (str ''2'') (str ''Standup'')]"

definition blankQuery :: jsstring where
  "blankQuery = [0x00A0, 0x2028, 0xFEFF]"

section \<open>MeetingChatOverlay: buildContextString\<close>

record TranscriptEntry =
  te_speaker :: jsstring
  te_text :: jsstring
  te_timestamp :: int

record MeetingContext =
  mc_id :: "jsstring option"
  mc_title :: jsstring
  mc_summary :: "jsstring option"
  mc_keyPoints :: "jsstring list option"
  mc_actionItems :: "jsstring list option"
  mc_transcript :: "TranscriptEntry list option"

text \<open>\<open>xs.slice(-n)\<close>: the last \<open>n\<close> elements, or all of them when there are fewer.\<close>

definition sliceLast :: "nat \<Rightarrow> 'a list \<Rightarrow> 'a list" where
  "sliceLast n xs = drop (length xs - n) xs"

definition bullet :: "jsstring \<Rightarrow> jsstring" where
  "bullet p = str ''- '' @ p"

definition transcriptLine :: "TranscriptEntry \<Rightarrow> jsstring" where
  "transcriptLine t =
     str ''['' @ (if te_speaker t = str ''user'' then str ''Me'' else str ''Them'') @ str '']: '' @
       te_text t"

definition summarySection :: "jsstring \<Rightarrow> jsstring" where
  "summarySection s = nl @ str ''SUMMARY:'' @ nl @ s"

definition keyPointsSection :: "jsstring list \<Rightarrow> jsstring" where
  "keyPointsSection ps = nl @ str ''KEY POINTS:'' @ nl @ join nl (map bullet ps)"

definition actionItemsSection :: "jsstring list \<Rightarrow> jsstring" where
  "actionItemsSection as = nl @ str ''ACTION ITEMS:'' @ nl @ join nl (map bullet as)"

definition transcriptSection :: "TranscriptEntry list \<Rightarrow> jsstring" where
  "transcriptSection ts =
     (let recentTranscript = sliceLast 20 ts;
          transcriptText = join nl (map transcriptLine recentTranscript)
      in nl @ str ''RECENT TRANSCRIPT:'' @ nl @ transcriptText)"

text \<open>The array \<open>parts\<close> after each conditional \<open>push\<close>.\<close>

definition pushSummary :: "MeetingContext \<Rightarrow> jsstring list \<Rightarrow> jsstring list" where
  "pushSummary meetingContext parts =
     (case mc_summary meetingContext of
        Some s \<Rightarrow> if s \<noteq> [] then parts @ [summarySection s] else parts
      | None \<Rightarrow> parts)"

definition pushKeyPoints :: "MeetingContext \<Rightarrow> jsstring list \<Rightarrow> jsstring list" where
  "pushKeyPoints meetingContext parts =
     (case mc_keyPoints meetingContext of
        Some ps \<Rightarrow> if length ps \<noteq> 0 then parts @ [keyPointsSection ps] else parts
      | None \<Rightarrow> parts)"

definition pushActionItems :: "MeetingContext \<Rightarrow> jsstring list \<Rightarrow> jsstring list" where
  "pushActionItems meetingContext parts =
     (case mc_actionItems meetingContext of
        Some as \<Rightarrow> if length as \<noteq> 0 then parts @ [actionItemsSection as] else parts
      | None \<Rightarrow> parts)"

definition pushTranscript :: "MeetingContext \<Rightarrow> jsstring list \<Rightarrow> jsstring list" where
  "pushTranscript meetingContext parts =
     (case mc_transcript meetingContext of
        Some ts \<Rightarrow> if length ts \<noteq> 0 then parts @ [transcriptSection ts] else parts
      | None \<Rightarrow> parts)"

definition contextParts :: "MeetingContext \<Rightarrow> jsstring list" where
  "contextParts meetingContext =
     pushTranscript meetingContext
       (pushActionItems meetingContext
         (pushKeyPoints meetingContext
           (pushSummary meetingContext [str ''MEETING: '' @ mc_title meetingContext])))"

definition buildContextString :: "MeetingContext \<Rightarrow> jsstring" where
  "buildContextString meetingContext = join nl (contextParts meetingContext)"

text \<open>The meeting context of the demo meeting of \<open>seedDemoMeeting\<close>, as
  \<open>MeetingDetails\<close> passes it to the chat overlay (it has no overview).\<close>

definition demoTranscript :: "TranscriptEntry list" where
  "demoTranscript =
     [\<lparr> te_speaker = str ''user'', te_text = str ''So, can you tell me more about the latency?'',
        te_timestamp = 0 \<rparr>,
      \<lparr> te_speaker = str ''interviewer'',
        te_text = str ''Absolutely. We have optimized the pipeline to be under 200ms.'',
        te_timestamp = 5000 \<rparr>,
      \<lparr> te_speaker = str ''user'', te_text = str ''That is impressive.'', te_timestamp = 12000 \<rparr>,
      \<lparr> te_speaker = str ''interviewer'', te_text = str ''Could you clarify that phrase?'',
        te_timestamp = 15000 \<rparr>,
      \<lparr> te_speaker = str ''user'', te_text = str ''Yes, exactly.'', te_timestamp = 20000 \<rparr>]"

definition demoKeyPoints :: "jsstring list" where
  "demoKeyPoints =
     [str ''CEO emphasized the importance of real-time latency'',
      str ''Discussed the new Ghost Mode privacy feature'',
      str ''Clarified the pricing model for enterprise tier'']"

definition demoActionItems :: "jsstring list" where
  "demoActionItems =
     [str ''Review the Telugu sara phrase clarification'',
      str ''Confirm if Maria refers to a team member or persona'',
      str ''Schedule follow-up demo for next Tuesday'']"

definition demoContext :: MeetingContext where
  "demoContext =
     \<lparr> mc_id = Some (str ''demo-meeting-002''), mc_title = str ''Natively Demo with CEO Evin'',
       mc_summary = None, mc_keyPoints = Some demoKeyPoints,
       mc_actionItems = Some demoActionItems, mc_transcript = Some demoTranscript \<rparr>"

definition fullContext :: MeetingContext where
  "fullContext =
     demoContext\<lparr> mc_summary := Some (str ''Discussion about Natively product features.'') \<rparr>"

text \<open>Two contexts with the same context string: the first has no summary and a title
  that holds the text of a summary section, the second has the summary.\<close>

definition embedContext :: MeetingContext where
  "embedContext =
     \<lparr> mc_id = None, mc_title = str ''Demo'' @ nl @ nl @ str ''SUMMARY:'' @ nl @ str ''foo'',
       mc_summary = None, mc_keyPoints = None, mc_actionItems = None, mc_transcript = None \<rparr>"

definition plainContext :: MeetingContext where
  "plainContext =
     \<lparr> mc_id = None, mc_title = str ''Demo'', mc_summary = Some (str ''foo''),
       mc_keyPoints = None, mc_actionItems = None, mc_transcript = None \<rparr>"

section \<open>DatabaseManager: the store\<close>

text \<open>
  The tables of \<open>runMigrations\<close>, one record per row. A \<open>TEXT\<close> column that the code
  fills with \<open>x || null\<close> is an option; \<open>id INTEGER PRIMARY KEY AUTOINCREMENT\<close> is a
  natural number drawn from the table's sequence counter.

  The column \<open>summary_json\<close> holds the text written by \<open>JSON.stringify\<close> and read back by
  \<open>JSON.parse\<close>. The model keeps the parsed document in place of its text:
  \<open>JSON.parse (JSON.stringify d) = d\<close> for a document of strings and string arrays, and a
  key whose value is \<open>undefined\<close> is left out by \<open>JSON.stringify\<close>. A text that does not
  parse is \<open>Malformed\<close>.
\<close>

datatype jsonval = JString jsstring | JStrings "jsstring list"

type_synonym jsobject = "jsstring \<rightharpoonup> jsonval"

record SummaryData =
  legacySummary :: "jsstring option"
  detailedSummary :: "jsobject option"

datatype json_text = Doc SummaryData | Malformed

type_synonym blob = "nat list"

record MeetingRow =
  r_id :: jsstring
  r_title :: jsstring
  r_start_time :: int
  r_duration_ms :: int
  r_summary_json :: "json_text option"
  r_created_at :: jsstring
  r_calendar_event_id :: "jsstring option"
  r_source :: "jsstring option"
  r_is_processed :: int

record TranscriptRow =
  tr_id :: nat
  tr_meeting_id :: jsstring
  tr_speaker :: jsstring
  tr_content :: jsstring
  tr_timestamp_ms :: int

record InteractionRow =
  ai_id :: nat
  ai_meeting_id :: jsstring
  ai_type :: jsstring
  ai_timestamp :: int
  ai_user_query :: "jsstring option"
  ai_ai_response :: "jsstring option"
  ai_metadata_json :: "jsstring list option"

record ChunkRow =
  c_id :: nat
  c_meeting_id :: jsstring
  c_chunk_index :: nat
  c_speaker :: "jsstring option"
  c_start_timestamp_ms :: int
  c_end_timestamp_ms :: int
  c_cleaned_text :: jsstring
  c_token_count :: nat
  c_embedding :: "blob option"
  c_created_at :: nat

record ChunkSummaryRow =
  cs_id :: nat
  cs_meeting_id :: jsstring
  cs_summary_text :: jsstring
  cs_embedding :: "blob option"
  cs_created_at :: nat

record QueueRow =
  q_id :: nat
  q_meeting_id :: jsstring
  q_chunk_id :: "nat option"
  q_status :: jsstring
  q_retry_count :: nat
  q_error_message :: "jsstring option"
  q_created_at :: nat
  q_processed_at :: "nat option"

record Database =
  meetings :: "MeetingRow list"
  transcripts :: "TranscriptRow list"
  ai_interactions :: "InteractionRow list"
  chunks :: "ChunkRow list"
  chunk_summaries :: "ChunkSummaryRow list"
  embedding_queue :: "QueueRow list"
  seq_transcripts :: nat
  seq_ai_interactions :: nat
  seq_chunks :: nat
  seq_chunk_summaries :: nat
  seq_embedding_queue :: nat

definition emptyDatabase :: Database where
  "emptyDatabase =
     \<lparr> meetings = [], transcripts = [], ai_interactions = [], chunks = [],
       chunk_summaries = [], embedding_queue = [], seq_transcripts = 0,
       seq_ai_interactions = 0, seq_chunks = 0, seq_chunk_summaries = 0,
       seq_embedding_queue = 0 \<rparr>"

text \<open>A chunk before it is stored: the columns an \<open>INSERT INTO chunks\<close> supplies. The
  store adds \<open>id\<close> and \<open>created_at\<close>; \<open>embedding\<close> starts as \<open>NULL\<close>.\<close>

record NewChunk =
  nc_meeting_id :: jsstring
  nc_chunk_index :: nat
  nc_speaker :: "jsstring option"
  nc_start_ts :: int
  nc_end_ts :: int
  nc_cleaned_text :: jsstring
  nc_token_count :: nat

text \<open>
  The SQL statements. The first seven are the ones \<open>DatabaseManager\<close> prepares; the
  others are the plain inserts and updates on the RAG tables that the schema admits.
\<close>

datatype Statement =
    InsertOrReplaceMeeting MeetingRow
  | InsertTranscript jsstring jsstring jsstring int
  | InsertInteraction jsstring jsstring int "jsstring option" "jsstring option"
      "jsstring list option"
  | UpdateMeetingTitle jsstring jsstring
  | UpdateSummaryJson json_text jsstring
  | DeleteMeeting jsstring
  | InsertChunk NewChunk nat
  | SetChunkEmbedding nat "blob option"
  | InsertChunkSummary jsstring jsstring nat
  | UpdateChunkSummary jsstring jsstring
  | SetSummaryEmbedding jsstring "blob option"
  | InsertQueueJob jsstring "nat option" nat

datatype SqliteError = SQLITE_IOERR | SQLITE_CONSTRAINT_FOREIGNKEY | SQLITE_CONSTRAINT_UNIQUE

definition meetingExists :: "Database \<Rightarrow> jsstring \<Rightarrow> bool" where
  "meetingExists db m = list_ex (\<lambda>r. r_id r = m) (meetings db)"

text \<open>
  Deleting the meetings row \<open>m\<close>. With \<open>ON DELETE CASCADE\<close> the deletion of a parent
  row deletes the rows of \<open>transcripts\<close>, \<open>ai_interactions\<close>, \<open>chunks\<close> and
  \<open>chunk_summaries\<close> that reference it (\<open>better-sqlite3\<close> enforces foreign keys by
  default); when no row \<open>m\<close> exists nothing is deleted. \<open>embedding_queue\<close> declares no
  foreign key.
\<close>

definition cascadeDelete :: "jsstring \<Rightarrow> Database \<Rightarrow> Database" where
  "cascadeDelete m db =
     (if meetingExists db m
      then db\<lparr> meetings := filter (\<lambda>r. r_id r \<noteq> m) (meetings db),
               transcripts := filter (\<lambda>r. tr_meeting_id r \<noteq> m) (transcripts db),
               ai_interactions := filter (\<lambda>r. ai_meeting_id r \<noteq> m) (ai_interactions db),
               chunks := filter (\<lambda>r. c_meeting_id r \<noteq> m) (chunks db),
               chunk_summaries := filter (\<lambda>r. cs_meeting_id r \<noteq> m) (chunk_summaries db) \<rparr>
      else db)"

text \<open>
  The effect of one statement that does not fail: the new database and the number of
  changed rows (\<open>info.changes\<close>). A child row needs its parent (\<open>FOREIGN KEY\<close>);
  \<open>chunk_summaries.meeting_id\<close> is \<open>UNIQUE\<close>; \<open>INSERT OR REPLACE\<close> deletes a row with the
  same primary key first, and that deletion cascades like any other.
\<close>

fun execute :: "Statement \<Rightarrow> Database \<Rightarrow> SqliteError + (Database \<times> nat)" where
  "execute (InsertOrReplaceMeeting row) db =
     (let db1 = cascadeDelete (r_id row) db
      in Inr (db1\<lparr> meetings := meetings db1 @ [row] \<rparr>, 1))"
| "execute (InsertTranscript m sp content ts) db =
     (if \<not> meetingExists db m then Inl SQLITE_CONSTRAINT_FOREIGNKEY
      else Inr (db\<lparr> transcripts := transcripts db @
                   [\<lparr> tr_id = Suc (seq_transcripts db), tr_meeting_id = m, tr_speaker = sp,
                      tr_content = content, tr_timestamp_ms = ts \<rparr>],
                 seq_transcripts := Suc (seq_transcripts db) \<rparr>, 1))"
| "execute (InsertInteraction m ty ts q a md) db =
     (if \<not> meetingExists db m then Inl SQLITE_CONSTRAINT_FOREIGNKEY
      else Inr (db\<lparr> ai_interactions := ai_interactions db @
                   [\<lparr> ai_id = Suc (seq_ai_interactions db), ai_meeting_id = m, ai_type = ty,
                      ai_timestamp = ts, ai_user_query = q, ai_ai_response = a,
                      ai_metadata_json = md \<rparr>],
                 seq_ai_interactions := Suc (seq_ai_interactions db) \<rparr>, 1))"
| "execute (UpdateMeetingTitle title m) db =
     Inr (db\<lparr> meetings :=
                map (\<lambda>r. if r_id r = m then r\<lparr> r_title := title \<rparr> else r) (meetings db) \<rparr>,
          length (filter (\<lambda>r. r_id r = m) (meetings db)))"
| "execute (UpdateSummaryJson js m) db =
     Inr (db\<lparr> meetings :=
                map (\<lambda>r. if r_id r = m then r\<lparr> r_summary_json := Some js \<rparr> else r)
                  (meetings db) \<rparr>,
          length (filter (\<lambda>r. r_id r = m) (meetings db)))"
| "execute (DeleteMeeting m) db =
     Inr (cascadeDelete m db, length (filter (\<lambda>r. r_id r = m) (meetings db)))"
| "execute (InsertChunk c now) db =
     (if \<not> meetingExists db (nc_meeting_id c) then Inl SQLITE_CONSTRAINT_FOREIGNKEY
      else Inr (db\<lparr> chunks := chunks db @
                   [\<lparr> c_id = Suc (seq_chunks db), c_meeting_id = nc_meeting_id c,
                      c_chunk_index = nc_chunk_index c, c_speaker = nc_speaker c,
                      c_start_timestamp_ms = nc_start_ts c, c_end_timestamp_ms = nc_end_ts c,
                      c_cleaned_text = nc_cleaned_text c, c_token_count = nc_token_count c,
                      c_embedding = None, c_created_at = now \<rparr>],
                 seq_chunks := Suc (seq_chunks db) \<rparr>, 1))"
| "execute (SetChunkEmbedding cid e) db =
     Inr (db\<lparr> chunks :=
                map (\<lambda>r. if c_id r = cid then r\<lparr> c_embedding := e \<rparr> else r) (chunks db) \<rparr>,
          length (filter (\<lambda>r. c_id r = cid) (chunks db)))"
| "execute (InsertChunkSummary m txt now) db =
     (if \<not> meetingExists db m then Inl SQLITE_CONSTRAINT_FOREIGNKEY
      else if list_ex (\<lambda>r. cs_meeting_id r = m) (chunk_summaries db)
      then Inl SQLITE_CONSTRAINT_UNIQUE
      else Inr (db\<lparr> chunk_summaries := chunk_summaries db @
                   [\<lparr> cs_id = Suc (seq_chunk_summaries db), cs_meeting_id = m,
                      cs_summary_text = txt, cs_embedding = None, cs_created_at = now \<rparr>],
                 seq_chunk_summaries := Suc (seq_chunk_summaries db) \<rparr>, 1))"
| "execute (UpdateChunkSummary txt m) db =
     Inr (db\<lparr> chunk_summaries :=
                map (\<lambda>r. if cs_meeting_id r = m
                         then r\<lparr> cs_summary_text := txt, cs_embedding := None \<rparr> else r)
                  (chunk_summaries db) \<rparr>,
          length (filter (\<lambda>r. cs_meeting_id r = m) (chunk_summaries db)))"
| "execute (SetSummaryEmbedding m e) db =
     Inr (db\<lparr> chunk_summaries :=
                map (\<lambda>r. if cs_meeting_id r = m then r\<lparr> cs_embedding := e \<rparr> else r)
                  (chunk_summaries db) \<rparr>,
          length (filter (\<lambda>r. cs_meeting_id r = m) (chunk_summaries db)))"
| "execute (InsertQueueJob m cid now) db =
     Inr (db\<lparr> embedding_queue := embedding_queue db @
                [\<lparr> q_id = Suc (seq_embedding_queue db), q_meeting_id = m, q_chunk_id = cid,
                   q_status = str ''pending'', q_retry_count = 0, q_error_message = None,
                   q_created_at = now, q_processed_at = None \<rparr>],
              seq_embedding_queue := Suc (seq_embedding_queue db) \<rparr>, 1)"

text \<open>
  \<open>stmt.run(...)\<close>. A statement can also throw for reasons outside the schema (an I/O
  error, a value that cannot be bound); the predicate \<open>fault\<close> says for which statements
  it does.
\<close>

definition run ::
  "(Statement \<Rightarrow> bool) \<Rightarrow> Statement \<Rightarrow> Database \<Rightarrow> SqliteError + (Database \<times> nat)" where
  "run fault stmt db = (if fault stmt then Inl SQLITE_IOERR else execute stmt db)"

text \<open>A sequence of \<open>run\<close> calls; the first one that throws ends it.\<close>

fun runEach :: "(Statement \<Rightarrow> bool) \<Rightarrow> Statement list \<Rightarrow> Database \<Rightarrow> SqliteError + Database" where
  "runEach fault [] db = Inr db"
| "runEach fault (stmt # rest) db =
     (case run fault stmt db of
        Inl e \<Rightarrow> Inl e
      | Inr (db', changes) \<Rightarrow> runEach fault rest db')"

text \<open>
  \<open>db.transaction(fn)()\<close>: the body runs inside \<open>BEGIN\<close> ... \<open>COMMIT\<close>; when it throws, the
  transaction is rolled back and the exception is thrown again.
\<close>

definition transaction ::
  "(Database \<Rightarrow> SqliteError + Database) \<Rightarrow> Database \<Rightarrow> Database \<times> (SqliteError + unit)" where
  "transaction body db =
     (case body db of
        Inl e \<Rightarrow> (db, Inl e)
      | Inr db' \<Rightarrow> (db', Inr ()))"

subsection \<open>saveMeeting\<close>

datatype answer = AnswerText jsstring | AnswerArray "jsstring list"

record UsageEntry =
  u_type :: jsstring
  u_timestamp :: int
  u_question :: "jsstring option"
  u_answer :: "answer option"
  u_items :: "jsstring list option"

record Meeting =
  m_id :: jsstring
  m_title :: jsstring
  m_date :: jsstring
  m_duration :: jsstring
  m_summary :: jsstring
  m_detailedSummary :: "jsobject option"
  m_transcript :: "TranscriptEntry list option"
  m_usage :: "UsageEntry list option"
  m_calendarEventId :: "jsstring option"
  m_source :: "jsstring option"
  m_isProcessed :: "bool option"

text \<open>\<open>x || null\<close> on an optional string: absent and empty both become \<open>null\<close>.\<close>

definition orNull :: "jsstring option \<Rightarrow> jsstring option" where
  "orNull x = (case x of None \<Rightarrow> None | Some s \<Rightarrow> if s = [] then None else Some s)"

definition summaryJson :: "Meeting \<Rightarrow> json_text" where
  "summaryJson meeting =
     Doc \<lparr> legacySummary = Some (m_summary meeting),
           detailedSummary = m_detailedSummary meeting \<rparr>"

definition meetingRow :: "Meeting \<Rightarrow> int \<Rightarrow> int \<Rightarrow> MeetingRow" where
  "meetingRow meeting startTimeMs durationMs =
     \<lparr> r_id = m_id meeting, r_title = m_title meeting, r_start_time = startTimeMs,
       r_duration_ms = durationMs, r_summary_json = Some (summaryJson meeting),
       r_created_at = m_date meeting,
       r_calendar_event_id = orNull (m_calendarEventId meeting),
       r_source =
         (case orNull (m_source meeting) of None \<Rightarrow> Some (str ''manual'') | Some s \<Rightarrow> Some s),
       r_is_processed = (if m_isProcessed meeting = Some True then 1 else 0) \<rparr>"

definition transcriptStatement :: "Meeting \<Rightarrow> TranscriptEntry \<Rightarrow> Statement" where
  "transcriptStatement meeting segment =
     InsertTranscript (m_id meeting) (te_speaker segment) (te_text segment)
       (te_timestamp segment)"

text \<open>The \<open>metadata\<close>, \<open>answerText\<close> and \<open>queryText\<close> of one usage entry. An array, even
  an empty one, is truthy; an empty string is not.\<close>

definition usageMetadata :: "UsageEntry \<Rightarrow> jsstring list option" where
  "usageMetadata usage =
     (case u_items usage of
        Some items \<Rightarrow> Some items
      | None \<Rightarrow>
          (if u_type usage = str ''followup_questions''
           then (case u_answer usage of Some (AnswerArray a) \<Rightarrow> Some a | _ \<Rightarrow> None)
           else None))"

definition usageAnswerText :: "UsageEntry \<Rightarrow> jsstring option" where
  "usageAnswerText usage =
     (case u_answer usage of
        Some (AnswerArray a) \<Rightarrow> None
      | Some (AnswerText s) \<Rightarrow> orNull (Some s)
      | None \<Rightarrow> None)"

definition interactionStatement :: "Meeting \<Rightarrow> UsageEntry \<Rightarrow> Statement" where
  "interactionStatement meeting usage =
     InsertInteraction (m_id meeting) (u_type usage) (u_timestamp usage)
       (orNull (u_question usage)) (usageAnswerText usage) (usageMetadata usage)"

text \<open>The statements the transaction body runs, in order.\<close>

definition saveStatements :: "Meeting \<Rightarrow> int \<Rightarrow> int \<Rightarrow> Statement list" where
  "saveStatements meeting startTimeMs durationMs =
     InsertOrReplaceMeeting (meetingRow meeting startTimeMs durationMs) #
     (case m_transcript meeting of
        None \<Rightarrow> []
      | Some segments \<Rightarrow> map (transcriptStatement meeting) segments) @
     (case m_usage meeting of
        None \<Rightarrow> []
      | Some usages \<Rightarrow> map (interactionStatement meeting) usages)"

text \<open>\<open>saveMeeting\<close> returns nothing; the result is the exception it throws, if any.
  Without a database it logs and returns.\<close>

definition saveMeeting ::
  "(Statement \<Rightarrow> bool) \<Rightarrow> Database option \<Rightarrow> Meeting \<Rightarrow> int \<Rightarrow> int
     \<Rightarrow> Database option \<times> (SqliteError + unit)" where
  "saveMeeting fault this_db meeting startTimeMs durationMs =
     (case this_db of
        None \<Rightarrow> (None, Inr ())
      | Some db \<Rightarrow>
          (case transaction (runEach fault (saveStatements meeting startTimeMs durationMs)) db of
             (db', Inl err) \<Rightarrow> (Some db', Inl err)
           | (db', Inr u) \<Rightarrow> (Some db', Inr ())))"

subsection \<open>updateMeetingTitle, updateMeetingSummary, deleteMeeting\<close>

definition updateMeetingTitle ::
  "(Statement \<Rightarrow> bool) \<Rightarrow> Database option \<Rightarrow> jsstring \<Rightarrow> jsstring \<Rightarrow> Database option \<times> bool" where
  "updateMeetingTitle fault this_db i title =
     (case this_db of
        None \<Rightarrow> (None, False)
      | Some db \<Rightarrow>
          (case run fault (UpdateMeetingTitle title i) db of
             Inl e \<Rightarrow> (Some db, False)
           | Inr (db', changes) \<Rightarrow> (Some db', changes > 0)))"

text \<open>\<open>SELECT summary_json FROM meetings WHERE id = ?\<close> with \<open>.get(id)\<close>: the first
  matching row, or \<open>undefined\<close>. The query can throw like any statement.\<close>

definition selectSummaryJson ::
  "bool \<Rightarrow> Database \<Rightarrow> jsstring \<Rightarrow> SqliteError + (json_text option) option" where
  "selectSummaryJson selectFault db i =
     (if selectFault then Inl SQLITE_IOERR
      else Inr (case filter (\<lambda>r. r_id r = i) (meetings db) of
                  [] \<Rightarrow> None
                | r # _ \<Rightarrow> Some (r_summary_json r)))"

text \<open>\<open>JSON.parse(row.summary_json || '{}')\<close>: \<open>NULL\<close> reads as the empty object; a
  malformed text throws (\<open>None\<close>).\<close>

definition parseSummaryJson :: "json_text option \<Rightarrow> SummaryData option" where
  "parseSummaryJson col =
     (case col of
        None \<Rightarrow> Some \<lparr> legacySummary = None, detailedSummary = None \<rparr>
      | Some Malformed \<Rightarrow> None
      | Some (Doc d) \<Rightarrow> Some d)"

text \<open>
  The argument \<open>updates\<close> is an object whose own keys may carry the value \<open>undefined\<close>
  (\<open>Some None\<close>). \<open>{...currentDetailed, ...updates}\<close> takes every own key of \<open>updates\<close>
  over the current one, and \<open>JSON.stringify\<close> then leaves out the keys whose value is
  \<open>undefined\<close>.
\<close>

definition spreadUpdates :: "jsobject \<Rightarrow> (jsstring \<rightharpoonup> jsonval option) \<Rightarrow> jsobject" where
  "spreadUpdates currentDetailed updates =
     (\<lambda>k. case updates k of Some v \<Rightarrow> v | None \<Rightarrow> currentDetailed k)"

definition updateMeetingSummary ::
  "bool \<Rightarrow> (Statement \<Rightarrow> bool) \<Rightarrow> Database option \<Rightarrow> jsstring \<Rightarrow> (jsstring \<rightharpoonup> jsonval option)
     \<Rightarrow> Database option \<times> bool" where
  "updateMeetingSummary selectFault fault this_db i updates =
     (case this_db of
        None \<Rightarrow> (None, False)
      | Some db \<Rightarrow>
          (case selectSummaryJson selectFault db i of
             Inl e \<Rightarrow> (Some db, False)
           | Inr None \<Rightarrow> (Some db, False)
           | Inr (Some col) \<Rightarrow>
               (case parseSummaryJson col of
                  None \<Rightarrow> (Some db, False)
                | Some existingData \<Rightarrow>
                    (let currentDetailed =
                           (case detailedSummary existingData of None \<Rightarrow> Map.empty | Some d \<Rightarrow> d);
                         newDetailed = spreadUpdates currentDetailed updates;
                         newData = existingData\<lparr> detailedSummary := Some newDetailed \<rparr>
                     in case run fault (UpdateSummaryJson (Doc newData) i) db of
                          Inl e \<Rightarrow> (Some db, False)
                        | Inr (db', changes) \<Rightarrow> (Some db', changes > 0)))))"

definition deleteMeeting ::
  "(Statement \<Rightarrow> bool) \<Rightarrow> Database option \<Rightarrow> jsstring \<Rightarrow> Database option \<times> bool" where
  "deleteMeeting fault this_db i =
     (case this_db of
        None \<Rightarrow> (None, False)
      | Some db \<Rightarrow>
          (case run fault (DeleteMeeting i) db of
             Inl e \<Rightarrow> (Some db, False)
           | Inr (db', changes) \<Rightarrow> (Some db', changes > 0)))"

subsection \<open>Reading the store back\<close>

text \<open>The transcript and the interaction columns stored for a meeting, in table order
  (as \<open>getMeetingDetails\<close> reads them, before its \<open>ORDER BY\<close>), and the columns
  \<open>saveMeeting\<close> writes for a usage entry.\<close>

definition storedTranscript :: "Database \<Rightarrow> jsstring \<Rightarrow> TranscriptEntry list" where
  "storedTranscript db m =
     map (\<lambda>r. \<lparr> te_speaker = tr_speaker r, te_text = tr_content r,
                te_timestamp = tr_timestamp_ms r \<rparr>)
       (filter (\<lambda>r. tr_meeting_id r = m) (transcripts db))"

definition storedInteractions ::
  "Database \<Rightarrow> jsstring \<Rightarrow>
     (jsstring \<times> int \<times> jsstring option \<times> jsstring option \<times> jsstring list option) list" where
  "storedInteractions db m =
     map (\<lambda>r. (ai_type r, ai_timestamp r, ai_user_query r, ai_ai_response r, ai_metadata_json r))
       (filter (\<lambda>r. ai_meeting_id r = m) (ai_interactions db))"

definition interactionColumns ::
  "UsageEntry \<Rightarrow> jsstring \<times> int \<times> jsstring option \<times> jsstring option \<times> jsstring list option" where
  "interactionColumns usage =
     (u_type usage, u_timestamp usage, orNull (u_question usage), usageAnswerText usage,
      usageMetadata usage)"

definition segmentsOf :: "Meeting \<Rightarrow> TranscriptEntry list" where
  "segmentsOf meeting = (case m_transcript meeting of None \<Rightarrow> [] | Some segs \<Rightarrow> segs)"

definition usagesOf :: "Meeting \<Rightarrow> UsageEntry list" where
  "usagesOf meeting = (case m_usage meeting of None \<Rightarrow> [] | Some us \<Rightarrow> us)"

text \<open>The meetings row of an id (\<open>id\<close> is the primary key), and the
  \<open>detailedSummary\<close> object of a stored document (\<open>existingData.detailedSummary || {}\<close>).\<close>

definition findMeeting :: "Database \<Rightarrow> jsstring \<Rightarrow> MeetingRow option" where
  "findMeeting db i = find (\<lambda>r. r_id r = i) (meetings db)"

definition currentDetailedOf :: "SummaryData \<Rightarrow> jsobject" where
  "currentDetailedOf d = (case detailedSummary d of None \<Rightarrow> Map.empty | Some obj \<Rightarrow> obj)"

text \<open>
  Referential integrity: every row of a child table references an existing meeting. The
  primary key of \<open>meetings\<close> and the \<open>UNIQUE\<close> column of \<open>chunk_summaries\<close> are keys.
\<close>

definition fkOk :: "Database \<Rightarrow> bool" where
  "fkOk db =
     (list_all (\<lambda>r. meetingExists db (tr_meeting_id r)) (transcripts db) \<and>
      list_all (\<lambda>r. meetingExists db (ai_meeting_id r)) (ai_interactions db) \<and>
      list_all (\<lambda>r. meetingExists db (c_meeting_id r)) (chunks db) \<and>
      list_all (\<lambda>r. meetingExists db (cs_meeting_id r)) (chunk_summaries db))"

definition keysOk :: "Database \<Rightarrow> bool" where
  "keysOk db =
     (distinct (map r_id (meetings db)) \<and> distinct (map cs_meeting_id (chunk_summaries db)))"

text \<open>The databases that statements can produce from the empty one.\<close>

inductive reachable :: "Database \<Rightarrow> bool" where
  init: "reachable emptyDatabase"
| step: "reachable db \<Longrightarrow> execute stmt db = Inr (db', n) \<Longrightarrow> reachable db'"

text \<open>The writing operations of \<open>DatabaseManager\<close>, and the database after a call.\<close>

datatype ApiCall =
    CallSaveMeeting Meeting int int
  | CallUpdateMeetingTitle jsstring jsstring
  | CallUpdateMeetingSummary jsstring "jsstring \<rightharpoonup> jsonval option"
  | CallDeleteMeeting jsstring

fun apiCall ::
  "bool \<Rightarrow> (Statement \<Rightarrow> bool) \<Rightarrow> ApiCall \<Rightarrow> Database option \<Rightarrow> Database option" where
  "apiCall selectFault fault (CallSaveMeeting meeting startTimeMs durationMs) this_db =
     fst (saveMeeting fault this_db meeting startTimeMs durationMs)"
| "apiCall selectFault fault (CallUpdateMeetingTitle i title) this_db =
     fst (updateMeetingTitle fault this_db i title)"
| "apiCall selectFault fault (CallUpdateMeetingSummary i updates) this_db =
     fst (updateMeetingSummary selectFault fault this_db i updates)"
| "apiCall selectFault fault (CallDeleteMeeting i) this_db =
     fst (deleteMeeting fault this_db i)"

subsection \<open>The meeting summary row\<close>

text \<open>
  Modelled from the spec: \<open>SummaryComposer.recompute\<close> and the store's upsert of the
  meeting summary are not among the sources. The spec (4.2, and MeetingSummary in 3): the
  summary is recomputed from all chunks seen so far; there is one live row per meeting,
  overwritten, not appended, on each recomputation; the new summary fully replaces the
  prior text and invalidates the prior embedding, and a job is enqueued again; a failure
  to recompute (the external summarizer is unavailable) leaves the previous summary and
  embedding intact. The summarizer is the parameter \<open>summarize\<close>.
\<close>

definition summaryRows :: "Database \<Rightarrow> jsstring \<Rightarrow> ChunkSummaryRow list" where
  "summaryRows db m = filter (\<lambda>r. cs_meeting_id r = m) (chunk_summaries db)"

definition upsertSummary :: "Database \<Rightarrow> jsstring \<Rightarrow> jsstring \<Rightarrow> nat \<Rightarrow> Statement" where
  "upsertSummary db m txt now =
     (if summaryRows db m \<noteq> [] then UpdateChunkSummary txt m
      else InsertChunkSummary m txt now)"

definition recomputeSummary ::
  "(ChunkRow list \<Rightarrow> jsstring option) \<Rightarrow> (Statement \<Rightarrow> bool) \<Rightarrow> nat \<Rightarrow> jsstring \<Rightarrow> Database
     \<Rightarrow> SqliteError + Database" where
  "recomputeSummary summarize fault now m db =
     (case summarize (filter (\<lambda>c. c_meeting_id c = m) (chunks db)) of
        None \<Rightarrow> Inr db
      | Some txt \<Rightarrow>
          (case transaction
                  (runEach fault [upsertSummary db m txt now, InsertQueueJob m None now]) db of
             (db', Inl e) \<Rightarrow> Inl e
           | (db', Inr u) \<Rightarrow> Inr db'))"

text \<open>The meeting of \<open>seedDemoMeeting\<close> (texts abridged), and two fault predicates: no
  statement fails, or every insert into \<open>ai_interactions\<close> fails.\<close>

definition demoMeeting :: Meeting where
  "demoMeeting =
     \<lparr> m_id = str ''demo-meeting-002'', m_title = str ''Natively Demo with CEO Evin'',
       m_date = str ''2025-01-01T09:30:00.000Z'', m_duration = str ''4:48'',
       m_summary = str ''Discussion about Natively product features and roadmap.'',
       m_detailedSummary =
         Some [str ''actionItems'' \<mapsto> JStrings demoActionItems,
               str ''keyPoints'' \<mapsto> JStrings demoKeyPoints],
       m_transcript = Some demoTranscript,
       m_usage =
         Some [\<lparr> u_type = str ''assist'', u_timestamp = 1000,
                  u_question = Some (str ''What should I ask about latency?''),
                  u_answer = Some (AnswerText (str ''Ask about specific ms targets.'')),
                  u_items = None \<rparr>],
       m_calendarEventId = None, m_source = None, m_isProcessed = None \<rparr>"

definition noFault :: "Statement \<Rightarrow> bool" where
  "noFault stmt = False"

definition interactionFault :: "Statement \<Rightarrow> bool" where
  "interactionFault stmt =
     (case stmt of InsertInteraction m ty ts q a md \<Rightarrow> True | _ \<Rightarrow> False)"

text \<open>A database with the demo meeting, one transcript row, one chunk and a summary, and
  a second meeting with a chunk of its own.\<close>

definition otherRow :: MeetingRow where
  "otherRow =
     \<lparr> r_id = str ''other'', r_title = str ''Weekly sync'', r_start_time = 0, r_duration_ms = 60000,
       r_summary_json = None, r_created_at = str ''2025-01-02T10:00:00.000Z'',
       r_calendar_event_id = None, r_source = Some (str ''manual''), r_is_processed = 1 \<rparr>"

definition demoChunk :: "nat \<Rightarrow> jsstring \<Rightarrow> ChunkRow" where
  "demoChunk i m =
     \<lparr> c_id = i, c_meeting_id = m, c_chunk_index = 0, c_speaker = Some (str ''user''),
       c_start_timestamp_ms = 0, c_end_timestamp_ms = 5000,
       c_cleaned_text = str ''Me: So, can you tell me more about the latency?'',
       c_token_count = 12, c_embedding = None, c_created_at = 1 \<rparr>"

definition demoDatabase :: Database where
  "demoDatabase =
     emptyDatabase
       \<lparr> meetings := [meetingRow demoMeeting 0 288000, otherRow],
         transcripts :=
           [\<lparr> tr_id = 1, tr_meeting_id = str ''demo-meeting-002'', tr_speaker = str ''user'',
              tr_content = str ''Yes, exactly.'', tr_timestamp_ms = 20000 \<rparr>],
         chunks := [demoChunk 1 (str ''demo-meeting-002''), demoChunk 2 (str ''other'')],
         chunk_summaries :=
           [\<lparr> cs_id = 1, cs_meeting_id = str ''demo-meeting-002'',
              cs_summary_text = str ''A demo of the product.'', cs_embedding = None,
              cs_created_at = 2 \<rparr>],
         seq_transcripts := 1, seq_chunks := 2, seq_chunk_summaries := 1 \<rparr>"

definition overviewUpdate :: "jsstring \<rightharpoonup> jsonval option" where
  "overviewUpdate = [str ''overview'' \<mapsto> Some (JString (str ''A short demo.''))]"

section \<open>MeetingChatOverlay: submitQuestion and the stream listeners\<close>

text \<open>
  The component state (\<open>messages\<close>, \<open>chatState\<close>, \<open>errorMessage\<close>) together with what the
  component has done to \<open>window.electronAPI\<close>: the listeners it has registered and not yet
  removed, each named by the \<open>assistantMessageId\<close> its callbacks close over, and the
  requests it has sent. The ids \<open>user-${Date.now()}\<close> and \<open>assistant-${Date.now()}\<close> are
  kept as a tag and the clock reading.
\<close>

text \<open>The chat states \<open>'idle'\<close>, \<open>'opening'\<close>, \<open>'waiting_for_llm'\<close>,
  \<open>'streaming_response'\<close>, \<open>'error'\<close> and \<open>'closing'\<close>.\<close>

datatype ChatState =
  st_idle | st_opening | st_waiting_for_llm | st_streaming_response | st_error | st_closing

datatype Role = user | assistant

datatype MessageId = UserId nat | AssistantId nat

record Message =
  msg_id :: MessageId
  msg_role :: Role
  msg_content :: jsstring
  msg_isStreaming :: "bool option"

datatype ApiRequest = RagQueryMeeting jsstring jsstring | StreamGeminiChat jsstring jsstring

record ChatUI =
  messages :: "Message list"
  chatState :: ChatState
  errorMessage :: "jsstring option"
  ragListeners :: "MessageId list"
  geminiListeners :: "MessageId list"
  requests :: "ApiRequest list"

definition initialChat :: ChatUI where
  "initialChat =
     \<lparr> messages = [], chatState = st_idle, errorMessage = None, ragListeners = [],
       geminiListeners = [], requests = [] \<rparr>"

text \<open>
  The two calls of \<open>window.electronAPI\<close> that \<open>submitQuestion\<close> awaits. Their
  implementation is in the main process; here they are the environment: a promise
  resolves with a value or rejects. The result of \<open>ragQueryMeeting\<close> may be
  \<open>undefined\<close> and its field \<open>fallback\<close> may be absent; \<open>result?.fallback\<close> is truthy only
  for \<open>true\<close>. \<open>window.electronAPI\<close> itself may be absent (\<open>?.\<close>).
\<close>

datatype 'a Promise = Resolved 'a | Rejected

record RagResult =
  fallback :: "bool option"

record ElectronAPI =
  ragQueryMeeting :: "jsstring \<Rightarrow> jsstring \<Rightarrow> RagResult option Promise"
  streamGeminiChat :: "jsstring \<Rightarrow> jsstring \<Rightarrow> unit Promise"

definition resultFallback :: "RagResult option \<Rightarrow> bool" where
  "resultFallback result =
     (case result of None \<Rightarrow> False | Some r \<Rightarrow> fallback r = Some True)"

definition couldNotRespond :: jsstring where
  "couldNotRespond = str ''Couldn't get a response. Please try again.''"

definition somethingWentWrong :: jsstring where
  "somethingWentWrong = str ''Something went wrong. Please try again.''"

definition promptHeader :: jsstring where
  "promptHeader =
     str ''You are recalling a specific meeting. Answer questions ONLY about this meeting. '' @
     str ''Be concise (2-4 sentences). Sound natural, like a human recalling. '' @
     str ''If information is not present, say so briefly. Never guess.''"

definition systemPrompt :: "MeetingContext \<Rightarrow> jsstring" where
  "systemPrompt meetingContext = promptHeader @ nl @ nl @ buildContextString meetingContext"

subsection \<open>The listeners\<close>

text \<open>The callbacks registered for the assistant message \<open>a\<close>; a cleanup function
  removes the registration it belongs to.\<close>

definition appendContent :: "MessageId \<Rightarrow> jsstring \<Rightarrow> Message list \<Rightarrow> Message list" where
  "appendContent a chunk msgs =
     map (\<lambda>msg. if msg_id msg = a then msg\<lparr> msg_content := msg_content msg @ chunk \<rparr> else msg)
       msgs"

definition stopStreaming :: "MessageId \<Rightarrow> Message list \<Rightarrow> Message list" where
  "stopStreaming a msgs =
     map (\<lambda>msg. if msg_id msg = a then msg\<lparr> msg_isStreaming := Some False \<rparr> else msg) msgs"

definition onRAGStreamChunk :: "MessageId \<Rightarrow> jsstring \<Rightarrow> ChatUI \<Rightarrow> ChatUI" where
  "onRAGStreamChunk a chunk st =
     st\<lparr> chatState := st_streaming_response, messages := appendContent a chunk (messages st) \<rparr>"

definition onRAGStreamComplete :: "MessageId \<Rightarrow> ChatUI \<Rightarrow> ChatUI" where
  "onRAGStreamComplete a st =
     st\<lparr> messages := stopStreaming a (messages st), chatState := st_idle,
         ragListeners := remove1 a (ragListeners st) \<rparr>"

definition onRAGStreamError :: "MessageId \<Rightarrow> jsstring \<Rightarrow> ChatUI \<Rightarrow> ChatUI" where
  "onRAGStreamError a err st =
     st\<lparr> messages := filter (\<lambda>msg. msg_id msg \<noteq> a) (messages st),
         errorMessage := Some couldNotRespond, chatState := st_error,
         ragListeners := remove1 a (ragListeners st) \<rparr>"

definition onGeminiStreamToken :: "MessageId \<Rightarrow> jsstring \<Rightarrow> ChatUI \<Rightarrow> ChatUI" where
  "onGeminiStreamToken a token st =
     st\<lparr> chatState := st_streaming_response, messages := appendContent a token (messages st) \<rparr>"

definition onGeminiStreamDone :: "MessageId \<Rightarrow> ChatUI \<Rightarrow> ChatUI" where
  "onGeminiStreamDone a st =
     st\<lparr> messages := stopStreaming a (messages st), chatState := st_idle,
         geminiListeners := remove1 a (geminiListeners st) \<rparr>"

text \<open>An event of the main process reaches every listener registered for its channel
  when it arrives.\<close>

datatype StreamEvent =
    RAGStreamChunk jsstring
  | RAGStreamComplete
  | RAGStreamError jsstring
  | GeminiStreamToken jsstring
  | GeminiStreamDone

fun deliver :: "StreamEvent \<Rightarrow> ChatUI \<Rightarrow> ChatUI" where
  "deliver (RAGStreamChunk chunk) st =
     foldl (\<lambda>s a. onRAGStreamChunk a chunk s) st (ragListeners st)"
| "deliver RAGStreamComplete st =
     foldl (\<lambda>s a. onRAGStreamComplete a s) st (ragListeners st)"
| "deliver (RAGStreamError err) st =
     foldl (\<lambda>s a. onRAGStreamError a err s) st (ragListeners st)"
| "deliver (GeminiStreamToken token) st =
     foldl (\<lambda>s a. onGeminiStreamToken a token s) st (geminiListeners st)"
| "deliver GeminiStreamDone st =
     foldl (\<lambda>s a. onGeminiStreamDone a s) st (geminiListeners st)"

subsection \<open>submitQuestion\<close>

text \<open>
  \<open>submitQuestion\<close> is modelled up to the moment its promise settles, with no event
  arriving in between. \<open>now\<close> is the reading of \<open>Date.now()\<close>. The \<open>catch\<close> block removes
  the placeholder and sets the error state; it removes no listener.
\<close>

definition catchBlock :: "MessageId \<Rightarrow> ChatUI \<Rightarrow> ChatUI" where
  "catchBlock assistantMessageId st =
     st\<lparr> messages := filter (\<lambda>msg. msg_id msg \<noteq> assistantMessageId) (messages st),
         errorMessage := Some somethingWentWrong, chatState := st_error \<rparr>"

text \<open>The context-window path of both branches: the Gemini listeners are registered and
  \<open>streamGeminiChat\<close> is called with the question and the system prompt built from the
  context string.\<close>

definition contextWindowChat ::
  "ElectronAPI option \<Rightarrow> MessageId \<Rightarrow> MeetingContext \<Rightarrow> jsstring \<Rightarrow> ChatUI \<Rightarrow> ChatUI" where
  "contextWindowChat api assistantMessageId meetingContext question st =
     (case api of
        None \<Rightarrow> st
      | Some a \<Rightarrow>
          (let st1 = st\<lparr> geminiListeners := geminiListeners st @ [assistantMessageId],
                         requests := requests st @
                           [StreamGeminiChat question (systemPrompt meetingContext)] \<rparr>
           in case streamGeminiChat a question (systemPrompt meetingContext) of
                Resolved u \<Rightarrow> st1
              | Rejected \<Rightarrow> catchBlock assistantMessageId st1))"

definition submitQuestion ::
  "ElectronAPI option \<Rightarrow> nat \<Rightarrow> MeetingContext \<Rightarrow> jsstring \<Rightarrow> ChatUI \<Rightarrow> ChatUI" where
  "submitQuestion api now meetingContext question st =
     (if trim question = [] \<or> chatState st = st_waiting_for_llm \<or>
         chatState st = st_streaming_response
      then st
      else
        (let userMessage =
               \<lparr> msg_id = UserId now, msg_role = user, msg_content = question,
                 msg_isStreaming = None \<rparr>;
             assistantMessageId = AssistantId now;
             st1 = st\<lparr> messages := messages st @ [userMessage], chatState := st_waiting_for_llm,
                       errorMessage := None \<rparr>;
             st2 = st1\<lparr> messages := messages st1 @
                       [\<lparr> msg_id = assistantMessageId, msg_role = assistant, msg_content = [],
                          msg_isStreaming = Some True \<rparr>] \<rparr>;
             st3 = (case api of
                      None \<Rightarrow> st2
                    | Some a \<Rightarrow> st2\<lparr> ragListeners := ragListeners st2 @ [assistantMessageId] \<rparr>)
         in case mc_id meetingContext of
              None \<Rightarrow> contextWindowChat api assistantMessageId meetingContext question st3
            | Some meetingId \<Rightarrow>
                (if meetingId = []
                 then contextWindowChat api assistantMessageId meetingContext question st3
                 else
                   (case api of
                      None \<Rightarrow> st3
                    | Some a \<Rightarrow>
                        (let st4 = st3\<lparr> requests := requests st3 @
                                        [RagQueryMeeting meetingId question] \<rparr>
                         in case ragQueryMeeting a meetingId question of
                              Rejected \<Rightarrow> catchBlock assistantMessageId st4
                            | Resolved result \<Rightarrow>
                                (if resultFallback result
                                 then contextWindowChat api assistantMessageId meetingContext
                                        question
                                        (st4\<lparr> ragListeners :=
                                               remove1 assistantMessageId (ragListeners st4) \<rparr>)
                                 else st4))))))"

text \<open>What the claims speak of: a query passes the guard at the head of
  \<open>submitQuestion\<close>; the context carries a usable meeting id (an empty string is falsy).\<close>

definition accepted :: "jsstring \<Rightarrow> ChatUI \<Rightarrow> bool" where
  "accepted question st =
     (trim question \<noteq> [] \<and> chatState st \<noteq> st_waiting_for_llm \<and>
      chatState st \<noteq> st_streaming_response)"

definition meetingIdOf :: "MeetingContext \<Rightarrow> jsstring option" where
  "meetingIdOf meetingContext =
     (case mc_id meetingContext of
        None \<Rightarrow> None
      | Some i \<Rightarrow> if i = [] then None else Some i)"

subsection \<open>The fallback decision behind ragQueryMeeting\<close>

text \<open>
  Modelled from the spec: the handler of \<open>ragQueryMeeting\<close> in the main process is not
  among the sources. The spec (4.6 FallbackPolicy, and \<open>queryMeeting\<close> in 6):
  \<open>select_strategy\<close> chooses \<open>ContextWindow\<close> when the store has zero completed chunk
  embeddings for the meeting, or the most recent retrieval returned
  \<open>RetrievalUnavailable\<close>, or the meeting is shorter than a minimum chunk count;
  \<open>queryMeeting\<close> runs the policy and reports \<open>used_fallback\<close>, which the renderer reads as
  \<open>result.fallback\<close>.
\<close>

datatype Strategy = RAG | ContextWindow

definition embeddedChunks :: "Database \<Rightarrow> jsstring \<Rightarrow> ChunkRow list" where
  "embeddedChunks db m =
     filter (\<lambda>c. c_meeting_id c = m \<and> c_embedding c \<noteq> None) (chunks db)"

definition select_strategy :: "nat \<Rightarrow> bool \<Rightarrow> Database \<Rightarrow> jsstring \<Rightarrow> Strategy" where
  "select_strategy minChunks lastUnavailable db m =
     (if embeddedChunks db m = [] \<or> lastUnavailable \<or>
         length (filter (\<lambda>c. c_meeting_id c = m) (chunks db)) < minChunks
      then ContextWindow else RAG)"

definition queryMeeting ::
  "nat \<Rightarrow> bool \<Rightarrow> Database \<Rightarrow> jsstring \<Rightarrow> jsstring \<Rightarrow> RagResult option Promise" where
  "queryMeeting minChunks lastUnavailable db m question =
     Resolved (Some \<lparr> fallback =
       Some (select_strategy minChunks lastUnavailable db m = ContextWindow) \<rparr>)"

text \<open>Sample environments: the RAG handler of the spec over the demo database (whose
  chunks have no embedding), a RAG call that answers without fallback, a RAG call that
  rejects, and a context without a meeting id.\<close>

definition specApi :: ElectronAPI where
  "specApi =
     \<lparr> ragQueryMeeting = queryMeeting 1 False demoDatabase,
       streamGeminiChat = (\<lambda>question prompt. Resolved ()) \<rparr>"

definition ragApi :: ElectronAPI where
  "ragApi =
     \<lparr> ragQueryMeeting = (\<lambda>m question. Resolved (Some \<lparr> fallback = Some False \<rparr>)),
       streamGeminiChat = (\<lambda>question prompt. Resolved ()) \<rparr>"

definition rejectApi :: ElectronAPI where
  "rejectApi =
     \<lparr> ragQueryMeeting = (\<lambda>m question. Rejected),
       streamGeminiChat = (\<lambda>question prompt. Resolved ()) \<rparr>"

definition noIdContext :: MeetingContext where
  "noIdContext = demoContext\<lparr> mc_id := None \<rparr>"

text \<open>The chat after a first query whose RAG call was rejected.\<close>

definition afterRejected :: ChatUI where
  "afterRejected =
     submitQuestion (Some rejectApi) 1 demoContext (str ''What was decided?'') initialChat"

text \<open>A database reached by two statements: the second meeting and a summary for it.\<close>

definition summaryDb :: Database where
  "summaryDb =
     emptyDatabase
       \<lparr> meetings := [otherRow],
         chunk_summaries :=
           [\<lparr> cs_id = 1, cs_meeting_id = str ''other'', cs_summary_text = str ''first summary'',
              cs_embedding = None, cs_created_at = 5 \<rparr>],
         seq_chunk_summaries := 1 \<rparr>"

definition secondSummary :: "ChunkRow list \<Rightarrow> jsstring option" where
  "secondSummary cs = Some (str ''second summary'')"

section \<open>The embedding queue\<close>


datatype Target = ChunkTarget nat | SummaryTarget jsstring


































section \<open>The chunker\<close>

text \<open>
  Modelled from the spec: the \<open>Chunker\<close> is not among the sources; they hold only the
  table \<open>chunks\<close>. The spec (Utterance and Chunk in 3, and 4.1): an utterance is
  \<open>{speaker: self | other, text, timestamp_ms}\<close>, ordered by timestamp within a meeting;
  \<open>append(utterance)\<close> returns zero or more newly finalized chunks and \<open>flush()\<close> forces
  the buffered remainder out (nothing for an empty buffer); utterances accumulate in an
  ordered buffer; a chunk is finalized when the buffer's estimated token count reaches a
  configured ceiling, or a configured maximum span since the buffer's first utterance is
  exceeded, or the speaker changes after a configured minimum buffer size;
  \<open>cleaned_text\<close> is the concatenation of the utterance texts with the labels \<open>Me:\<close> and
  \<open>Them:\<close>; the timestamps of the first and last utterance become \<open>start_ts\<close> and
  \<open>end_ts\<close>; \<open>chunk_index\<close> is dense from 0; no chunk exceeds the ceiling unless it is a
  single utterance that does so by itself (so the buffer is closed before an utterance
  that would overflow it). The token estimator is the parameter \<open>estimate\<close>.
\<close>

datatype Speaker = self | other

record Utterance =
  ut_speaker :: Speaker
  ut_text :: jsstring
  ut_timestamp_ms :: int

record ChunkerConfig =
  token_ceiling :: nat
  max_span_ms :: int
  min_buffer_tokens :: nat

record Chunker =
  ck_meeting_id :: jsstring
  ck_config :: ChunkerConfig
  ck_buffer :: "Utterance list"
  ck_next_index :: nat

definition newChunker :: "ChunkerConfig \<Rightarrow> jsstring \<Rightarrow> Chunker" where
  "newChunker cfg m = \<lparr> ck_meeting_id = m, ck_config = cfg, ck_buffer = [], ck_next_index = 0 \<rparr>"

definition speakerLabel :: "Speaker \<Rightarrow> jsstring" where
  "speakerLabel s = (case s of self \<Rightarrow> str ''Me'' | other \<Rightarrow> str ''Them'')"

definition labelled :: "Utterance \<Rightarrow> jsstring" where
  "labelled u = speakerLabel (ut_speaker u) @ str '': '' @ ut_text u"

definition bufferTokens :: "(jsstring \<Rightarrow> nat) \<Rightarrow> Utterance list \<Rightarrow> nat" where
  "bufferTokens estimate buf = sum_list (map (\<lambda>u. estimate (ut_text u)) buf)"

definition materialize ::
  "(jsstring \<Rightarrow> nat) \<Rightarrow> jsstring \<Rightarrow> nat \<Rightarrow> Utterance \<Rightarrow> Utterance list \<Rightarrow> NewChunk" where
  "materialize estimate m idx first rest =
     \<lparr> nc_meeting_id = m, nc_chunk_index = idx,
       nc_speaker =
         (if list_all (\<lambda>u. ut_speaker u = ut_speaker first) rest
          then Some (speakerLabel (ut_speaker first)) else None),
       nc_start_ts = ut_timestamp_ms first,
       nc_end_ts = ut_timestamp_ms (last (first # rest)),
       nc_cleaned_text = join nl (map labelled (first # rest)),
       nc_token_count = bufferTokens estimate (first # rest) \<rparr>"

definition emit :: "(jsstring \<Rightarrow> nat) \<Rightarrow> Chunker \<Rightarrow> Chunker \<times> NewChunk list" where
  "emit estimate ck =
     (case ck_buffer ck of
        [] \<Rightarrow> (ck, [])
      | first # rest \<Rightarrow>
          (ck\<lparr> ck_buffer := [], ck_next_index := Suc (ck_next_index ck) \<rparr>,
           [materialize estimate (ck_meeting_id ck) (ck_next_index ck) first rest]))"

definition mustCloseBefore :: "(jsstring \<Rightarrow> nat) \<Rightarrow> Chunker \<Rightarrow> Utterance \<Rightarrow> bool" where
  "mustCloseBefore estimate ck u =
     (case ck_buffer ck of
        [] \<Rightarrow> False
      | first # rest \<Rightarrow>
          token_ceiling (ck_config ck) <
            bufferTokens estimate (first # rest) + estimate (ut_text u) \<or>
          max_span_ms (ck_config ck) < ut_timestamp_ms u - ut_timestamp_ms first \<or>
          (ut_speaker u \<noteq> ut_speaker (last (first # rest)) \<and>
           min_buffer_tokens (ck_config ck) \<le> bufferTokens estimate (first # rest)))"

definition admit :: "(jsstring \<Rightarrow> nat) \<Rightarrow> Utterance \<Rightarrow> Chunker \<Rightarrow> Chunker \<times> NewChunk list" where
  "admit estimate u ck =
     (if mustCloseBefore estimate ck u
      then (case emit estimate ck of
              (ck', emitted) \<Rightarrow> (ck'\<lparr> ck_buffer := [u] \<rparr>, emitted))
      else (ck\<lparr> ck_buffer := ck_buffer ck @ [u] \<rparr>, []))"

definition closeFull :: "(jsstring \<Rightarrow> nat) \<Rightarrow> Chunker \<Rightarrow> Chunker \<times> NewChunk list" where
  "closeFull estimate ck =
     (if ck_buffer ck \<noteq> [] \<and> token_ceiling (ck_config ck) \<le> bufferTokens estimate (ck_buffer ck)
      then emit estimate ck else (ck, []))"

definition appendUtterance ::
  "(jsstring \<Rightarrow> nat) \<Rightarrow> Utterance \<Rightarrow> Chunker \<Rightarrow> Chunker \<times> NewChunk list" where
  "appendUtterance estimate u ck =
     (case admit estimate u ck of
        (ck1, chunks1) \<Rightarrow>
          (case closeFull estimate ck1 of
             (ck2, chunks2) \<Rightarrow> (ck2, chunks1 @ chunks2)))"

definition flush :: "(jsstring \<Rightarrow> nat) \<Rightarrow> Chunker \<Rightarrow> Chunker \<times> NewChunk option" where
  "flush estimate ck =
     (case emit estimate ck of
        (ck', []) \<Rightarrow> (ck', None)
      | (ck', chunk # _) \<Rightarrow> (ck', Some chunk))"

fun appendAll ::
  "(jsstring \<Rightarrow> nat) \<Rightarrow> Utterance list \<Rightarrow> Chunker \<Rightarrow> Chunker \<times> NewChunk list" where
  "appendAll estimate [] ck = (ck, [])"
| "appendAll estimate (u # us) ck =
     (case appendUtterance estimate u ck of
        (ck1, chunks1) \<Rightarrow>
          (case appendAll estimate us ck1 of
             (ck2, chunks2) \<Rightarrow> (ck2, chunks1 @ chunks2)))"

definition chunkTranscript ::
  "(jsstring \<Rightarrow> nat) \<Rightarrow> ChunkerConfig \<Rightarrow> jsstring \<Rightarrow> Utterance list \<Rightarrow> bool \<Rightarrow> NewChunk list" where
  "chunkTranscript estimate cfg m us meetingEnded =
     (case appendAll estimate us (newChunker cfg m) of
        (ck, emitted) \<Rightarrow>
          if meetingEnded
          then (case flush estimate ck of
                  (ck', None) \<Rightarrow> emitted
                | (ck', Some chunk) \<Rightarrow> emitted @ [chunk])
          else emitted)"

text \<open>The timestamps still to be chunked, and what one step of the chunker guarantees
  (from a chunker with further input to a chunker with less of it, producing chunks): the
  indices continue the count, and for input in timestamp order the chunks start in
  order, at timestamps of the input, no later than anything still to be chunked.\<close>

definition pendingTs :: "Chunker \<Rightarrow> Utterance list \<Rightarrow> int list" where
  "pendingTs ck us = map ut_timestamp_ms (ck_buffer ck @ us)"

definition good ::
  "Chunker \<Rightarrow> Utterance list \<Rightarrow> Chunker \<Rightarrow> Utterance list \<Rightarrow> NewChunk list \<Rightarrow> bool" where
  "good ck us ck' us' cs =
     (map nc_chunk_index cs = [ck_next_index ck ..< ck_next_index ck + length cs] \<and>
      ck_next_index ck' = ck_next_index ck + length cs \<and>
      (sorted (pendingTs ck us) \<longrightarrow>
         sorted (pendingTs ck' us') \<and> set (pendingTs ck' us') \<subseteq> set (pendingTs ck us) \<and>
         sorted (map nc_start_ts cs) \<and>
         (\<forall>c \<in> set cs. nc_start_ts c \<in> set (pendingTs ck us)) \<and>
         (\<forall>c \<in> set cs. \<forall>t \<in> set (pendingTs ck' us'). nc_start_ts c \<le> t)))"

text \<open>Sample input: the demo transcript as utterances, a ceiling of 12 estimated tokens
  and an estimate of one token per four characters.\<close>

definition demoUtterances :: "Utterance list" where
  "demoUtterances =
     map (\<lambda>t. \<lparr> ut_speaker = (if te_speaker t = str ''user'' then self else other),
                ut_text = te_text t, ut_timestamp_ms = te_timestamp t \<rparr>) demoTranscript"

definition demoChunkerConfig :: ChunkerConfig where
  "demoChunkerConfig = \<lparr> token_ceiling = 12, max_span_ms = 60000, min_buffer_tokens = 4 \<rparr>"

definition roughEstimate :: "jsstring \<Rightarrow> nat" where
  "roughEstimate s = Suc (length s div 4)"

text \<open>Two utterances that are not in timestamp order, and a ceiling that every
  utterance reaches by itself.\<close>

definition unorderedUtterances :: "Utterance list" where
  "unorderedUtterances =
     [\<lparr> ut_speaker = self, ut_text = str ''Yes, exactly.'', ut_timestamp_ms = 10 \<rparr>,
      \<lparr> ut_speaker = other, ut_text = str ''Could you clarify that phrase?'',
        ut_timestamp_ms = 0 \<rparr>]"

definition tightChunkerConfig :: ChunkerConfig where
  "tightChunkerConfig = \<lparr> token_ceiling = 1, max_span_ms = 60000, min_buffer_tokens = 1 \<rparr>"

section \<open>Verified properties\<close>

subsection \<open>Strings\<close>

lemma str_eq [simp]: "str a = str b \<longleftrightarrow> a = b"
  by (simp add: str_def inj_map_eq_map inj_on_def)

lemma str_Nil [simp]: "str [] = []" "str a = [] \<longleftrightarrow> a = []" "[] = str a \<longleftrightarrow> a = []"
  by (auto simp: str_def)

lemma str_append: "str (a @ b) = str a @ str b"
  by (simp add: str_def)

lemma str_Me: "str ''Me'' = [0x4D, 0x65]"
  by (simp add: str_def)

lemma length_str [simp]: "length (str a) = length a"
  by (simp add: str_def)

lemma join_concat: "xs \<noteq> [] \<Longrightarrow> sep @ join sep xs = concat (map (\<lambda>x. sep @ x) xs)"
  by (induction sep xs rule: join.induct) simp_all

subsection \<open>searchMeetings\<close>

lemma trim_nonempty: "trim q \<noteq> [] \<Longrightarrow> q \<noteq> []"
  by (auto simp: trim_def)

lemma hit_matches:
  "(titleMatch lc meeting query \<or> summaryMatch lc meeting query) = matches lc meeting query"
  by (auto simp: titleMatch_def summaryMatch_def matches_def fuzzyMatch_def includes_str_def
      split: option.splits)

lemma searchLoop_closed:
  "length results < 5 \<Longrightarrow>
   searchLoop lc fmt query ms results seen =
     results @ map (mkResult fmt) (take (5 - length results) (distinctMatches lc query ms seen))"
proof (induction ms arbitrary: results seen)
  case Nil
  then show ?case by simp
next
  case (Cons m ms)
  show ?case
  proof (cases "pm_id m \<in> seen")
    case True
    then show ?thesis using Cons by simp
  next
    case False
    show ?thesis
    proof (cases "matches lc m query")
      case True
      then have h: "titleMatch lc m query \<or> summaryMatch lc m query"
        using hit_matches by simp
      show ?thesis
      proof (cases "length results = 4")
        case True
        then show ?thesis using False h \<open>matches lc m query\<close> by simp
      next
        case F: False
        then have lt: "length (results @ [mkResult fmt m]) < 5" using Cons.prems by simp
        have "5 - length results = Suc (5 - length (results @ [mkResult fmt m]))"
          using lt by simp
        then show ?thesis
          using False h \<open>matches lc m query\<close> lt Cons.IH[OF lt, of "insert (pm_id m) seen"]
          by simp
      qed
    next
      case F: False
      then have h: "\<not> (titleMatch lc m query \<or> summaryMatch lc m query)"
        using hit_matches by simp
      show ?thesis using False F h Cons by simp
    qed
  qed
qed

lemma distinctMatches_subseq: "subseq (distinctMatches lc query ms seen) ms"
  by (induction ms arbitrary: seen) auto

lemma distinctMatches_matches:
  "m \<in> set (distinctMatches lc query ms seen) \<Longrightarrow> matches lc m query"
  by (induction ms arbitrary: seen) (auto split: if_splits)

lemma distinctMatches_notseen:
  "m \<in> set (distinctMatches lc query ms seen) \<Longrightarrow> pm_id m \<notin> seen"
  by (induction ms arbitrary: seen) (auto split: if_splits)

lemma distinctMatches_distinct: "distinct (map pm_id (distinctMatches lc query ms seen))"
  by (induction ms arbitrary: seen) (auto dest: distinctMatches_notseen)

lemma distinctMatches_complete:
  "m \<in> set ms \<Longrightarrow> matches lc m query \<Longrightarrow>
   pm_id m \<in> seen \<union> pm_id ` set (distinctMatches lc query ms seen)"
  by (induction ms arbitrary: seen) (auto split: if_splits)

lemma distinctMatches_first:
  "m \<in> set (distinctMatches lc query ms seen) \<Longrightarrow>
   find (\<lambda>x. matches lc x query \<and> pm_id x = pm_id m) ms = Some m"
proof (induction ms arbitrary: seen)
  case Nil
  then show ?case by simp
next
  case (Cons a ms)
  show ?case
  proof (cases "pm_id a \<in> seen")
    case True
    then have m: "m \<in> set (distinctMatches lc query ms seen)" using Cons.prems by simp
    then have "pm_id m \<notin> seen" by (rule distinctMatches_notseen)
    then have "pm_id a \<noteq> pm_id m" using True by auto
    then show ?thesis using Cons.IH[OF m] by simp
  next
    case False
    show ?thesis
    proof (cases "matches lc a query")
      case F: False
      then have m: "m \<in> set (distinctMatches lc query ms seen)"
        using Cons.prems False by simp
      show ?thesis using Cons.IH[OF m] F by simp
    next
      case True
      show ?thesis
      proof (cases "m = a")
        case True
        then show ?thesis using \<open>matches lc a query\<close> by simp
      next
        case N: False
        then have m: "m \<in> set (distinctMatches lc query ms (insert (pm_id a) seen))"
          using Cons.prems False True by simp
        then have "pm_id m \<notin> insert (pm_id a) seen" by (rule distinctMatches_notseen)
        then have "pm_id a \<noteq> pm_id m" by auto
        then show ?thesis using Cons.IH[OF m] by simp
      qed
    qed
  qed
qed

lemma searchMeetings_closed:
  "searchMeetings lc fmt ms query =
     (if trim query = [] then []
      else map (mkResult fmt) (take 5 (distinctMatches lc query ms {})))"
  using searchLoop_closed[of "[]" lc fmt query ms "{}"]
  by (simp add: searchMeetings_def)

lemma mkResult_meetingId: "sr_meetingId (mkResult fmt m) = pm_id m"
  by (simp add: mkResult_def)

text \<open>
  Claim C10, as amended. \<open>searchMeetings\<close> returns the empty list for a query that is
  empty or consists of white space and line terminators only. Otherwise it returns the
  results of the first five (or of all, when there are fewer) of the matching meetings
  taken in input order with, of each id, only the first matching meeting kept: that
  list is a subsequence of the input with pairwise distinct ids, each of its meetings is
  the first matching meeting of its id in the input, and every matching meeting has its
  id in it. Hence there are at most five results, with pairwise distinct meeting ids,
  in input order, each built from a matching meeting; and when fewer than five results
  are returned, the id of every matching meeting is among them. A matching meeting is
  left out only if an earlier matching meeting has its id or five results stand before
  it. A meeting matches when its title or its summary contains the query, both in lower
  case (a lower-casing that keeps the empty string empty and the query non-empty, as
  \<open>toLowerCase\<close> does for a query that is not blank, makes the empty summary match
  nothing, as the code has it).
\<close>

theorem searchMeetings_spec:
  "(trim query = [] \<longrightarrow> searchMeetings toLowerCase fmt ms query = []) \<and>
   (trim query \<noteq> [] \<longrightarrow>
      searchMeetings toLowerCase fmt ms query =
        map (mkResult fmt) (take 5 (distinctMatches toLowerCase query ms {}))) \<and>
   subseq (distinctMatches toLowerCase query ms {}) ms \<and>
   distinct (map pm_id (distinctMatches toLowerCase query ms {})) \<and>
   (\<forall>m \<in> set (distinctMatches toLowerCase query ms {}).
      find (\<lambda>x. matches toLowerCase x query \<and> pm_id x = pm_id m) ms = Some m) \<and>
   (\<forall>m \<in> set ms. matches toLowerCase m query \<longrightarrow>
      pm_id m \<in> pm_id ` set (distinctMatches toLowerCase query ms {})) \<and>
   length (searchMeetings toLowerCase fmt ms query) \<le> 5 \<and>
   distinct (map sr_meetingId (searchMeetings toLowerCase fmt ms query)) \<and>
   (\<exists>sub. subseq sub ms \<and> (\<forall>m \<in> set sub. matches toLowerCase m query) \<and>
          searchMeetings toLowerCase fmt ms query = map (mkResult fmt) sub) \<and>
   (trim query \<noteq> [] \<and> length (searchMeetings toLowerCase fmt ms query) < 5 \<longrightarrow>
      (\<forall>m \<in> set ms. matches toLowerCase m query \<longrightarrow>
         pm_id m \<in> sr_meetingId ` set (searchMeetings toLowerCase fmt ms query))) \<and>
   (toLowerCase [] = [] \<and> toLowerCase query \<noteq> [] \<longrightarrow>
      (\<forall>m. matches toLowerCase m query =
         (sublist (toLowerCase query) (toLowerCase (pm_title m)) \<or>
          (\<exists>s. pm_summary m = Some s \<and> sublist (toLowerCase query) (toLowerCase s)))))"
proof -
  let ?c = "distinctMatches toLowerCase query ms {}"
  let ?r = "searchMeetings toLowerCase fmt ms query"
  have c1: "trim query = [] \<longrightarrow> ?r = []"
    by (simp add: searchMeetings_def)
  have c2: "trim query \<noteq> [] \<longrightarrow> ?r = map (mkResult fmt) (take 5 ?c)"
    by (simp add: searchMeetings_closed)
  have d1: "subseq ?c ms" by (rule distinctMatches_subseq)
  have d2: "distinct (map pm_id ?c)" by (rule distinctMatches_distinct)
  have d3: "\<forall>m \<in> set ?c.
      find (\<lambda>x. matches toLowerCase x query \<and> pm_id x = pm_id m) ms = Some m"
    using distinctMatches_first by blast
  have d4: "\<forall>m \<in> set ms. matches toLowerCase m query \<longrightarrow> pm_id m \<in> pm_id ` set ?c"
    using distinctMatches_complete[of _ ms toLowerCase query "{}"] by simp
  have c3: "length ?r \<le> 5"
    by (simp add: searchMeetings_closed)
  have "distinct (map pm_id (take 5 ?c))"
    using d2 by (simp add: take_map[symmetric])
  then have c4: "distinct (map sr_meetingId ?r)"
    by (simp add: searchMeetings_closed o_def mkResult_meetingId)
  have c5: "\<exists>sub. subseq sub ms \<and> (\<forall>m \<in> set sub. matches toLowerCase m query) \<and>
          ?r = map (mkResult fmt) sub"
  proof (cases "trim query = []")
    case True
    then show ?thesis by (intro exI[of _ "[]"]) (simp add: searchMeetings_def)
  next
    case False
    have "subseq (take 5 ?c) ms"
      by (meson distinctMatches_subseq subseq_order.order_trans prefix_imp_subseq take_is_prefix)
    moreover have "\<forall>m \<in> set (take 5 ?c). matches toLowerCase m query"
      by (meson distinctMatches_matches in_set_takeD)
    ultimately show ?thesis using False
      by (intro exI[of _ "take 5 ?c"]) (simp add: searchMeetings_closed)
  qed
  have c6: "trim query \<noteq> [] \<and> length ?r < 5 \<longrightarrow>
      (\<forall>m \<in> set ms. matches toLowerCase m query \<longrightarrow> pm_id m \<in> sr_meetingId ` set ?r)"
  proof (intro impI ballI, elim conjE)
    fix m assume ne: "trim query \<noteq> []" and lt: "length ?r < 5"
      and m: "m \<in> set ms" "matches toLowerCase m query"
    from lt ne have "take 5 ?c = ?c" by (simp add: searchMeetings_closed)
    then have "sr_meetingId ` set ?r = pm_id ` set ?c"
      using ne by (simp add: searchMeetings_closed image_image mkResult_meetingId)
    then show "pm_id m \<in> sr_meetingId ` set ?r"
      using d4 m by simp
  qed
  have c7: "toLowerCase [] = [] \<and> toLowerCase query \<noteq> [] \<longrightarrow>
      (\<forall>m. matches toLowerCase m query =
         (sublist (toLowerCase query) (toLowerCase (pm_title m)) \<or>
          (\<exists>s. pm_summary m = Some s \<and> sublist (toLowerCase query) (toLowerCase s))))"
    by (auto simp: matches_def split: option.splits)
  from c1 c2 d1 d2 d3 d4 c3 c4 c5 c6 c7 show ?thesis by (intro conjI)
qed

lemmas trim_eval = trim_def str_def isWhiteSpace_def isLineTerminator_def

lemmas search_eval = matches_def pillMeeting_def latin1ToLowerCase_def str_def sublist_code

text \<open>\<open>trim\<close> at every code unit it strips, at three it keeps (NEL, U+180E and the
  zero-width space), and at a padded string.\<close>

lemma trim_examples:
  "trim [0x0009, 0x000A, 0x000B, 0x000C, 0x000D, 0x0020, 0x00A0, 0x1680, 0x2000, 0x2001,
         0x2002, 0x2003, 0x2004, 0x2005, 0x2006, 0x2007, 0x2008, 0x2009, 0x200A, 0x2028,
         0x2029, 0x202F, 0x205F, 0x3000, 0xFEFF] = []"
  "trim [0x0085] = [0x0085]"
  "trim [0x180E] = [0x180E]"
  "trim [0x200B] = [0x200B]"
  "trim (str '' a b '' @ [0x00A0]) = str ''a b''"
  by (simp_all add: trim_eval)

lemma dEm_results:
  "distinctMatches latin1ToLowerCase (str ''dEm'') threeMeetings {} =
     [pillMeeting (str ''1'') (str ''Demo'')]"
  by (simp add: threeMeetings_def search_eval)

lemma cafe_results:
  "distinctMatches latin1ToLowerCase [0xC9] cafeMeetings {} =
     [pillMeeting (str ''1'') (str ''Caf'' @ [0xE9] @ str '' chat'')]"
  by (simp add: cafeMeetings_def search_eval)

lemma six_results:
  "map pm_id (take 5 (distinctMatches latin1ToLowerCase (str ''a'') sixMeetings {})) =
     [str ''1'', str ''2'', str ''3'', str ''4'', str ''5'']"
  by (simp add: sixMeetings_def search_eval)

text \<open>The amended statement at concrete inputs: a query of white space only; a query
  that matches two meetings with the same id; a query with U+00C9 against a title with
  U+00E9.\<close>

theorem searchMeetings_spec_witness:
  "trim blankQuery = [] \<and>
   searchMeetings latin1ToLowerCase id cafeMeetings blankQuery = [] \<and>
   trim (str ''dEm'') \<noteq> [] \<and>
   searchMeetings latin1ToLowerCase id threeMeetings (str ''dEm'') =
     [mkResult id (pillMeeting (str ''1'') (str ''Demo''))] \<and>
   pillMeeting (str ''1'') (str ''demo again'') \<in> set threeMeetings \<and>
   matches latin1ToLowerCase (pillMeeting (str ''1'') (str ''demo again'')) (str ''dEm'') \<and>
   pm_id (pillMeeting (str ''1'') (str ''demo again''))
     \<in> sr_meetingId ` set (searchMeetings latin1ToLowerCase id threeMeetings (str ''dEm'')) \<and>
   trim [0xC9] \<noteq> [] \<and>
   searchMeetings latin1ToLowerCase id cafeMeetings [0xC9] =
     [mkResult id (pillMeeting (str ''1'') (str ''Caf'' @ [0xE9] @ str '' chat''))] \<and>
   latin1ToLowerCase [] = [] \<and> latin1ToLowerCase (str ''dEm'') \<noteq> [] \<and>
   sublist (latin1ToLowerCase (str ''dEm''))
     (latin1ToLowerCase (pm_title (pillMeeting (str ''1'') (str ''demo again''))))"
proof -
  note A = searchMeetings_spec[of blankQuery latin1ToLowerCase id cafeMeetings]
  note B = searchMeetings_spec[of "str ''dEm''" latin1ToLowerCase id threeMeetings]
  note C = searchMeetings_spec[of "[0xC9]" latin1ToLowerCase id cafeMeetings]
  have h0: "trim blankQuery = []" by (simp add: trim_eval blankQuery_def)
  have h1: "trim (str ''dEm'') \<noteq> []" by (simp add: trim_eval)
  have h2: "trim [0xC9] \<noteq> []" by (simp add: trim_eval)
  have h3: "pillMeeting (str ''1'') (str ''demo again'') \<in> set threeMeetings"
    by (simp add: threeMeetings_def)
  have h4: "matches latin1ToLowerCase (pillMeeting (str ''1'') (str ''demo again''))
      (str ''dEm'')"
    by (simp add: search_eval)
  have a: "searchMeetings latin1ToLowerCase id cafeMeetings blankQuery = []"
    using A[THEN conjunct1] h0 by (rule mp)
  have b: "searchMeetings latin1ToLowerCase id threeMeetings (str ''dEm'') =
     [mkResult id (pillMeeting (str ''1'') (str ''Demo''))]"
    using B[THEN conjunct2, THEN conjunct1, THEN mp, OF h1] by (simp add: dEm_results)
  have l: "length (searchMeetings latin1ToLowerCase id threeMeetings (str ''dEm'')) < 5"
    using b by simp
  have c: "pm_id (pillMeeting (str ''1'') (str ''demo again''))
     \<in> sr_meetingId ` set (searchMeetings latin1ToLowerCase id threeMeetings (str ''dEm''))"
    using B[THEN conjunct2, THEN conjunct2, THEN conjunct2, THEN conjunct2, THEN conjunct2,
        THEN conjunct2, THEN conjunct2, THEN conjunct2, THEN conjunct2, THEN conjunct1,
        THEN mp, OF conjI[OF h1 l], THEN bspec, OF h3, THEN mp, OF h4] .
  have d: "searchMeetings latin1ToLowerCase id cafeMeetings [0xC9] =
     [mkResult id (pillMeeting (str ''1'') (str ''Caf'' @ [0xE9] @ str '' chat''))]"
    using C[THEN conjunct2, THEN conjunct1, THEN mp, OF h2] by (simp add: cafe_results)
  have l0: "latin1ToLowerCase [] = []" by (simp add: latin1ToLowerCase_def)
  have l1: "latin1ToLowerCase (str ''dEm'') \<noteq> []" by (simp add: latin1ToLowerCase_def)
  have ns: "\<not> (\<exists>s. pm_summary (pillMeeting (str ''1'') (str ''demo again'')) = Some s \<and>
      sublist (latin1ToLowerCase (str ''dEm'')) (latin1ToLowerCase s))"
    by (simp add: pillMeeting_def)
  have e: "sublist (latin1ToLowerCase (str ''dEm''))
     (latin1ToLowerCase (pm_title (pillMeeting (str ''1'') (str ''demo again''))))"
    using B[THEN conjunct2, THEN conjunct2, THEN conjunct2, THEN conjunct2, THEN conjunct2,
        THEN conjunct2, THEN conjunct2, THEN conjunct2, THEN conjunct2, THEN conjunct2,
        THEN mp, OF conjI[OF l0 l1], THEN spec, THEN iffD1, OF h4] ns
    by blast
  from h0 a h1 b h3 h4 c h2 d l0 l1 e show ?thesis by (intro conjI)
qed

text \<open>The claim as stated fails where more than five meetings match: the sixth meeting
  matches the query and is not among the results.\<close>

theorem searchMeetings_iff_counterexample:
  "trim (str ''a'') \<noteq> [] \<and> pillMeeting (str ''6'') (str ''Lambda'') \<in> set sixMeetings \<and>
   matches latin1ToLowerCase (pillMeeting (str ''6'') (str ''Lambda'')) (str ''a'') \<and>
   map sr_meetingId (searchMeetings latin1ToLowerCase id sixMeetings (str ''a'')) =
     [str ''1'', str ''2'', str ''3'', str ''4'', str ''5'']"
proof -
  have h1: "trim (str ''a'') \<noteq> []" by (simp add: trim_eval)
  have h2: "pillMeeting (str ''6'') (str ''Lambda'') \<in> set sixMeetings"
    by (simp add: sixMeetings_def)
  have h3: "matches latin1ToLowerCase (pillMeeting (str ''6'') (str ''Lambda'')) (str ''a'')"
    by (simp add: search_eval)
  have h4: "map sr_meetingId (searchMeetings latin1ToLowerCase id sixMeetings (str ''a'')) =
      [str ''1'', str ''2'', str ''3'', str ''4'', str ''5'']"
    using h1 six_results by (simp add: searchMeetings_closed o_def mkResult_meetingId)
  from h1 h2 h3 h4 show ?thesis by (intro conjI)
qed

subsection \<open>buildContextString\<close>

lemma join_Cons: "join sep (p # ps) = p @ concat (map (\<lambda>x. sep @ x) ps)"
  by (induction sep ps arbitrary: p rule: join.induct) simp_all

lemma join_sublist: "p \<in> set ps \<Longrightarrow> sublist p (join sep ps)"
proof (induction sep ps rule: join.induct)
  case (3 sep x y ys)
  show ?case
  proof (cases "p = x")
    case True
    then show ?thesis by simp
  next
    case False
    then have "sublist p (join sep (y # ys))" using 3 by auto
    then show ?thesis
      by (metis append.assoc join.simps(3) sublist_append)
  qed
qed auto

lemma sublist_trans': "sublist xs ys \<Longrightarrow> sublist ys zs \<Longrightarrow> sublist xs zs"
  by (rule sublist_order.order_trans)

lemma concat_map_sublist: "x \<in> set xs \<Longrightarrow> sublist (f x) (concat (map f xs))"
proof (induction xs)
  case Nil
  then show ?case by simp
next
  case (Cons a xs)
  show ?case
  proof (cases "x = a")
    case True
    then show ?thesis by simp
  next
    case False
    then have "sublist (f x) (concat (map f xs))" using Cons by simp
    then show ?thesis
      using sublist_trans'[OF _ sublist_append_leftI[of "concat (map f xs)" "f a"]] by simp
  qed
qed

lemma summary_text: "summarySection s = [0x0A] @ str ''SUMMARY:'' @ [0x0A] @ s"
  by (simp add: summarySection_def nl_def)

lemma keyPoints_text:
  "ps \<noteq> [] \<Longrightarrow>
   keyPointsSection ps =
     [0x0A] @ str ''KEY POINTS:'' @ concat (map (\<lambda>p. [0x0A] @ str ''- '' @ p) ps)"
  using join_concat[of "map bullet ps" nl]
  by (simp add: keyPointsSection_def bullet_def nl_def o_def)

lemma actionItems_text:
  "as \<noteq> [] \<Longrightarrow>
   actionItemsSection as =
     [0x0A] @ str ''ACTION ITEMS:'' @ concat (map (\<lambda>a. [0x0A] @ str ''- '' @ a) as)"
  using join_concat[of "map bullet as" nl]
  by (simp add: actionItemsSection_def bullet_def nl_def o_def)

lemma transcript_text:
  assumes "ts \<noteq> []"
  shows "transcriptSection ts =
     [0x0A] @ str ''RECENT TRANSCRIPT:'' @
       concat (map (\<lambda>t. [0x0A] @ str ''['' @
                 (if te_speaker t = str ''user'' then str ''Me'' else str ''Them'') @
                 str '']: '' @ te_text t)
         (drop (length ts - 20) ts))"
proof -
  have "length ts - 20 < length ts" using assms by (cases ts) simp_all
  then have "map transcriptLine (drop (length ts - 20) ts) \<noteq> []" by simp
  from join_concat[OF this, of nl] show ?thesis
    by (simp add: transcriptSection_def sliceLast_def transcriptLine_def nl_def o_def)
qed

lemma contextParts_alt:
  "contextParts ctx =
     (str ''MEETING: '' @ mc_title ctx) #
     (case mc_summary ctx of None \<Rightarrow> [] | Some s \<Rightarrow> if s = [] then [] else [summarySection s]) @
     (case mc_keyPoints ctx of
        None \<Rightarrow> [] | Some ps \<Rightarrow> if ps = [] then [] else [keyPointsSection ps]) @
     (case mc_actionItems ctx of
        None \<Rightarrow> [] | Some as \<Rightarrow> if as = [] then [] else [actionItemsSection as]) @
     (case mc_transcript ctx of
        None \<Rightarrow> [] | Some ts \<Rightarrow> if ts = [] then [] else [transcriptSection ts])"
  by (simp add: contextParts_def pushSummary_def pushKeyPoints_def pushActionItems_def
      pushTranscript_def split: option.splits)

lemma buildContextString_closed:
  "buildContextString ctx =
     str ''MEETING: '' @ mc_title ctx @
     (case mc_summary ctx of
        None \<Rightarrow> []
      | Some s \<Rightarrow> if s = [] then [] else [0x0A, 0x0A] @ str ''SUMMARY:'' @ [0x0A] @ s) @
     (case mc_keyPoints ctx of
        None \<Rightarrow> []
      | Some ps \<Rightarrow>
          if ps = [] then []
          else [0x0A, 0x0A] @ str ''KEY POINTS:'' @
                 concat (map (\<lambda>p. [0x0A] @ str ''- '' @ p) ps)) @
     (case mc_actionItems ctx of
        None \<Rightarrow> []
      | Some as \<Rightarrow>
          if as = [] then []
          else [0x0A, 0x0A] @ str ''ACTION ITEMS:'' @
                 concat (map (\<lambda>a. [0x0A] @ str ''- '' @ a) as)) @
     (case mc_transcript ctx of
        None \<Rightarrow> []
      | Some ts \<Rightarrow>
          if ts = [] then []
          else [0x0A, 0x0A] @ str ''RECENT TRANSCRIPT:'' @
                 concat (map (\<lambda>t. [0x0A] @ str ''['' @
                           (if te_speaker t = str ''user'' then str ''Me'' else str ''Them'') @
                           str '']: '' @ te_text t)
                   (drop (length ts - 20) ts)))"
proof -
  define S where "S =
    (case mc_summary ctx of None \<Rightarrow> [] | Some s \<Rightarrow> if s = [] then [] else [summarySection s])"
  define K where "K =
    (case mc_keyPoints ctx of
       None \<Rightarrow> [] | Some ps \<Rightarrow> if ps = [] then [] else [keyPointsSection ps])"
  define A where "A =
    (case mc_actionItems ctx of
       None \<Rightarrow> [] | Some as \<Rightarrow> if as = [] then [] else [actionItemsSection as])"
  define R where "R =
    (case mc_transcript ctx of
       None \<Rightarrow> [] | Some ts \<Rightarrow> if ts = [] then [] else [transcriptSection ts])"
  have p: "contextParts ctx = (str ''MEETING: '' @ mc_title ctx) # S @ K @ A @ R"
    unfolding S_def K_def A_def R_def by (rule contextParts_alt)
  have s: "concat (map (\<lambda>x. nl @ x) S) =
     (case mc_summary ctx of
        None \<Rightarrow> []
      | Some s \<Rightarrow> if s = [] then [] else [0x0A, 0x0A] @ str ''SUMMARY:'' @ [0x0A] @ s)"
    by (simp add: S_def summary_text nl_def split: option.splits)
  have k: "concat (map (\<lambda>x. nl @ x) K) =
     (case mc_keyPoints ctx of
        None \<Rightarrow> []
      | Some ps \<Rightarrow>
          if ps = [] then []
          else [0x0A, 0x0A] @ str ''KEY POINTS:'' @
                 concat (map (\<lambda>p. [0x0A] @ str ''- '' @ p) ps))"
    by (simp add: K_def keyPoints_text nl_def split: option.splits)
  have a: "concat (map (\<lambda>x. nl @ x) A) =
     (case mc_actionItems ctx of
        None \<Rightarrow> []
      | Some as \<Rightarrow>
          if as = [] then []
          else [0x0A, 0x0A] @ str ''ACTION ITEMS:'' @
                 concat (map (\<lambda>a. [0x0A] @ str ''- '' @ a) as))"
    by (simp add: A_def actionItems_text nl_def split: option.splits)
  have r: "concat (map (\<lambda>x. nl @ x) R) =
     (case mc_transcript ctx of
        None \<Rightarrow> []
      | Some ts \<Rightarrow>
          if ts = [] then []
          else [0x0A, 0x0A] @ str ''RECENT TRANSCRIPT:'' @
                 concat (map (\<lambda>t. [0x0A] @ str ''['' @
                           (if te_speaker t = str ''user'' then str ''Me'' else str ''Them'') @
                           str '']: '' @ te_text t)
                   (drop (length ts - 20) ts)))"
    by (simp add: R_def transcript_text nl_def split: option.splits)
  have "buildContextString ctx =
      (str ''MEETING: '' @ mc_title ctx) @ concat (map (\<lambda>x. nl @ x) S) @
        concat (map (\<lambda>x. nl @ x) K) @ concat (map (\<lambda>x. nl @ x) A) @
        concat (map (\<lambda>x. nl @ x) R)"
    unfolding buildContextString_def p join_Cons by simp
  then show ?thesis unfolding s k a r by simp
qed

lemma section_contents:
  "(\<forall>s. mc_summary ctx = Some s \<and> s \<noteq> [] \<longrightarrow> summarySection s \<in> set (contextParts ctx)) \<and>
   (\<forall>ps. mc_keyPoints ctx = Some ps \<and> ps \<noteq> [] \<longrightarrow>
      keyPointsSection ps \<in> set (contextParts ctx)) \<and>
   (\<forall>as. mc_actionItems ctx = Some as \<and> as \<noteq> [] \<longrightarrow>
      actionItemsSection as \<in> set (contextParts ctx)) \<and>
   (\<forall>ts. mc_transcript ctx = Some ts \<and> ts \<noteq> [] \<longrightarrow>
      transcriptSection ts \<in> set (contextParts ctx))"
  by (auto simp: contextParts_def pushSummary_def pushKeyPoints_def
      pushActionItems_def pushTranscript_def split: option.splits)

lemma part_sublist: "p \<in> set (contextParts ctx) \<Longrightarrow> sublist p (buildContextString ctx)"
  by (simp add: buildContextString_def join_sublist)

lemma title_prefix: "prefix (str ''MEETING: '' @ mc_title ctx) (buildContextString ctx)"
  unfolding buildContextString_def contextParts_alt join_Cons prefix_def by simp

lemma buildContextString_nonempty: "buildContextString ctx \<noteq> []"
  using title_prefix[of ctx] by (auto simp: prefix_def)

lemma title_sublist: "sublist (mc_title ctx) (buildContextString ctx)"
proof -
  obtain zs where "buildContextString ctx = (str ''MEETING: '' @ mc_title ctx) @ zs"
    using title_prefix[of ctx] unfolding prefix_def by blast
  then have "buildContextString ctx = str ''MEETING: '' @ mc_title ctx @ zs" by simp
  then show ?thesis unfolding sublist_def by blast
qed

lemma summary_in_context:
  assumes "mc_summary ctx = Some s" "s \<noteq> []"
  shows "sublist (str ''SUMMARY:'' @ [0x0A] @ s) (buildContextString ctx)"
proof -
  have "summarySection s \<in> set (contextParts ctx)"
    using section_contents[of ctx, THEN conjunct1, THEN spec, THEN mp, OF conjI[OF assms]] .
  then have a: "sublist (summarySection s) (buildContextString ctx)" by (rule part_sublist)
  have "sublist (str ''SUMMARY:'' @ [0x0A] @ s) (summarySection s)"
    unfolding summary_text by (rule sublist_append_leftI)
  then show ?thesis using a by (rule sublist_trans')
qed

lemma keyPoints_in_context:
  assumes "mc_keyPoints ctx = Some ps" "ps \<noteq> []"
  shows "sublist (str ''KEY POINTS:'' @ concat (map (\<lambda>p. [0x0A] @ str ''- '' @ p) ps))
     (buildContextString ctx)"
proof -
  have "keyPointsSection ps \<in> set (contextParts ctx)"
    using section_contents[of ctx, THEN conjunct2, THEN conjunct1, THEN spec, THEN mp,
        OF conjI[OF assms]] .
  then have a: "sublist (keyPointsSection ps) (buildContextString ctx)" by (rule part_sublist)
  have "sublist (str ''KEY POINTS:'' @ concat (map (\<lambda>p. [0x0A] @ str ''- '' @ p) ps))
      (keyPointsSection ps)"
    unfolding keyPoints_text[OF assms(2)] by (rule sublist_append_leftI)
  then show ?thesis using a by (rule sublist_trans')
qed

lemma actionItems_in_context:
  assumes "mc_actionItems ctx = Some as" "as \<noteq> []"
  shows "sublist (str ''ACTION ITEMS:'' @ concat (map (\<lambda>a. [0x0A] @ str ''- '' @ a) as))
     (buildContextString ctx)"
proof -
  have "actionItemsSection as \<in> set (contextParts ctx)"
    using section_contents[of ctx, THEN conjunct2, THEN conjunct2, THEN conjunct1, THEN spec,
        THEN mp, OF conjI[OF assms]] .
  then have a: "sublist (actionItemsSection as) (buildContextString ctx)"
    by (rule part_sublist)
  have "sublist (str ''ACTION ITEMS:'' @ concat (map (\<lambda>a. [0x0A] @ str ''- '' @ a) as))
      (actionItemsSection as)"
    unfolding actionItems_text[OF assms(2)] by (rule sublist_append_leftI)
  then show ?thesis using a by (rule sublist_trans')
qed

lemma transcript_in_context:
  assumes "mc_transcript ctx = Some ts" "ts \<noteq> []"
  shows "sublist
     (str ''RECENT TRANSCRIPT:'' @
        concat (map (\<lambda>t. [0x0A] @ str ''['' @
                  (if te_speaker t = str ''user'' then str ''Me'' else str ''Them'') @
                  str '']: '' @ te_text t)
          (drop (length ts - 20) ts)))
     (buildContextString ctx)"
proof -
  have "transcriptSection ts \<in> set (contextParts ctx)"
    using section_contents[of ctx, THEN conjunct2, THEN conjunct2, THEN conjunct2, THEN spec,
        THEN mp, OF conjI[OF assms]] .
  then have a: "sublist (transcriptSection ts) (buildContextString ctx)"
    by (rule part_sublist)
  have "sublist
     (str ''RECENT TRANSCRIPT:'' @
        concat (map (\<lambda>t. [0x0A] @ str ''['' @
                  (if te_speaker t = str ''user'' then str ''Me'' else str ''Them'') @
                  str '']: '' @ te_text t)
          (drop (length ts - 20) ts)))
     (transcriptSection ts)"
    unfolding transcript_text[OF assms(2)] by (rule sublist_append_leftI)
  then show ?thesis using a by (rule sublist_trans')
qed

lemma line_in_context:
  assumes "mc_transcript ctx = Some ts" "ts \<noteq> []" "t \<in> set (drop (length ts - 20) ts)"
  shows "sublist
     (str ''['' @ (if te_speaker t = str ''user'' then str ''Me'' else str ''Them'') @
        str '']: '' @ te_text t)
     (buildContextString ctx)"
proof -
  let ?f = "\<lambda>t. [0x0A] @ str ''['' @
     (if te_speaker t = str ''user'' then str ''Me'' else str ''Them'') @ str '']: '' @ te_text t"
  have 1: "sublist (str ''['' @
        (if te_speaker t = str ''user'' then str ''Me'' else str ''Them'') @
        str '']: '' @ te_text t) (?f t)"
    by (rule sublist_append_leftI)
  have 2: "sublist (?f t) (concat (map ?f (drop (length ts - 20) ts)))"
    using assms(3) by (rule concat_map_sublist)
  have 3: "sublist (concat (map ?f (drop (length ts - 20) ts)))
      (str ''RECENT TRANSCRIPT:'' @ concat (map ?f (drop (length ts - 20) ts)))"
    by (rule sublist_append_leftI)
  note 4 = transcript_in_context[OF assms(1,2)]
  show ?thesis
    by (rule sublist_trans'[OF 1 sublist_trans'[OF 2 sublist_trans'[OF 3 4]]])
qed

text \<open>
  Claim C3, as amended. For every meeting context, \<open>buildContextString\<close> returns exactly
  the line \<open>MEETING: \<close> and the title, followed in this order by the sections of the
  summary, the key points, the action items and the transcript, each only if its field
  is present and non-empty: a blank line, the heading, and in the next lines the summary
  text, or the points and items as lines starting with a dash, or the lines of the last
  \<open>min 20 n\<close> of the \<open>n\<close> utterances, each labelled \<open>[Me]: \<close> when the speaker is
  \<open>user\<close> and \<open>[Them]: \<close> otherwise. Nothing is added for an absent or empty field.
  Hence the returned string is not empty and contains the title, the section of every
  field that is present and non-empty, and each of those transcript lines.
\<close>

theorem buildContextString_spec:
  "buildContextString ctx =
     str ''MEETING: '' @ mc_title ctx @
     (case mc_summary ctx of
        None \<Rightarrow> []
      | Some s \<Rightarrow> if s = [] then [] else [0x0A, 0x0A] @ str ''SUMMARY:'' @ [0x0A] @ s) @
     (case mc_keyPoints ctx of
        None \<Rightarrow> []
      | Some ps \<Rightarrow>
          if ps = [] then []
          else [0x0A, 0x0A] @ str ''KEY POINTS:'' @
                 concat (map (\<lambda>p. [0x0A] @ str ''- '' @ p) ps)) @
     (case mc_actionItems ctx of
        None \<Rightarrow> []
      | Some as \<Rightarrow>
          if as = [] then []
          else [0x0A, 0x0A] @ str ''ACTION ITEMS:'' @
                 concat (map (\<lambda>a. [0x0A] @ str ''- '' @ a) as)) @
     (case mc_transcript ctx of
        None \<Rightarrow> []
      | Some ts \<Rightarrow>
          if ts = [] then []
          else [0x0A, 0x0A] @ str ''RECENT TRANSCRIPT:'' @
                 concat (map (\<lambda>t. [0x0A] @ str ''['' @
                           (if te_speaker t = str ''user'' then str ''Me'' else str ''Them'') @
                           str '']: '' @ te_text t)
                   (drop (length ts - 20) ts))) \<and>
   buildContextString ctx \<noteq> [] \<and>
   sublist (mc_title ctx) (buildContextString ctx) \<and>
   (\<forall>s. mc_summary ctx = Some s \<and> s \<noteq> [] \<longrightarrow>
      sublist (str ''SUMMARY:'' @ [0x0A] @ s) (buildContextString ctx)) \<and>
   (\<forall>ps. mc_keyPoints ctx = Some ps \<and> ps \<noteq> [] \<longrightarrow>
      sublist (str ''KEY POINTS:'' @ concat (map (\<lambda>p. [0x0A] @ str ''- '' @ p) ps))
        (buildContextString ctx)) \<and>
   (\<forall>as. mc_actionItems ctx = Some as \<and> as \<noteq> [] \<longrightarrow>
      sublist (str ''ACTION ITEMS:'' @ concat (map (\<lambda>a. [0x0A] @ str ''- '' @ a) as))
        (buildContextString ctx)) \<and>
   (\<forall>ts. mc_transcript ctx = Some ts \<and> ts \<noteq> [] \<longrightarrow>
      sublist
        (str ''RECENT TRANSCRIPT:'' @
           concat (map (\<lambda>t. [0x0A] @ str ''['' @
                     (if te_speaker t = str ''user'' then str ''Me'' else str ''Them'') @
                     str '']: '' @ te_text t)
             (drop (length ts - 20) ts)))
        (buildContextString ctx) \<and>
      length (drop (length ts - 20) ts) = min 20 (length ts) \<and>
      (\<forall>t \<in> set (drop (length ts - 20) ts).
         sublist
           (str ''['' @ (if te_speaker t = str ''user'' then str ''Me'' else str ''Them'') @
              str '']: '' @ te_text t)
           (buildContextString ctx)))"
proof (intro conjI allI impI ballI)
  show "buildContextString ctx =
     str ''MEETING: '' @ mc_title ctx @
     (case mc_summary ctx of
        None \<Rightarrow> []
      | Some s \<Rightarrow> if s = [] then [] else [0x0A, 0x0A] @ str ''SUMMARY:'' @ [0x0A] @ s) @
     (case mc_keyPoints ctx of
        None \<Rightarrow> []
      | Some ps \<Rightarrow>
          if ps = [] then []
          else [0x0A, 0x0A] @ str ''KEY POINTS:'' @
                 concat (map (\<lambda>p. [0x0A] @ str ''- '' @ p) ps)) @
     (case mc_actionItems ctx of
        None \<Rightarrow> []
      | Some as \<Rightarrow>
          if as = [] then []
          else [0x0A, 0x0A] @ str ''ACTION ITEMS:'' @
                 concat (map (\<lambda>a. [0x0A] @ str ''- '' @ a) as)) @
     (case mc_transcript ctx of
        None \<Rightarrow> []
      | Some ts \<Rightarrow>
          if ts = [] then []
          else [0x0A, 0x0A] @ str ''RECENT TRANSCRIPT:'' @
                 concat (map (\<lambda>t. [0x0A] @ str ''['' @
                           (if te_speaker t = str ''user'' then str ''Me'' else str ''Them'') @
                           str '']: '' @ te_text t)
                   (drop (length ts - 20) ts)))"
    by (rule buildContextString_closed)
  show "buildContextString ctx \<noteq> []" by (rule buildContextString_nonempty)
  show "sublist (mc_title ctx) (buildContextString ctx)" by (rule title_sublist)
  show "sublist (str ''SUMMARY:'' @ [0x0A] @ s) (buildContextString ctx)"
    if "mc_summary ctx = Some s \<and> s \<noteq> []" for s
    using summary_in_context[OF that[THEN conjunct1] that[THEN conjunct2]] .
  show "sublist (str ''KEY POINTS:'' @ concat (map (\<lambda>p. [0x0A] @ str ''- '' @ p) ps))
        (buildContextString ctx)"
    if "mc_keyPoints ctx = Some ps \<and> ps \<noteq> []" for ps
    using keyPoints_in_context[OF that[THEN conjunct1] that[THEN conjunct2]] .
  show "sublist (str ''ACTION ITEMS:'' @ concat (map (\<lambda>a. [0x0A] @ str ''- '' @ a) as))
        (buildContextString ctx)"
    if "mc_actionItems ctx = Some as \<and> as \<noteq> []" for as
    using actionItems_in_context[OF that[THEN conjunct1] that[THEN conjunct2]] .
  show "sublist
        (str ''RECENT TRANSCRIPT:'' @
           concat (map (\<lambda>t. [0x0A] @ str ''['' @
                     (if te_speaker t = str ''user'' then str ''Me'' else str ''Them'') @
                     str '']: '' @ te_text t)
             (drop (length ts - 20) ts)))
        (buildContextString ctx)"
    if "mc_transcript ctx = Some ts \<and> ts \<noteq> []" for ts
    using transcript_in_context[OF that[THEN conjunct1] that[THEN conjunct2]] .
  show "length (drop (length ts - 20) ts) = min 20 (length ts)" for ts :: "TranscriptEntry list"
    by auto
  show "sublist
           (str ''['' @ (if te_speaker t = str ''user'' then str ''Me'' else str ''Them'') @
              str '']: '' @ te_text t)
           (buildContextString ctx)"
    if "mc_transcript ctx = Some ts \<and> ts \<noteq> []" "t \<in> set (drop (length ts - 20) ts)" for ts t
    using line_in_context[OF that(1)[THEN conjunct1] that(1)[THEN conjunct2] that(2)] .
qed

lemma demoTranscript_last:
  "\<lparr> te_speaker = str ''user'', te_text = str ''Yes, exactly.'', te_timestamp = 20000 \<rparr>
     \<in> set (drop (length demoTranscript - 20) demoTranscript)"
  by (simp add: demoTranscript_def)

text \<open>The statement at the context of the demo meeting, given a summary, and the whole
  string of a small context.\<close>

theorem buildContextString_spec_witness:
  "mc_summary fullContext = Some (str ''Discussion about Natively product features.'') \<and>
   str ''Discussion about Natively product features.'' \<noteq> [] \<and>
   sublist (str ''SUMMARY:'' @ [0x0A] @ str ''Discussion about Natively product features.'')
     (buildContextString fullContext) \<and>
   mc_keyPoints fullContext = Some demoKeyPoints \<and> demoKeyPoints \<noteq> [] \<and>
   sublist (str ''KEY POINTS:'' @ concat (map (\<lambda>p. [0x0A] @ str ''- '' @ p) demoKeyPoints))
     (buildContextString fullContext) \<and>
   mc_actionItems fullContext = Some demoActionItems \<and> demoActionItems \<noteq> [] \<and>
   sublist (str ''ACTION ITEMS:'' @ concat (map (\<lambda>a. [0x0A] @ str ''- '' @ a) demoActionItems))
     (buildContextString fullContext) \<and>
   mc_transcript fullContext = Some demoTranscript \<and> demoTranscript \<noteq> [] \<and>
   length (drop (length demoTranscript - 20) demoTranscript) = 5 \<and>
   \<lparr> te_speaker = str ''user'', te_text = str ''Yes, exactly.'', te_timestamp = 20000 \<rparr>
     \<in> set (drop (length demoTranscript - 20) demoTranscript) \<and>
   sublist (str ''[Me]: Yes, exactly.'') (buildContextString fullContext) \<and>
   buildContextString plainContext =
     str ''MEETING: Demo'' @ [0x0A, 0x0A] @ str ''SUMMARY:'' @ [0x0A] @ str ''foo''"
proof -
  note T = buildContextString_spec[of fullContext]
  note P = buildContextString_spec[of plainContext]
  have s: "mc_summary fullContext = Some (str ''Discussion about Natively product features.'')"
    "str ''Discussion about Natively product features.'' \<noteq> []"
    by (simp_all add: fullContext_def demoContext_def)
  have k: "mc_keyPoints fullContext = Some demoKeyPoints" "demoKeyPoints \<noteq> []"
    by (simp_all add: fullContext_def demoContext_def demoKeyPoints_def)
  have i: "mc_actionItems fullContext = Some demoActionItems" "demoActionItems \<noteq> []"
    by (simp_all add: fullContext_def demoContext_def demoActionItems_def)
  have t: "mc_transcript fullContext = Some demoTranscript" "demoTranscript \<noteq> []"
    by (simp_all add: fullContext_def demoContext_def demoTranscript_def)
  have l: "length (drop (length demoTranscript - 20) demoTranscript) = 5"
    by (simp add: demoTranscript_def)
  note T1 = T[THEN conjunct2, THEN conjunct2, THEN conjunct2]
  have c1: "sublist
      (str ''SUMMARY:'' @ [0x0A] @ str ''Discussion about Natively product features.'')
      (buildContextString fullContext)"
    using T1[THEN conjunct1, THEN spec, THEN mp, OF conjI[OF s]] .
  have c2: "sublist
      (str ''KEY POINTS:'' @ concat (map (\<lambda>p. [0x0A] @ str ''- '' @ p) demoKeyPoints))
      (buildContextString fullContext)"
    using T1[THEN conjunct2, THEN conjunct1, THEN spec, THEN mp, OF conjI[OF k]] .
  have c3: "sublist
      (str ''ACTION ITEMS:'' @ concat (map (\<lambda>a. [0x0A] @ str ''- '' @ a) demoActionItems))
      (buildContextString fullContext)"
    using T1[THEN conjunct2, THEN conjunct2, THEN conjunct1, THEN spec, THEN mp,
        OF conjI[OF i]] .
  note T2 = T1[THEN conjunct2, THEN conjunct2, THEN conjunct2, THEN spec, THEN mp,
      OF conjI[OF t]]
  have "sublist
      (str ''['' @
         (if te_speaker \<lparr> te_speaker = str ''user'', te_text = str ''Yes, exactly.'',
                           te_timestamp = 20000 \<rparr> = str ''user''
          then str ''Me'' else str ''Them'') @
         str '']: '' @
         te_text \<lparr> te_speaker = str ''user'', te_text = str ''Yes, exactly.'',
                    te_timestamp = 20000 \<rparr>)
      (buildContextString fullContext)"
    using T2[THEN conjunct2, THEN conjunct2, THEN bspec, OF demoTranscript_last] .
  then have c4: "sublist (str ''[Me]: Yes, exactly.'') (buildContextString fullContext)"
    by (simp add: str_def)
  have c5: "buildContextString plainContext =
     str ''MEETING: Demo'' @ [0x0A, 0x0A] @ str ''SUMMARY:'' @ [0x0A] @ str ''foo''"
    using P[THEN conjunct1] by (simp add: plainContext_def str_def)
  from s c1 k c2 i c3 t l demoTranscript_last c4 c5 show ?thesis by (intro conjI)
qed

text \<open>The claim as stated fails in its "only when": a context without a summary whose
  title holds the text of a summary section yields a string with that section, the
  same string as the context that has the summary.\<close>

theorem buildContextString_counterexample:
  "mc_summary embedContext = None \<and>
   sublist (str ''SUMMARY:'' @ [0x0A] @ str ''foo'') (buildContextString embedContext) \<and>
   buildContextString embedContext = buildContextString plainContext"
proof -
  have a: "mc_summary embedContext = None" by (simp add: embedContext_def)
  have e: "buildContextString embedContext =
      str ''MEETING: Demo'' @ [0x0A, 0x0A] @ str ''SUMMARY:'' @ [0x0A] @ str ''foo''"
    by (simp add: buildContextString_closed embedContext_def nl_def str_def)
  have p: "buildContextString plainContext =
      str ''MEETING: Demo'' @ [0x0A, 0x0A] @ str ''SUMMARY:'' @ [0x0A] @ str ''foo''"
    by (simp add: buildContextString_closed plainContext_def str_def)
  have "sublist (str ''SUMMARY:'' @ [0x0A] @ str ''foo'')
      ((str ''MEETING: Demo'' @ [0x0A, 0x0A]) @ (str ''SUMMARY:'' @ [0x0A] @ str ''foo''))"
    by (rule sublist_append_leftI)
  then have b: "sublist (str ''SUMMARY:'' @ [0x0A] @ str ''foo'')
      (buildContextString embedContext)"
    unfolding e by simp
  from a b e p show ?thesis by simp
qed

subsection \<open>saveMeeting\<close>

lemma runEach_append:
  "runEach fault (xs @ ys) db =
     (case runEach fault xs db of Inl e \<Rightarrow> Inl e | Inr db' \<Rightarrow> runEach fault ys db')"
  by (induction xs arbitrary: db) (auto split: sum.splits)

lemma runEach_fault:
  "\<exists>s \<in> set stmts. fault s \<Longrightarrow> \<exists>e. runEach fault stmts db = Inl e"
proof (induction stmts arbitrary: db)
  case Nil
  then show ?case by simp
next
  case (Cons s stmts)
  show ?case
  proof (cases "run fault s db")
    case (Inl e)
    then show ?thesis by simp
  next
    case (Inr p)
    then have "\<not> fault s" by (auto simp: run_def split: if_splits)
    then have "\<exists>s \<in> set stmts. fault s" using Cons.prems by auto
    then show ?thesis using Cons.IH Inr by (cases p) auto
  qed
qed

lemma transcripts_batch:
  "meetingExists db (m_id meeting) \<Longrightarrow>
   \<forall>s \<in> set segs. \<not> fault (transcriptStatement meeting s) \<Longrightarrow>
   \<exists>db'. runEach fault (map (transcriptStatement meeting) segs) db = Inr db' \<and>
         meetings db' = meetings db \<and> ai_interactions db' = ai_interactions db \<and>
         chunks db' = chunks db \<and> chunk_summaries db' = chunk_summaries db \<and>
         embedding_queue db' = embedding_queue db \<and>
         filter (\<lambda>r. tr_meeting_id r \<noteq> m_id meeting) (transcripts db') =
           filter (\<lambda>r. tr_meeting_id r \<noteq> m_id meeting) (transcripts db) \<and>
         storedTranscript db' (m_id meeting) = storedTranscript db (m_id meeting) @ segs"
proof (induction segs arbitrary: db)
  case Nil
  then show ?case by simp
next
  case (Cons seg segs)
  let ?db1 = "db\<lparr> transcripts := transcripts db @
                   [\<lparr> tr_id = Suc (seq_transcripts db), tr_meeting_id = m_id meeting,
                      tr_speaker = te_speaker seg,
                      tr_content = te_text seg, tr_timestamp_ms = te_timestamp seg \<rparr>],
                 seq_transcripts := Suc (seq_transcripts db) \<rparr>"
  have r: "run fault (transcriptStatement meeting seg) db = Inr (?db1, 1)"
    using Cons.prems by (simp add: run_def transcriptStatement_def)
  have e: "meetingExists ?db1 (m_id meeting)"
    using Cons.prems(1) by (simp add: meetingExists_def)
  have f: "\<forall>s \<in> set segs. \<not> fault (transcriptStatement meeting s)"
    using Cons.prems(2) by simp
  from Cons.IH[OF e f] obtain db' where
    d: "runEach fault (map (transcriptStatement meeting) segs) ?db1 = Inr db'"
      "meetings db' = meetings ?db1" "ai_interactions db' = ai_interactions ?db1"
      "chunks db' = chunks ?db1" "chunk_summaries db' = chunk_summaries ?db1"
      "embedding_queue db' = embedding_queue ?db1"
      "filter (\<lambda>r. tr_meeting_id r \<noteq> m_id meeting) (transcripts db') =
           filter (\<lambda>r. tr_meeting_id r \<noteq> m_id meeting) (transcripts ?db1)"
      "storedTranscript db' (m_id meeting) = storedTranscript ?db1 (m_id meeting) @ segs"
    by blast
  have s1: "storedTranscript ?db1 (m_id meeting) = storedTranscript db (m_id meeting) @ [seg]"
    by (simp add: storedTranscript_def)
  show ?case
    using r d s1 by (intro exI[of _ db']) simp
qed

lemma interactions_batch:
  "meetingExists db (m_id meeting) \<Longrightarrow>
   \<forall>s \<in> set us. \<not> fault (interactionStatement meeting s) \<Longrightarrow>
   \<exists>db'. runEach fault (map (interactionStatement meeting) us) db = Inr db' \<and>
         meetings db' = meetings db \<and> transcripts db' = transcripts db \<and>
         chunks db' = chunks db \<and> chunk_summaries db' = chunk_summaries db \<and>
         embedding_queue db' = embedding_queue db \<and>
         filter (\<lambda>r. ai_meeting_id r \<noteq> m_id meeting) (ai_interactions db') =
           filter (\<lambda>r. ai_meeting_id r \<noteq> m_id meeting) (ai_interactions db) \<and>
         storedInteractions db' (m_id meeting) =
           storedInteractions db (m_id meeting) @ map interactionColumns us"
proof (induction us arbitrary: db)
  case Nil
  then show ?case by simp
next
  case (Cons u us)
  let ?db1 = "db\<lparr> ai_interactions := ai_interactions db @
                   [\<lparr> ai_id = Suc (seq_ai_interactions db), ai_meeting_id = m_id meeting,
                      ai_type = u_type u, ai_timestamp = u_timestamp u,
                      ai_user_query = orNull (u_question u),
                      ai_ai_response = usageAnswerText u,
                      ai_metadata_json = usageMetadata u \<rparr>],
                 seq_ai_interactions := Suc (seq_ai_interactions db) \<rparr>"
  have r: "run fault (interactionStatement meeting u) db = Inr (?db1, 1)"
    using Cons.prems by (simp add: run_def interactionStatement_def)
  have e: "meetingExists ?db1 (m_id meeting)"
    using Cons.prems(1) by (simp add: meetingExists_def)
  have f: "\<forall>s \<in> set us. \<not> fault (interactionStatement meeting s)"
    using Cons.prems(2) by simp
  from Cons.IH[OF e f] obtain db' where
    d: "runEach fault (map (interactionStatement meeting) us) ?db1 = Inr db'"
      "meetings db' = meetings ?db1" "transcripts db' = transcripts ?db1"
      "chunks db' = chunks ?db1" "chunk_summaries db' = chunk_summaries ?db1"
      "embedding_queue db' = embedding_queue ?db1"
      "filter (\<lambda>r. ai_meeting_id r \<noteq> m_id meeting) (ai_interactions db') =
           filter (\<lambda>r. ai_meeting_id r \<noteq> m_id meeting) (ai_interactions ?db1)"
      "storedInteractions db' (m_id meeting) =
         storedInteractions ?db1 (m_id meeting) @ map interactionColumns us"
    by blast
  have s1: "storedInteractions ?db1 (m_id meeting) =
      storedInteractions db (m_id meeting) @ [interactionColumns u]"
    by (simp add: storedInteractions_def interactionColumns_def)
  show ?case
    using r d s1 by (intro exI[of _ db']) simp
qed

lemma saveStatements_eq:
  "saveStatements meeting st dur =
     [InsertOrReplaceMeeting (meetingRow meeting st dur)] @
     map (transcriptStatement meeting) (segmentsOf meeting) @
     map (interactionStatement meeting) (usagesOf meeting)"
  by (simp add: saveStatements_def segmentsOf_def usagesOf_def split: option.splits)

lemma meetingRow_id: "r_id (meetingRow meeting st dur) = m_id meeting"
  by (simp add: meetingRow_def)

lemma saveMeeting_success:
  assumes nf: "\<forall>s \<in> set (saveStatements meeting st dur). \<not> fault s"
  shows "\<exists>db'. runEach fault (saveStatements meeting st dur) db = Inr db' \<and>
      meetings db' = meetings (cascadeDelete (m_id meeting) db) @ [meetingRow meeting st dur] \<and>
      storedTranscript db' (m_id meeting) =
        storedTranscript (cascadeDelete (m_id meeting) db) (m_id meeting) @ segmentsOf meeting \<and>
      storedInteractions db' (m_id meeting) =
        storedInteractions (cascadeDelete (m_id meeting) db) (m_id meeting) @
          map interactionColumns (usagesOf meeting) \<and>
      filter (\<lambda>r. tr_meeting_id r \<noteq> m_id meeting) (transcripts db') =
        filter (\<lambda>r. tr_meeting_id r \<noteq> m_id meeting)
          (transcripts (cascadeDelete (m_id meeting) db)) \<and>
      filter (\<lambda>r. ai_meeting_id r \<noteq> m_id meeting) (ai_interactions db') =
        filter (\<lambda>r. ai_meeting_id r \<noteq> m_id meeting)
          (ai_interactions (cascadeDelete (m_id meeting) db)) \<and>
      chunks db' = chunks (cascadeDelete (m_id meeting) db) \<and>
      chunk_summaries db' = chunk_summaries (cascadeDelete (m_id meeting) db) \<and>
      embedding_queue db' = embedding_queue db"
proof -
  let ?m = "m_id meeting"
  let ?row = "meetingRow meeting st dur"
  let ?c = "cascadeDelete ?m db"
  let ?db1 = "?c\<lparr> meetings := meetings ?c @ [?row] \<rparr>"
  have f0: "\<not> fault (InsertOrReplaceMeeting ?row)"
    and f1: "\<forall>s \<in> set (segmentsOf meeting). \<not> fault (transcriptStatement meeting s)"
    and f2: "\<forall>s \<in> set (usagesOf meeting). \<not> fault (interactionStatement meeting s)"
    using nf by (auto simp: saveStatements_eq)
  have r0: "run fault (InsertOrReplaceMeeting ?row) db = Inr (?db1, 1)"
    using f0 by (simp add: run_def meetingRow_id Let_def)
  have e1: "meetingExists ?db1 ?m"
    by (simp add: meetingExists_def meetingRow_id)
  have q: "embedding_queue ?c = embedding_queue db"
    by (simp add: cascadeDelete_def)
  from transcripts_batch[OF e1 f1] obtain db2 where
    d2: "runEach fault (map (transcriptStatement meeting) (segmentsOf meeting)) ?db1 = Inr db2"
      "meetings db2 = meetings ?db1" "ai_interactions db2 = ai_interactions ?db1"
      "chunks db2 = chunks ?db1" "chunk_summaries db2 = chunk_summaries ?db1"
      "embedding_queue db2 = embedding_queue ?db1"
      "filter (\<lambda>r. tr_meeting_id r \<noteq> ?m) (transcripts db2) =
         filter (\<lambda>r. tr_meeting_id r \<noteq> ?m) (transcripts ?db1)"
      "storedTranscript db2 ?m = storedTranscript ?db1 ?m @ segmentsOf meeting"
    by blast
  have e2: "meetingExists db2 ?m"
    using e1 d2(2) by (simp add: meetingExists_def)
  from interactions_batch[OF e2 f2] obtain db3 where
    d3: "runEach fault (map (interactionStatement meeting) (usagesOf meeting)) db2 = Inr db3"
      "meetings db3 = meetings db2" "transcripts db3 = transcripts db2"
      "chunks db3 = chunks db2" "chunk_summaries db3 = chunk_summaries db2"
      "embedding_queue db3 = embedding_queue db2"
      "filter (\<lambda>r. ai_meeting_id r \<noteq> ?m) (ai_interactions db3) =
         filter (\<lambda>r. ai_meeting_id r \<noteq> ?m) (ai_interactions db2)"
      "storedInteractions db3 ?m = storedInteractions db2 ?m @
         map interactionColumns (usagesOf meeting)"
    by blast
  have run: "runEach fault (saveStatements meeting st dur) db = Inr db3"
    using r0 d2(1) d3(1) by (simp add: saveStatements_eq runEach_append)
  have a: "meetings db3 = meetings ?c @ [?row]"
    using d3(2) d2(2) by simp
  have b: "storedTranscript db3 ?m = storedTranscript ?c ?m @ segmentsOf meeting"
    using d3(3) d2(8) by (simp add: storedTranscript_def)
  have c: "storedInteractions db3 ?m =
      storedInteractions ?c ?m @ map interactionColumns (usagesOf meeting)"
    using d3(8) d2(3) by (simp add: storedInteractions_def)
  have d: "filter (\<lambda>r. tr_meeting_id r \<noteq> ?m) (transcripts db3) =
        filter (\<lambda>r. tr_meeting_id r \<noteq> ?m) (transcripts ?c)"
    using d3(3) d2(7) by simp
  have e: "filter (\<lambda>r. ai_meeting_id r \<noteq> ?m) (ai_interactions db3) =
        filter (\<lambda>r. ai_meeting_id r \<noteq> ?m) (ai_interactions ?c)"
    using d3(7) d2(3) by simp
  have f: "chunks db3 = chunks ?c"
    using d3(4) d2(4) by simp
  have g: "chunk_summaries db3 = chunk_summaries ?c"
    using d3(5) d2(5) by simp
  have h: "embedding_queue db3 = embedding_queue db"
    using d3(6) d2(6) q by simp
  from run a b c d e f g h show ?thesis by blast
qed

lemma saveMeeting_unfold:
  "saveMeeting fault (Some db) meeting st dur =
     (case runEach fault (saveStatements meeting st dur) db of
        Inl e \<Rightarrow> (Some db, Inl e)
      | Inr db' \<Rightarrow> (Some db', Inr ()))"
  by (simp add: saveMeeting_def transaction_def split: sum.splits)

text \<open>
  Claim C8. \<open>saveMeeting\<close> is atomic: the meeting row, the transcript rows and the
  interaction rows are written by one transaction. When it throws, the database is the
  one before the call; it throws whenever one of its statements fails; and when none
  fails it returns normally with the meeting row stored and the transcript and
  interaction rows appended to what the replacement of the meeting row left.
\<close>

theorem saveMeeting_atomic:
  assumes "saveMeeting fault (Some db) meeting st dur = (this_db', res)"
  shows "(\<forall>e. res = Inl e \<longrightarrow> this_db' = Some db) \<and>
     ((\<exists>s \<in> set (saveStatements meeting st dur). fault s) \<longrightarrow>
        (\<exists>e. res = Inl e) \<and> this_db' = Some db) \<and>
     ((\<forall>s \<in> set (saveStatements meeting st dur). \<not> fault s) \<longrightarrow>
        res = Inr () \<and>
        (\<exists>db'. this_db' = Some db' \<and>
           runEach fault (saveStatements meeting st dur) db = Inr db' \<and>
           meetingRow meeting st dur \<in> set (meetings db') \<and>
           storedTranscript db' (m_id meeting) =
             storedTranscript (cascadeDelete (m_id meeting) db) (m_id meeting) @
               segmentsOf meeting \<and>
           storedInteractions db' (m_id meeting) =
             storedInteractions (cascadeDelete (m_id meeting) db) (m_id meeting) @
               map interactionColumns (usagesOf meeting)))"
proof -
  have 1: "\<forall>e. res = Inl e \<longrightarrow> this_db' = Some db"
    using assms by (auto simp: saveMeeting_unfold split: sum.splits)
  have 2: "(\<exists>s \<in> set (saveStatements meeting st dur). fault s) \<longrightarrow>
        (\<exists>e. res = Inl e) \<and> this_db' = Some db"
  proof
    assume "\<exists>s \<in> set (saveStatements meeting st dur). fault s"
    then obtain e where "runEach fault (saveStatements meeting st dur) db = Inl e"
      using runEach_fault by blast
    then show "(\<exists>e. res = Inl e) \<and> this_db' = Some db"
      using assms by (auto simp: saveMeeting_unfold)
  qed
  have 3: "(\<forall>s \<in> set (saveStatements meeting st dur). \<not> fault s) \<longrightarrow>
        res = Inr () \<and>
        (\<exists>db'. this_db' = Some db' \<and>
           runEach fault (saveStatements meeting st dur) db = Inr db' \<and>
           meetingRow meeting st dur \<in> set (meetings db') \<and>
           storedTranscript db' (m_id meeting) =
             storedTranscript (cascadeDelete (m_id meeting) db) (m_id meeting) @
               segmentsOf meeting \<and>
           storedInteractions db' (m_id meeting) =
             storedInteractions (cascadeDelete (m_id meeting) db) (m_id meeting) @
               map interactionColumns (usagesOf meeting))"
  proof
    assume nf: "\<forall>s \<in> set (saveStatements meeting st dur). \<not> fault s"
    from saveMeeting_success[OF nf, of db] obtain db' where
      d: "runEach fault (saveStatements meeting st dur) db = Inr db'"
        "meetings db' =
          meetings (cascadeDelete (m_id meeting) db) @ [meetingRow meeting st dur]"
        "storedTranscript db' (m_id meeting) =
           storedTranscript (cascadeDelete (m_id meeting) db) (m_id meeting) @
             segmentsOf meeting"
        "storedInteractions db' (m_id meeting) =
           storedInteractions (cascadeDelete (m_id meeting) db) (m_id meeting) @
             map interactionColumns (usagesOf meeting)"
      by blast
    have "this_db' = Some db'" "res = Inr ()"
      using assms d(1) by (simp_all add: saveMeeting_unfold)
    then show "res = Inr () \<and>
        (\<exists>db'. this_db' = Some db' \<and>
           runEach fault (saveStatements meeting st dur) db = Inr db' \<and>
           meetingRow meeting st dur \<in> set (meetings db') \<and>
           storedTranscript db' (m_id meeting) =
             storedTranscript (cascadeDelete (m_id meeting) db) (m_id meeting) @
               segmentsOf meeting \<and>
           storedInteractions db' (m_id meeting) =
             storedInteractions (cascadeDelete (m_id meeting) db) (m_id meeting) @
               map interactionColumns (usagesOf meeting))"
      using d by simp
  qed
  from 1 2 3 show ?thesis by blast
qed

text \<open>The demo meeting saved into an empty database: without a fault, and with failing
  inserts into \<open>ai_interactions\<close>.\<close>

theorem saveMeeting_atomic_witness:
  "list_all (\<lambda>s. \<not> noFault s) (saveStatements demoMeeting 0 288000) \<and>
   snd (saveMeeting noFault (Some emptyDatabase) demoMeeting 0 288000) = Inr () \<and>
   storedTranscript (the (fst (saveMeeting noFault (Some emptyDatabase) demoMeeting 0 288000)))
     (m_id demoMeeting) = demoTranscript \<and>
   (\<exists>s \<in> set (saveStatements demoMeeting 0 288000). interactionFault s) \<and>
   (\<exists>e. snd (saveMeeting interactionFault (Some emptyDatabase) demoMeeting 0 288000) = Inl e) \<and>
   fst (saveMeeting interactionFault (Some emptyDatabase) demoMeeting 0 288000) =
     Some emptyDatabase"
proof -
  note A = saveMeeting_atomic[OF surjective_pairing, of noFault emptyDatabase demoMeeting 0 288000]
  note B = saveMeeting_atomic[OF surjective_pairing,
      of interactionFault emptyDatabase demoMeeting 0 288000]
  have a: "\<forall>s \<in> set (saveStatements demoMeeting 0 288000). \<not> noFault s"
    by (simp add: noFault_def)
  have b: "\<exists>s \<in> set (saveStatements demoMeeting 0 288000). interactionFault s"
    by (simp add: saveStatements_def demoMeeting_def interactionStatement_def
        interactionFault_def)
  have s: "segmentsOf demoMeeting = demoTranscript"
    by (simp add: segmentsOf_def demoMeeting_def)
  from A a have a1: "snd (saveMeeting noFault (Some emptyDatabase) demoMeeting 0 288000) = Inr ()"
    by blast
  have c: "storedTranscript (cascadeDelete (m_id demoMeeting) emptyDatabase)
      (m_id demoMeeting) = []"
    by (simp add: cascadeDelete_def meetingExists_def emptyDatabase_def storedTranscript_def)
  from A a s c have a2:
    "storedTranscript (the (fst (saveMeeting noFault (Some emptyDatabase) demoMeeting 0 288000)))
       (m_id demoMeeting) = demoTranscript"
    by auto
  from B b have b1:
    "\<exists>e. snd (saveMeeting interactionFault (Some emptyDatabase) demoMeeting 0 288000) = Inl e"
    by blast
  from B b have b2:
    "fst (saveMeeting interactionFault (Some emptyDatabase) demoMeeting 0 288000) =
       Some emptyDatabase"
    by blast
  have a0: "list_all (\<lambda>s. \<not> noFault s) (saveStatements demoMeeting 0 288000)"
    using a by (simp add: list_all_iff)
  from a0 a1 a2 b b1 b2 show ?thesis by (intro conjI)
qed

subsection \<open>updateMeetingSummary\<close>

lemma select_find:
  "selectSummaryJson False db i = Inr (map_option r_summary_json (findMeeting db i))"
proof -
  have "\<And>xs. (case filter (\<lambda>r. r_id r = i) xs of [] \<Rightarrow> None | r # _ \<Rightarrow> Some (r_summary_json r))
      = map_option r_summary_json (find (\<lambda>r. r_id r = i) xs)"
    subgoal for xs by (induction xs) auto
    done
  then show ?thesis by (simp add: selectSummaryJson_def findMeeting_def)
qed

lemma select_fault: "selectSummaryJson True db i = Inl SQLITE_IOERR"
  by (simp add: selectSummaryJson_def)

lemma find_map_update:
  "find (\<lambda>r. r_id r = j) (map (\<lambda>r. if r_id r = i then r\<lparr> r_summary_json := x \<rparr> else r) xs) =
     map_option (\<lambda>r. if r_id r = i then r\<lparr> r_summary_json := x \<rparr> else r)
       (find (\<lambda>r. r_id r = j) xs)"
  by (induction xs) auto

lemma find_Some_count:
  "find (\<lambda>r. r_id r = i) xs = Some r \<Longrightarrow> filter (\<lambda>r. r_id r = i) xs \<noteq> []"
  by (induction xs) (auto split: if_splits)

lemma find_Some_id: "find (\<lambda>r. r_id r = i) xs = Some r \<Longrightarrow> r_id r = i"
  by (induction xs) (auto split: if_splits)

lemma updateMeetingSummary_missing:
  "findMeeting db i = None \<Longrightarrow>
   updateMeetingSummary selectFault fault (Some db) i updates = (Some db, False)"
  by (cases selectFault) (simp_all add: updateMeetingSummary_def select_find select_fault)

lemma updateMeetingSummary_found:
  assumes "findMeeting db i = Some r"
  shows "updateMeetingSummary False fault (Some db) i updates =
     (case parseSummaryJson (r_summary_json r) of
        None \<Rightarrow> (Some db, False)
      | Some old \<Rightarrow>
          (if fault (UpdateSummaryJson (Doc (old\<lparr> detailedSummary :=
                      Some (spreadUpdates (currentDetailedOf old) updates) \<rparr>)) i)
           then (Some db, False)
           else (Some (db\<lparr> meetings :=
                   map (\<lambda>r. if r_id r = i
                          then r\<lparr> r_summary_json := Some (Doc (old\<lparr> detailedSummary :=
                                 Some (spreadUpdates (currentDetailedOf old) updates) \<rparr>)) \<rparr>
                          else r) (meetings db) \<rparr>), True)))"
proof -
  have c: "filter (\<lambda>r. r_id r = i) (meetings db) \<noteq> []"
    using assms by (simp add: findMeeting_def find_Some_count)
  show ?thesis
  proof (cases "parseSummaryJson (r_summary_json r)")
    case None
    then show ?thesis
      using assms by (simp add: updateMeetingSummary_def select_find)
  next
    case (Some old)
    then show ?thesis
      using assms c
      by (simp add: updateMeetingSummary_def select_find run_def Let_def currentDetailedOf_def)
  qed
qed

lemma updateMeetingSummary_false:
  assumes "updateMeetingSummary selectFault fault (Some db) i updates = (this_db', False)"
  shows "this_db' = Some db"
proof (cases selectFault)
  case True
  then show ?thesis using assms by (simp add: updateMeetingSummary_def select_fault)
next
  case False
  show ?thesis
  proof (cases "findMeeting db i")
    case None
    then show ?thesis using assms updateMeetingSummary_missing by simp
  next
    case (Some r)
    show ?thesis
      using assms False updateMeetingSummary_found[OF Some, of fault updates]
      by (cases "parseSummaryJson (r_summary_json r)") (simp_all split: if_splits)
  qed
qed

lemma updateMeetingSummary_true:
  assumes "updateMeetingSummary selectFault fault (Some db) i updates = (this_db', True)"
  shows "\<exists>r old. findMeeting db i = Some r \<and> parseSummaryJson (r_summary_json r) = Some old \<and>
     this_db' = Some (db\<lparr> meetings :=
        map (\<lambda>r. if r_id r = i
               then r\<lparr> r_summary_json := Some (Doc (old\<lparr> detailedSummary :=
                      Some (spreadUpdates (currentDetailedOf old) updates) \<rparr>)) \<rparr>
               else r) (meetings db) \<rparr>)"
proof (cases selectFault)
  case True
  then show ?thesis using assms by (simp add: updateMeetingSummary_def select_fault)
next
  case False
  show ?thesis
  proof (cases "findMeeting db i")
    case None
    then show ?thesis using assms updateMeetingSummary_missing by simp
  next
    case (Some r)
    show ?thesis
    proof (cases "parseSummaryJson (r_summary_json r)")
      case None
      then show ?thesis
        using assms False updateMeetingSummary_found[OF Some, of fault updates] by simp
    next
      case old: (Some old)
      have "this_db' = Some (db\<lparr> meetings :=
        map (\<lambda>r. if r_id r = i
               then r\<lparr> r_summary_json := Some (Doc (old\<lparr> detailedSummary :=
                      Some (spreadUpdates (currentDetailedOf old) updates) \<rparr>)) \<rparr>
               else r) (meetings db) \<rparr>)"
        using assms False old updateMeetingSummary_found[OF Some, of fault updates]
        by (simp split: if_splits)
      then show ?thesis using Some old by blast
    qed
  qed
qed

lemma map_id_update:
  "map r_id (map (\<lambda>r. if r_id r = i then r\<lparr> r_summary_json := x \<rparr> else r) xs) = map r_id xs"
  by (induction xs) auto

lemma spreadUpdates_keys:
  "(updates k = None \<longrightarrow> spreadUpdates cur updates k = cur k) \<and>
   (\<forall>v. updates k = Some v \<longrightarrow> spreadUpdates cur updates k = v)"
  by (simp add: spreadUpdates_def)

lemma find_updated_same:
  "find (\<lambda>r. r_id r = i) xs = Some r \<Longrightarrow>
   find (\<lambda>r. r_id r = i) (map (\<lambda>r. if r_id r = i then r\<lparr> r_summary_json := x \<rparr> else r) xs) =
     Some (r\<lparr> r_summary_json := x \<rparr>)"
  by (induction xs) (auto split: if_splits)

lemma find_updated_other:
  "j \<noteq> i \<Longrightarrow>
   find (\<lambda>r. r_id r = j) (map (\<lambda>r. if r_id r = i then r\<lparr> r_summary_json := x \<rparr> else r) xs) =
     find (\<lambda>r. r_id r = j) xs"
  by (induction xs) auto

text \<open>
  Claim C9. \<open>updateMeetingSummary\<close> returns false when no meeting has the id, and
  whenever it returns false the database is unchanged. When it returns true, the row of
  the id keeps every column but \<open>summary_json\<close>; the new document keeps
  \<open>legacySummary\<close>; in its \<open>detailedSummary\<close> each key of \<open>updates\<close> has the value given
  and every other key has its former value; the rows of other ids and the other tables
  are unchanged.
\<close>

theorem updateMeetingSummary_frame:
  assumes "updateMeetingSummary selectFault fault (Some db) i updates = (this_db', ok)"
  shows "(findMeeting db i = None \<longrightarrow> \<not> ok) \<and>
    (\<not> ok \<longrightarrow> this_db' = Some db) \<and>
    (ok \<longrightarrow>
      (\<exists>db' r old new nd.
         this_db' = Some db' \<and> findMeeting db i = Some r \<and>
         parseSummaryJson (r_summary_json r) = Some old \<and>
         findMeeting db' i = Some (r\<lparr> r_summary_json := Some (Doc new) \<rparr>) \<and>
         legacySummary new = legacySummary old \<and> detailedSummary new = Some nd \<and>
         (\<forall>k. updates k = None \<longrightarrow> nd k = currentDetailedOf old k) \<and>
         (\<forall>k v. updates k = Some v \<longrightarrow> nd k = v) \<and>
         (\<forall>j. j \<noteq> i \<longrightarrow> findMeeting db' j = findMeeting db j) \<and>
         map r_id (meetings db') = map r_id (meetings db) \<and>
         transcripts db' = transcripts db \<and> ai_interactions db' = ai_interactions db \<and>
         chunks db' = chunks db \<and> chunk_summaries db' = chunk_summaries db \<and>
         embedding_queue db' = embedding_queue db))"
proof -
  have 1: "findMeeting db i = None \<longrightarrow> \<not> ok"
    using assms updateMeetingSummary_missing[of db i selectFault fault updates] by simp
  have 2: "\<not> ok \<longrightarrow> this_db' = Some db"
    using assms updateMeetingSummary_false[of selectFault fault db i updates this_db'] by simp
  have 3: "ok \<longrightarrow>
      (\<exists>db' r old new nd.
         this_db' = Some db' \<and> findMeeting db i = Some r \<and>
         parseSummaryJson (r_summary_json r) = Some old \<and>
         findMeeting db' i = Some (r\<lparr> r_summary_json := Some (Doc new) \<rparr>) \<and>
         legacySummary new = legacySummary old \<and> detailedSummary new = Some nd \<and>
         (\<forall>k. updates k = None \<longrightarrow> nd k = currentDetailedOf old k) \<and>
         (\<forall>k v. updates k = Some v \<longrightarrow> nd k = v) \<and>
         (\<forall>j. j \<noteq> i \<longrightarrow> findMeeting db' j = findMeeting db j) \<and>
         map r_id (meetings db') = map r_id (meetings db) \<and>
         transcripts db' = transcripts db \<and> ai_interactions db' = ai_interactions db \<and>
         chunks db' = chunks db \<and> chunk_summaries db' = chunk_summaries db \<and>
         embedding_queue db' = embedding_queue db)"
  proof
    assume ok
    with assms have t: "updateMeetingSummary selectFault fault (Some db) i updates =
        (this_db', True)" by simp
    define nd where "nd = (\<lambda>old. spreadUpdates (currentDetailedOf old) updates)"
    define new where "new = (\<lambda>old. old\<lparr> detailedSummary := Some (nd old) \<rparr>)"
    define upd where "upd = (\<lambda>old. map (\<lambda>r. if r_id r = i
               then r\<lparr> r_summary_json := Some (Doc (new old)) \<rparr> else r) (meetings db))"
    from updateMeetingSummary_true[OF t] obtain r old where
      r: "findMeeting db i = Some r" "parseSummaryJson (r_summary_json r) = Some old"
      and d: "this_db' = Some (db\<lparr> meetings := upd old \<rparr>)"
      unfolding upd_def new_def nd_def by blast
    have f: "findMeeting (db\<lparr> meetings := upd old \<rparr>) i =
        Some (r\<lparr> r_summary_json := Some (Doc (new old)) \<rparr>)"
      using r(1) by (simp add: findMeeting_def upd_def find_updated_same)
    have g: "\<forall>j. j \<noteq> i \<longrightarrow>
        findMeeting (db\<lparr> meetings := upd old \<rparr>) j = findMeeting db j"
      by (simp add: findMeeting_def upd_def find_updated_other)
    have h: "map r_id (meetings (db\<lparr> meetings := upd old \<rparr>)) = map r_id (meetings db)"
      by (simp add: upd_def map_id_update)
    have k1: "\<forall>k. updates k = None \<longrightarrow> nd old k = currentDetailedOf old k"
      by (simp add: nd_def spreadUpdates_def)
    have k2: "\<forall>k v. updates k = Some v \<longrightarrow> nd old k = v"
      by (simp add: nd_def spreadUpdates_def)
    have l: "legacySummary (new old) = legacySummary old"
      "detailedSummary (new old) = Some (nd old)"
      by (simp_all add: new_def)
    have m: "transcripts (db\<lparr> meetings := upd old \<rparr>) = transcripts db"
      "ai_interactions (db\<lparr> meetings := upd old \<rparr>) = ai_interactions db"
      "chunks (db\<lparr> meetings := upd old \<rparr>) = chunks db"
      "chunk_summaries (db\<lparr> meetings := upd old \<rparr>) = chunk_summaries db"
      "embedding_queue (db\<lparr> meetings := upd old \<rparr>) = embedding_queue db"
      by simp_all
    show "\<exists>db' r old new nd.
         this_db' = Some db' \<and> findMeeting db i = Some r \<and>
         parseSummaryJson (r_summary_json r) = Some old \<and>
         findMeeting db' i = Some (r\<lparr> r_summary_json := Some (Doc new) \<rparr>) \<and>
         legacySummary new = legacySummary old \<and> detailedSummary new = Some nd \<and>
         (\<forall>k. updates k = None \<longrightarrow> nd k = currentDetailedOf old k) \<and>
         (\<forall>k v. updates k = Some v \<longrightarrow> nd k = v) \<and>
         (\<forall>j. j \<noteq> i \<longrightarrow> findMeeting db' j = findMeeting db j) \<and>
         map r_id (meetings db') = map r_id (meetings db) \<and>
         transcripts db' = transcripts db \<and> ai_interactions db' = ai_interactions db \<and>
         chunks db' = chunks db \<and> chunk_summaries db' = chunk_summaries db \<and>
         embedding_queue db' = embedding_queue db"
      apply (rule exI[of _ "db\<lparr> meetings := upd old \<rparr>"])
      apply (rule exI[of _ r])
      apply (rule exI[of _ old])
      apply (rule exI[of _ "new old"])
      apply (rule exI[of _ "nd old"])
      apply (intro conjI)
      apply (rule d r f l k1 k2 g h m)+
      done
  qed
  from 1 2 3 show ?thesis by (intro conjI)
qed

lemma demo_find:
  "findMeeting demoDatabase (str ''demo-meeting-002'') = Some (meetingRow demoMeeting 0 288000)"
  by (simp add: findMeeting_def demoDatabase_def emptyDatabase_def meetingRow_def demoMeeting_def)

lemma demo_find_missing: "findMeeting demoDatabase (str ''missing'') = None"
  by (simp add: findMeeting_def demoDatabase_def emptyDatabase_def meetingRow_def demoMeeting_def
      otherRow_def)

text \<open>The statement at the demo database: an update of \<open>overview\<close> for the demo
  meeting, and for an id that no meeting has.\<close>

theorem updateMeetingSummary_frame_witness:
  "snd (updateMeetingSummary False noFault (Some demoDatabase) (str ''demo-meeting-002'')
          overviewUpdate) \<and>
   (\<exists>db' r old new nd.
      fst (updateMeetingSummary False noFault (Some demoDatabase) (str ''demo-meeting-002'')
             overviewUpdate) = Some db' \<and>
      findMeeting demoDatabase (str ''demo-meeting-002'') = Some r \<and>
      parseSummaryJson (r_summary_json r) = Some old \<and>
      findMeeting db' (str ''demo-meeting-002'') = Some (r\<lparr> r_summary_json := Some (Doc new) \<rparr>) \<and>
      legacySummary new = legacySummary old \<and> detailedSummary new = Some nd \<and>
      nd (str ''overview'') = Some (JString (str ''A short demo.'')) \<and>
      nd (str ''keyPoints'') = currentDetailedOf old (str ''keyPoints'') \<and>
      chunks db' = chunks demoDatabase) \<and>
   findMeeting demoDatabase (str ''missing'') = None \<and>
   \<not> snd (updateMeetingSummary False noFault (Some demoDatabase) (str ''missing'') overviewUpdate) \<and>
   fst (updateMeetingSummary False noFault (Some demoDatabase) (str ''missing'') overviewUpdate) =
     Some demoDatabase"
proof -
  note A = updateMeetingSummary_frame[where selectFault = False and fault = noFault
      and db = demoDatabase and i = "str ''demo-meeting-002''" and updates = overviewUpdate,
      OF surjective_pairing]
  note B = updateMeetingSummary_frame[where selectFault = False and fault = noFault
      and db = demoDatabase and i = "str ''missing''" and updates = overviewUpdate,
      OF surjective_pairing]
  have ok: "snd (updateMeetingSummary False noFault (Some demoDatabase) (str ''demo-meeting-002'')
          overviewUpdate)"
    by (simp add: updateMeetingSummary_found[OF demo_find] meetingRow_def summaryJson_def
        parseSummaryJson_def noFault_def)
  have u1: "overviewUpdate (str ''overview'') = Some (Some (JString (str ''A short demo.'')))"
    by (simp add: overviewUpdate_def)
  have u2: "overviewUpdate (str ''keyPoints'') = None"
    by (simp add: overviewUpdate_def)
  note E = A[THEN conjunct2, THEN conjunct2, THEN mp, OF ok]
  from E obtain db' r old new nd where
    d: "fst (updateMeetingSummary False noFault (Some demoDatabase) (str ''demo-meeting-002'')
             overviewUpdate) = Some db' \<and>
      findMeeting demoDatabase (str ''demo-meeting-002'') = Some r \<and>
      parseSummaryJson (r_summary_json r) = Some old \<and>
      findMeeting db' (str ''demo-meeting-002'') = Some (r\<lparr> r_summary_json := Some (Doc new) \<rparr>) \<and>
      legacySummary new = legacySummary old \<and> detailedSummary new = Some nd \<and>
      (\<forall>k. overviewUpdate k = None \<longrightarrow> nd k = currentDetailedOf old k) \<and>
      (\<forall>k v. overviewUpdate k = Some v \<longrightarrow> nd k = v) \<and>
      (\<forall>j. j \<noteq> str ''demo-meeting-002'' \<longrightarrow> findMeeting db' j = findMeeting demoDatabase j) \<and>
      map r_id (meetings db') = map r_id (meetings demoDatabase) \<and>
      transcripts db' = transcripts demoDatabase \<and>
      ai_interactions db' = ai_interactions demoDatabase \<and>
      chunks db' = chunks demoDatabase \<and> chunk_summaries db' = chunk_summaries demoDatabase \<and>
      embedding_queue db' = embedding_queue demoDatabase"
    by (elim exE) (rule that)
  have n1: "nd (str ''overview'') = Some (JString (str ''A short demo.''))" using d u1 by simp
  have n2: "nd (str ''keyPoints'') = currentDetailedOf old (str ''keyPoints'')" using d u2 by simp
  have c1: "\<exists>db' r old new nd.
      fst (updateMeetingSummary False noFault (Some demoDatabase) (str ''demo-meeting-002'')
             overviewUpdate) = Some db' \<and>
      findMeeting demoDatabase (str ''demo-meeting-002'') = Some r \<and>
      parseSummaryJson (r_summary_json r) = Some old \<and>
      findMeeting db' (str ''demo-meeting-002'') = Some (r\<lparr> r_summary_json := Some (Doc new) \<rparr>) \<and>
      legacySummary new = legacySummary old \<and> detailedSummary new = Some nd \<and>
      nd (str ''overview'') = Some (JString (str ''A short demo.'')) \<and>
      nd (str ''keyPoints'') = currentDetailedOf old (str ''keyPoints'') \<and>
      chunks db' = chunks demoDatabase"
    apply (rule exI[of _ db'], rule exI[of _ r], rule exI[of _ old], rule exI[of _ new],
        rule exI[of _ nd])
    using d n1 n2 by simp
  from B demo_find_missing have c2:
    "\<not> snd (updateMeetingSummary False noFault (Some demoDatabase) (str ''missing'')
       overviewUpdate)"
    by simp
  from B c2 have c3:
    "fst (updateMeetingSummary False noFault (Some demoDatabase) (str ''missing'') overviewUpdate) =
       Some demoDatabase"
    by simp
  from ok c1 demo_find_missing c2 c3 show ?thesis by (intro conjI)
qed

subsection \<open>Invariants of the store, deleteMeeting\<close>

lemma meetingExists_iff: "meetingExists db m \<longleftrightarrow> m \<in> r_id ` set (meetings db)"
  by (auto simp: meetingExists_def list_ex_iff)

lemma filter_absent: "m \<notin> f ` set xs \<Longrightarrow> filter (\<lambda>r. f r \<noteq> m) xs = xs"
  by (induction xs) auto

lemma cd_meetings:
  "meetings (cascadeDelete m db) = filter (\<lambda>r. r_id r \<noteq> m) (meetings db)"
  by (simp add: cascadeDelete_def meetingExists_iff filter_absent)

lemma cd_children:
  "transcripts (cascadeDelete m db) =
     (if meetingExists db m then filter (\<lambda>r. tr_meeting_id r \<noteq> m) (transcripts db)
      else transcripts db)"
  "ai_interactions (cascadeDelete m db) =
     (if meetingExists db m then filter (\<lambda>r. ai_meeting_id r \<noteq> m) (ai_interactions db)
      else ai_interactions db)"
  "chunks (cascadeDelete m db) =
     (if meetingExists db m then filter (\<lambda>r. c_meeting_id r \<noteq> m) (chunks db) else chunks db)"
  "chunk_summaries (cascadeDelete m db) =
     (if meetingExists db m then filter (\<lambda>r. cs_meeting_id r \<noteq> m) (chunk_summaries db)
      else chunk_summaries db)"
  "embedding_queue (cascadeDelete m db) = embedding_queue db"
  by (simp_all add: cascadeDelete_def)

lemma cd_exists:
  "meetingExists (cascadeDelete m db) x \<longleftrightarrow> x \<noteq> m \<and> meetingExists db x"
  by (auto simp: meetingExists_iff cd_meetings)

lemma cd_keysOk: "keysOk db \<Longrightarrow> keysOk (cascadeDelete m db)"
  by (simp add: keysOk_def cd_meetings cd_children distinct_map_filter)

lemma cd_fkOk: "fkOk db \<Longrightarrow> fkOk (cascadeDelete m db)"
  unfolding fkOk_def list_all_iff cd_children cd_exists
  by auto

lemma cd_fkOk_clean:
  "fkOk db \<Longrightarrow>
   transcripts (cascadeDelete m db) = filter (\<lambda>r. tr_meeting_id r \<noteq> m) (transcripts db) \<and>
   ai_interactions (cascadeDelete m db) =
     filter (\<lambda>r. ai_meeting_id r \<noteq> m) (ai_interactions db) \<and>
   chunks (cascadeDelete m db) = filter (\<lambda>r. c_meeting_id r \<noteq> m) (chunks db) \<and>
   chunk_summaries (cascadeDelete m db) =
     filter (\<lambda>r. cs_meeting_id r \<noteq> m) (chunk_summaries db)"
proof (cases "meetingExists db m")
  case True
  then show ?thesis by (simp add: cd_children)
next
  case False
  assume fk: "fkOk db"
  have "m \<notin> tr_meeting_id ` set (transcripts db)" "m \<notin> ai_meeting_id ` set (ai_interactions db)"
    "m \<notin> c_meeting_id ` set (chunks db)" "m \<notin> cs_meeting_id ` set (chunk_summaries db)"
    using fk False unfolding fkOk_def list_all_iff by auto
  then show ?thesis using False by (simp add: cd_children filter_absent)
qed

lemma map_key_title:
  "map (r_id \<circ> (\<lambda>r. if r_id r = m then r\<lparr> r_title := t \<rparr> else r)) xs = map r_id xs"
  by (induction xs) auto

lemma map_key_json:
  "map (r_id \<circ> (\<lambda>r. if r_id r = m then r\<lparr> r_summary_json := x \<rparr> else r)) xs = map r_id xs"
  by (induction xs) auto

lemma map_key_summary:
  "map (cs_meeting_id \<circ> (\<lambda>r. if cs_meeting_id r = m
          then r\<lparr> cs_summary_text := tx, cs_embedding := None \<rparr> else r)) xs =
     map cs_meeting_id xs"
  by (induction xs) auto

lemma map_key_embedding:
  "map (cs_meeting_id \<circ> (\<lambda>r. if cs_meeting_id r = m then r\<lparr> cs_embedding := e \<rparr> else r)) xs =
     map cs_meeting_id xs"
  by (induction xs) auto

lemma execute_keysOk:
  assumes "keysOk db" "execute stmt db = Inr (db', n)"
  shows "keysOk db'"
proof (cases stmt)
  case (InsertOrReplaceMeeting row)
  have "keysOk (cascadeDelete (r_id row) db)" using assms(1) by (rule cd_keysOk)
  moreover have "r_id row \<notin> r_id ` set (meetings (cascadeDelete (r_id row) db))"
    by (auto simp: cd_meetings)
  ultimately show ?thesis
    using assms(2) InsertOrReplaceMeeting by (auto simp: keysOk_def Let_def)
next
  case (DeleteMeeting m)
  then show ?thesis using assms cd_keysOk by auto
next
  case (InsertChunkSummary m tx now)
  then show ?thesis
    using assms by (auto simp: keysOk_def list_ex_iff split: if_splits)
next
  case (UpdateMeetingTitle t m)
  then show ?thesis using assms by (auto simp: keysOk_def map_key_title)
next
  case (UpdateSummaryJson js m)
  then show ?thesis using assms by (auto simp: keysOk_def map_key_json)
next
  case (UpdateChunkSummary tx m)
  then show ?thesis using assms by (auto simp: keysOk_def map_key_summary)
next
  case (SetSummaryEmbedding m e)
  then show ?thesis using assms by (auto simp: keysOk_def map_key_embedding)
qed (use assms in \<open>auto simp: keysOk_def split: if_splits\<close>)

lemma reachable_keysOk: "reachable db \<Longrightarrow> keysOk db"
proof (induction rule: reachable.induct)
  case init
  show ?case by (simp add: keysOk_def emptyDatabase_def)
next
  case (step db stmt db' n)
  then show ?case using execute_keysOk by blast
qed

lemma exists_after_update:
  "(\<And>r. r_id (f r) = r_id r) \<Longrightarrow>
   meetingExists (db\<lparr> meetings := map f (meetings db) \<rparr>) x = meetingExists db x"
  by (auto simp: meetingExists_def list_ex_iff)

lemma execute_fkOk:
  assumes "fkOk db" "execute stmt db = Inr (db', n)"
  shows "fkOk db'"
proof (cases stmt)
  case (InsertOrReplaceMeeting row)
  have "fkOk (cascadeDelete (r_id row) db)" using assms(1) by (rule cd_fkOk)
  then show ?thesis
    using assms(2) InsertOrReplaceMeeting
    by (auto simp: fkOk_def list_all_iff meetingExists_iff Let_def)
next
  case (DeleteMeeting m)
  then show ?thesis using assms cd_fkOk by auto
next
  case (UpdateMeetingTitle t m)
  then show ?thesis
    using assms by (auto simp: fkOk_def exists_after_update)
next
  case (UpdateSummaryJson js m)
  then show ?thesis
    using assms by (auto simp: fkOk_def exists_after_update)
qed (use assms in \<open>auto simp: fkOk_def list_all_iff meetingExists_iff split: if_splits\<close>)

lemma reachable_fkOk: "reachable db \<Longrightarrow> fkOk db"
proof (induction rule: reachable.induct)
  case init
  show ?case by (simp add: fkOk_def emptyDatabase_def)
next
  case (step db stmt db' n)
  then show ?case using execute_fkOk by blast
qed

lemma run_reachable: "reachable db \<Longrightarrow> run fault stmt db = Inr (db', n) \<Longrightarrow> reachable db'"
  by (auto simp: run_def split: if_splits intro: reachable.step)

lemma runEach_reachable:
  "reachable db \<Longrightarrow> runEach fault stmts db = Inr db' \<Longrightarrow> reachable db'"
proof (induction stmts arbitrary: db)
  case Nil
  then show ?case by simp
next
  case (Cons s stmts)
  from Cons.prems(2) obtain db1 n where
    r: "run fault s db = Inr (db1, n)" and rest: "runEach fault stmts db1 = Inr db'"
    by (auto split: sum.splits)
  show ?case using Cons.IH[OF run_reachable[OF Cons.prems(1) r] rest] .
qed

lemma runEach_Inr_nofault:
  "runEach fault stmts db = Inr db' \<Longrightarrow> \<forall>s \<in> set stmts. \<not> fault s"
  using runEach_fault[of stmts fault db] by auto

lemma save_chunks:
  "fst (saveMeeting fault (Some db) meeting st dur) = Some db2 \<Longrightarrow>
   chunks db2 = chunks db \<or> chunks db2 = chunks (cascadeDelete (m_id meeting) db)"
proof (cases "runEach fault (saveStatements meeting st dur) db")
  case (Inl e)
  assume "fst (saveMeeting fault (Some db) meeting st dur) = Some db2"
  then show ?thesis using Inl by (simp add: saveMeeting_unfold)
next
  case (Inr db')
  assume a: "fst (saveMeeting fault (Some db) meeting st dur) = Some db2"
  have nf: "\<forall>s \<in> set (saveStatements meeting st dur). \<not> fault s"
    using Inr by (rule runEach_Inr_nofault)
  from saveMeeting_success[OF nf, of db] Inr
  have "chunks db' = chunks (cascadeDelete (m_id meeting) db)" by auto
  then show ?thesis using a Inr by (simp add: saveMeeting_unfold)
qed

lemma title_chunks:
  "fst (updateMeetingTitle fault (Some db) i title) = Some db2 \<Longrightarrow> chunks db2 = chunks db"
  by (auto simp: updateMeetingTitle_def run_def split: if_splits)

lemma summary_result:
  "fst (updateMeetingSummary selectFault fault (Some db) i updates) = Some db \<or>
   (\<exists>rows. fst (updateMeetingSummary selectFault fault (Some db) i updates) =
      Some (db\<lparr> meetings := rows \<rparr>))"
proof (cases "snd (updateMeetingSummary selectFault fault (Some db) i updates)")
  case True
  then have e: "updateMeetingSummary selectFault fault (Some db) i updates =
      (fst (updateMeetingSummary selectFault fault (Some db) i updates), True)"
    by (simp add: prod_eq_iff)
  from updateMeetingSummary_true[OF e] show ?thesis
    by (elim exE conjE) (rule disjI2, rule exI, assumption)
next
  case False
  then have e: "updateMeetingSummary selectFault fault (Some db) i updates =
      (fst (updateMeetingSummary selectFault fault (Some db) i updates), False)"
    by (simp add: prod_eq_iff)
  from updateMeetingSummary_false[OF e] show ?thesis by simp
qed

lemma summary_chunks:
  assumes "fst (updateMeetingSummary selectFault fault (Some db) i updates) = Some db2"
  shows "chunks db2 = chunks db"
  using summary_result[of selectFault fault db i updates] assms by auto

lemma delete_unfold:
  "deleteMeeting fault (Some db) m =
     (if fault (DeleteMeeting m) then (Some db, False)
      else (Some (cascadeDelete m db), meetingExists db m))"
  by (simp add: deleteMeeting_def run_def meetingExists_def list_ex_iff filter_empty_conv)

lemma removed_by_cascade:
  "c \<in> set (chunks db) \<Longrightarrow> c \<notin> set (chunks (cascadeDelete m db)) \<Longrightarrow>
   meetingExists db m \<and> c_meeting_id c = m"
  by (auto simp: cd_children split: if_splits)

lemma apiCall_chunks:
  assumes "apiCall selectFault fault call (Some db) = Some db2" "c \<in> set (chunks db)"
    "c \<notin> set (chunks db2)"
  shows "meetingExists db (c_meeting_id c) \<and>
     (call = CallDeleteMeeting (c_meeting_id c) \<or>
      (\<exists>meeting st dur. call = CallSaveMeeting meeting st dur \<and> m_id meeting = c_meeting_id c))"
proof (cases call)
  case (CallSaveMeeting meeting st dur)
  then have "fst (saveMeeting fault (Some db) meeting st dur) = Some db2"
    using assms(1) by simp
  from save_chunks[OF this] assms(2,3)
  have "c \<notin> set (chunks (cascadeDelete (m_id meeting) db))" by auto
  from removed_by_cascade[OF assms(2) this] show ?thesis
    using CallSaveMeeting by simp
next
  case (CallUpdateMeetingTitle i title)
  then have "fst (updateMeetingTitle fault (Some db) i title) = Some db2"
    using assms(1) by simp
  from title_chunks[OF this] assms(2,3) show ?thesis by simp
next
  case (CallUpdateMeetingSummary i updates)
  then have "fst (updateMeetingSummary selectFault fault (Some db) i updates) = Some db2"
    using assms(1) by simp
  from summary_chunks[OF this] assms(2,3) show ?thesis by simp
next
  case (CallDeleteMeeting m)
  then have "c \<notin> set (chunks (cascadeDelete m db))"
    using assms by (simp add: delete_unfold split: if_splits)
  from removed_by_cascade[OF assms(2) this] show ?thesis
    using CallDeleteMeeting by simp
qed

lemma apiCall_total: "\<exists>db2. apiCall selectFault fault call (Some db) = Some db2"
proof (cases call)
  case (CallSaveMeeting meeting st dur)
  then show ?thesis by (simp add: saveMeeting_unfold split: sum.splits)
next
  case (CallUpdateMeetingTitle i title)
  then show ?thesis by (auto simp: updateMeetingTitle_def split: sum.splits)
next
  case (CallUpdateMeetingSummary i updates)
  then show ?thesis
    using summary_result[of selectFault fault db i updates] by auto
next
  case (CallDeleteMeeting m)
  then show ?thesis by (simp add: delete_unfold)
qed

text \<open>
  Claim C5, as amended. In a database with referential integrity, \<open>deleteMeeting m\<close>
  (when its statement does not fail) removes the meetings row \<open>m\<close> and every transcript,
  interaction, chunk and summary row of \<open>m\<close>, keeps every row of the other meetings, and
  returns whether the row existed. A call of a writing operation of \<open>DatabaseManager\<close>
  removes a chunk only when the meetings row of that chunk exists and the call is
  \<open>deleteMeeting\<close> for it or a \<open>saveMeeting\<close> of a meeting with that id, whose
  \<open>INSERT OR REPLACE\<close> deletes the old row.
\<close>

theorem deleteMeeting_cascade:
  assumes "fkOk db"
  shows "(\<not> fault (DeleteMeeting m) \<longrightarrow>
      (\<exists>db'. deleteMeeting fault (Some db) m = (Some db', meetingExists db m) \<and>
         meetings db' = filter (\<lambda>r. r_id r \<noteq> m) (meetings db) \<and>
         transcripts db' = filter (\<lambda>r. tr_meeting_id r \<noteq> m) (transcripts db) \<and>
         ai_interactions db' = filter (\<lambda>r. ai_meeting_id r \<noteq> m) (ai_interactions db) \<and>
         chunks db' = filter (\<lambda>r. c_meeting_id r \<noteq> m) (chunks db) \<and>
         chunk_summaries db' = filter (\<lambda>r. cs_meeting_id r \<noteq> m) (chunk_summaries db) \<and>
         embedding_queue db' = embedding_queue db)) \<and>
    (\<exists>db2. apiCall selectFault apiFault call (Some db) = Some db2 \<and>
       (\<forall>c \<in> set (chunks db). c \<notin> set (chunks db2) \<longrightarrow>
          meetingExists db (c_meeting_id c) \<and>
          (call = CallDeleteMeeting (c_meeting_id c) \<or>
           (\<exists>meeting st dur. call = CallSaveMeeting meeting st dur \<and>
              m_id meeting = c_meeting_id c))))"
proof (intro conjI impI)
  assume nf: "\<not> fault (DeleteMeeting m)"
  show "\<exists>db'. deleteMeeting fault (Some db) m = (Some db', meetingExists db m) \<and>
         meetings db' = filter (\<lambda>r. r_id r \<noteq> m) (meetings db) \<and>
         transcripts db' = filter (\<lambda>r. tr_meeting_id r \<noteq> m) (transcripts db) \<and>
         ai_interactions db' = filter (\<lambda>r. ai_meeting_id r \<noteq> m) (ai_interactions db) \<and>
         chunks db' = filter (\<lambda>r. c_meeting_id r \<noteq> m) (chunks db) \<and>
         chunk_summaries db' = filter (\<lambda>r. cs_meeting_id r \<noteq> m) (chunk_summaries db) \<and>
         embedding_queue db' = embedding_queue db"
    apply (rule exI[of _ "cascadeDelete m db"])
    using nf cd_fkOk_clean[OF assms, of m]
    by (simp add: delete_unfold cd_meetings cd_children(5))
next
  from apiCall_total obtain db2 where d: "apiCall selectFault apiFault call (Some db) = Some db2"
    by blast
  show "\<exists>db2. apiCall selectFault apiFault call (Some db) = Some db2 \<and>
       (\<forall>c \<in> set (chunks db). c \<notin> set (chunks db2) \<longrightarrow>
          meetingExists db (c_meeting_id c) \<and>
          (call = CallDeleteMeeting (c_meeting_id c) \<or>
           (\<exists>meeting st dur. call = CallSaveMeeting meeting st dur \<and>
              m_id meeting = c_meeting_id c)))"
    apply (rule exI[of _ db2])
    using d apiCall_chunks[OF d] by blast
qed

lemma demo_fkOk: "fkOk demoDatabase"
  by (simp add: fkOk_def demoDatabase_def emptyDatabase_def meetingExists_def meetingRow_def
      demoMeeting_def otherRow_def demoChunk_def)

lemma demo_cascade_chunks:
  "chunks (cascadeDelete (str ''demo-meeting-002'') demoDatabase) = [demoChunk 2 (str ''other'')]"
  by (simp add: cascadeDelete_def demoDatabase_def emptyDatabase_def meetingExists_def
      meetingRow_def demoMeeting_def otherRow_def demoChunk_def)

text \<open>The statement at the demo database.\<close>

theorem deleteMeeting_cascade_witness:
  "fkOk demoDatabase \<and> \<not> noFault (DeleteMeeting (str ''demo-meeting-002'')) \<and>
   demoChunk 1 (str ''demo-meeting-002'') \<in> set (chunks demoDatabase) \<and>
   (\<exists>db'. deleteMeeting noFault (Some demoDatabase) (str ''demo-meeting-002'') = (Some db', True) \<and>
      chunks db' = [demoChunk 2 (str ''other'')] \<and> chunk_summaries db' = [] \<and>
      transcripts db' = [] \<and> meetings db' = [otherRow]) \<and>
   meetingExists demoDatabase (c_meeting_id (demoChunk 1 (str ''demo-meeting-002'')))"
proof -
  note T = deleteMeeting_cascade[OF demo_fkOk, where fault = noFault
      and m = "str ''demo-meeting-002''" and selectFault = False and apiFault = noFault
      and call = "CallDeleteMeeting (str ''demo-meeting-002'')"]
  have nf: "\<not> noFault (DeleteMeeting (str ''demo-meeting-002''))" by (simp add: noFault_def)
  have ex: "meetingExists demoDatabase (str ''demo-meeting-002'')"
    by (simp add: meetingExists_def demoDatabase_def emptyDatabase_def meetingRow_def
        demoMeeting_def)
  have c: "demoChunk 1 (str ''demo-meeting-002'') \<in> set (chunks demoDatabase)"
    by (simp add: demoDatabase_def emptyDatabase_def)
  from T[THEN conjunct1, THEN mp, OF nf] obtain db' where
    d: "deleteMeeting noFault (Some demoDatabase) (str ''demo-meeting-002'') =
          (Some db', meetingExists demoDatabase (str ''demo-meeting-002'')) \<and>
        meetings db' = filter (\<lambda>r. r_id r \<noteq> str ''demo-meeting-002'') (meetings demoDatabase) \<and>
        transcripts db' =
          filter (\<lambda>r. tr_meeting_id r \<noteq> str ''demo-meeting-002'') (transcripts demoDatabase) \<and>
        ai_interactions db' =
          filter (\<lambda>r. ai_meeting_id r \<noteq> str ''demo-meeting-002'') (ai_interactions demoDatabase) \<and>
        chunks db' = filter (\<lambda>r. c_meeting_id r \<noteq> str ''demo-meeting-002'') (chunks demoDatabase) \<and>
        chunk_summaries db' =
          filter (\<lambda>r. cs_meeting_id r \<noteq> str ''demo-meeting-002'') (chunk_summaries demoDatabase) \<and>
        embedding_queue db' = embedding_queue demoDatabase"
    by (elim exE) (rule that)
  have p1: "\<exists>db'. deleteMeeting noFault (Some demoDatabase) (str ''demo-meeting-002'') =
        (Some db', True) \<and>
      chunks db' = [demoChunk 2 (str ''other'')] \<and> chunk_summaries db' = [] \<and>
      transcripts db' = [] \<and> meetings db' = [otherRow]"
    apply (rule exI[of _ db'])
    using d ex
    by (simp add: demoDatabase_def emptyDatabase_def meetingRow_def demoMeeting_def otherRow_def
        demoChunk_def)
  from T[THEN conjunct2] obtain db2 where
    e: "apiCall False noFault (CallDeleteMeeting (str ''demo-meeting-002'')) (Some demoDatabase) =
          Some db2"
    and f: "\<forall>c \<in> set (chunks demoDatabase). c \<notin> set (chunks db2) \<longrightarrow>
          meetingExists demoDatabase (c_meeting_id c) \<and>
          (CallDeleteMeeting (str ''demo-meeting-002'') = CallDeleteMeeting (c_meeting_id c) \<or>
           (\<exists>meeting st dur.
              CallDeleteMeeting (str ''demo-meeting-002'') = CallSaveMeeting meeting st dur \<and>
              m_id meeting = c_meeting_id c))"
    by (elim exE conjE) (rule that)
  have "db2 = cascadeDelete (str ''demo-meeting-002'') demoDatabase"
    using e nf by (simp add: delete_unfold)
  then have g: "demoChunk 1 (str ''demo-meeting-002'') \<notin> set (chunks db2)"
    by (simp add: demo_cascade_chunks demoChunk_def)
  from f c g have p2:
    "meetingExists demoDatabase (c_meeting_id (demoChunk 1 (str ''demo-meeting-002'')))"
    by blast
  from demo_fkOk nf c p1 p2 show ?thesis by (intro conjI)
qed

text \<open>The claim as stated fails: saving the demo meeting again removes its chunk.\<close>

theorem chunks_removed_by_saveMeeting_counterexample:
  "demoChunk 1 (str ''demo-meeting-002'') \<in> set (chunks demoDatabase) \<and>
   chunks (the (apiCall False noFault (CallSaveMeeting demoMeeting 0 288000)
     (Some demoDatabase))) = [demoChunk 2 (str ''other'')]"
proof -
  have c: "demoChunk 1 (str ''demo-meeting-002'') \<in> set (chunks demoDatabase)"
    by (simp add: demoDatabase_def emptyDatabase_def)
  have nf: "\<forall>s \<in> set (saveStatements demoMeeting 0 288000). \<not> noFault s"
    by (simp add: noFault_def)
  from saveMeeting_success[OF nf, of demoDatabase] obtain db' where
    r: "runEach noFault (saveStatements demoMeeting 0 288000) demoDatabase = Inr db'"
    and k: "chunks db' = chunks (cascadeDelete (m_id demoMeeting) demoDatabase)"
    by (elim exE conjE) (rule that)
  have i: "m_id demoMeeting = str ''demo-meeting-002''" by (simp add: demoMeeting_def)
  have "apiCall False noFault (CallSaveMeeting demoMeeting 0 288000) (Some demoDatabase) =
      Some db'"
    using r by (simp add: saveMeeting_unfold)
  then have "chunks (the (apiCall False noFault (CallSaveMeeting demoMeeting 0 288000)
     (Some demoDatabase))) = [demoChunk 2 (str ''other'')]"
    using k i demo_cascade_chunks by simp
  with c show ?thesis by (intro conjI)
qed

subsection \<open>The meeting summary row\<close>

lemma distinct_key_le1:
  "distinct (map f xs) \<Longrightarrow> length (filter (\<lambda>r. f r = m) xs) \<le> 1"
proof (induction xs)
  case Nil
  then show ?case by simp
next
  case (Cons x xs)
  show ?case
  proof (cases "f x = m")
    case True
    then have "m \<notin> f ` set xs" using Cons.prems by auto
    then have "filter (\<lambda>r. f r = m) xs = []" by (auto simp: filter_empty_conv)
    then show ?thesis using True by simp
  next
    case False
    then show ?thesis using Cons by simp
  qed
qed

lemma summary_update_other:
  "j \<noteq> m \<Longrightarrow>
   filter (\<lambda>r. cs_meeting_id r = j)
     (map (\<lambda>r. if cs_meeting_id r = m
              then r\<lparr> cs_summary_text := tx, cs_embedding := None \<rparr> else r) xs) =
   filter (\<lambda>r. cs_meeting_id r = j) xs"
  by (induction xs) auto

lemma summary_update_same:
  "map cs_summary_text (filter (\<lambda>r. cs_meeting_id r = m)
     (map (\<lambda>r. if cs_meeting_id r = m
              then r\<lparr> cs_summary_text := tx, cs_embedding := None \<rparr> else r) xs)) =
   replicate (length (filter (\<lambda>r. cs_meeting_id r = m) xs)) tx"
  by (induction xs) auto

lemma summary_update_ids:
  "map cs_id (map (\<lambda>r. if cs_meeting_id r = m
              then r\<lparr> cs_summary_text := tx, cs_embedding := None \<rparr> else r) xs) = map cs_id xs"
  by (induction xs) auto

lemma summaryRows_le1: "reachable db \<Longrightarrow> length (summaryRows db m) \<le> 1"
  using reachable_keysOk[of db] distinct_key_le1[of cs_meeting_id "chunk_summaries db" m]
  by (simp add: keysOk_def summaryRows_def)

lemma recompute_unfold:
  assumes "summarize (filter (\<lambda>c. c_meeting_id c = m) (chunks db)) = Some tx"
    "recomputeSummary summarize fault now m db = Inr db'"
  shows "\<exists>db1 n. execute (upsertSummary db m tx now) db = Inr (db1, n) \<and>
     db' = db1\<lparr> embedding_queue := embedding_queue db1 @
                [\<lparr> q_id = Suc (seq_embedding_queue db1), q_meeting_id = m, q_chunk_id = None,
                   q_status = str ''pending'', q_retry_count = 0, q_error_message = None,
                   q_created_at = now, q_processed_at = None \<rparr>],
              seq_embedding_queue := Suc (seq_embedding_queue db1) \<rparr>"
proof -
  have r: "runEach fault [upsertSummary db m tx now, InsertQueueJob m None now] db = Inr db'"
    using assms unfolding recomputeSummary_def transaction_def
    by (cases "runEach fault [upsertSummary db m tx now, InsertQueueJob m None now] db") simp_all
  then obtain db1 n where a: "run fault (upsertSummary db m tx now) db = Inr (db1, n)"
    and b: "run fault (InsertQueueJob m None now) db1 = Inr (db', 1)"
    by (auto simp: run_def split: sum.splits if_splits)
  have "execute (upsertSummary db m tx now) db = Inr (db1, n)"
    using a by (simp add: run_def split: if_splits)
  moreover have "db' = db1\<lparr> embedding_queue := embedding_queue db1 @
                [\<lparr> q_id = Suc (seq_embedding_queue db1), q_meeting_id = m, q_chunk_id = None,
                   q_status = str ''pending'', q_retry_count = 0, q_error_message = None,
                   q_created_at = now, q_processed_at = None \<rparr>],
              seq_embedding_queue := Suc (seq_embedding_queue db1) \<rparr>"
    using b by (simp add: run_def split: if_splits)
  ultimately show ?thesis by blast
qed

lemma recompute_props:
  assumes re: "reachable db"
    and su: "summarize (filter (\<lambda>c. c_meeting_id c = m) (chunks db)) = Some tx"
    and rc: "recomputeSummary summarize fault now m db = Inr db'"
  shows "reachable db' \<and> map cs_summary_text (summaryRows db' m) = [tx] \<and>
     (summaryRows db m \<noteq> [] \<longrightarrow> map cs_id (chunk_summaries db') = map cs_id (chunk_summaries db)) \<and>
     (\<forall>j. j \<noteq> m \<longrightarrow> summaryRows db' j = summaryRows db j)"
proof -
  from recompute_unfold[OF su rc] obtain db1 n where
    e: "execute (upsertSummary db m tx now) db = Inr (db1, n)"
    and d: "db' = db1\<lparr> embedding_queue := embedding_queue db1 @
                [\<lparr> q_id = Suc (seq_embedding_queue db1), q_meeting_id = m, q_chunk_id = None,
                   q_status = str ''pending'', q_retry_count = 0, q_error_message = None,
                   q_created_at = now, q_processed_at = None \<rparr>],
              seq_embedding_queue := Suc (seq_embedding_queue db1) \<rparr>"
    by blast
  have r1: "reachable db1" using re e by (rule reachable.step)
  have "execute (InsertQueueJob m None now) db1 = Inr (db', 1)" using d by simp
  then have r2: "reachable db'" using r1 by (rule reachable.step[rotated])
  have cs: "chunk_summaries db' = chunk_summaries db1" using d by simp
  show ?thesis
  proof (cases "summaryRows db m = []")
    case True
    then have ins: "execute (InsertChunkSummary m tx now) db = Inr (db1, n)"
      using e by (simp add: upsertSummary_def)
    then have c1: "chunk_summaries db1 = chunk_summaries db @
        [\<lparr> cs_id = Suc (seq_chunk_summaries db), cs_meeting_id = m,
           cs_summary_text = tx, cs_embedding = None, cs_created_at = now \<rparr>]"
      by (auto split: if_splits)
    have a: "map cs_summary_text (summaryRows db' m) = [tx]"
      using True c1 cs by (simp add: summaryRows_def)
    have b: "\<forall>j. j \<noteq> m \<longrightarrow> summaryRows db' j = summaryRows db j"
      using c1 cs by (simp add: summaryRows_def)
    from r2 a b True show ?thesis by simp
  next
    case False
    then have upd: "execute (UpdateChunkSummary tx m) db = Inr (db1, n)"
      using e by (simp add: upsertSummary_def)
    then have c1: "chunk_summaries db1 =
        map (\<lambda>r. if cs_meeting_id r = m
                 then r\<lparr> cs_summary_text := tx, cs_embedding := None \<rparr> else r)
          (chunk_summaries db)"
      by auto
    have "length (summaryRows db m) = 1"
      using False summaryRows_le1[OF re, of m] by (cases "summaryRows db m") auto
    then have a: "map cs_summary_text (summaryRows db' m) = [tx]"
      using c1 cs by (simp add: summaryRows_def summary_update_same)
    have b: "\<forall>j. j \<noteq> m \<longrightarrow> summaryRows db' j = summaryRows db j"
      using c1 cs by (simp add: summaryRows_def summary_update_other)
    have c: "map cs_id (chunk_summaries db') = map cs_id (chunk_summaries db)"
      using c1 cs by (simp add: summary_update_ids)
    from r2 a b c show ?thesis by simp
  qed
qed

text \<open>
  Claim C6. In every reachable database a meeting has at most one row in
  \<open>chunk_summaries\<close>. A recomputation that succeeds leaves a reachable database in which
  the meeting has exactly one row, holding the new text; when a row existed, the table has
  the same rows (by id) as before, so the row was overwritten and none was appended; the
  rows of other meetings are unchanged. When the summarizer fails, nothing changes.
\<close>

theorem summary_row_unique:
  assumes "reachable db"
  shows "length (summaryRows db m) \<le> 1 \<and>
     (\<forall>tx db'. summarize (filter (\<lambda>c. c_meeting_id c = m) (chunks db)) = Some tx \<and>
         recomputeSummary summarize fault now m db = Inr db' \<longrightarrow>
           reachable db' \<and> length (summaryRows db' m) \<le> 1 \<and>
           map cs_summary_text (summaryRows db' m) = [tx] \<and>
           (summaryRows db m \<noteq> [] \<longrightarrow>
              map cs_id (chunk_summaries db') = map cs_id (chunk_summaries db)) \<and>
           (\<forall>j. j \<noteq> m \<longrightarrow> summaryRows db' j = summaryRows db j)) \<and>
     (summarize (filter (\<lambda>c. c_meeting_id c = m) (chunks db)) = None \<longrightarrow>
        recomputeSummary summarize fault now m db = Inr db)"
proof (intro conjI allI impI)
  show "length (summaryRows db m) \<le> 1" using assms by (rule summaryRows_le1)
next
  fix tx db'
  assume a: "summarize (filter (\<lambda>c. c_meeting_id c = m) (chunks db)) = Some tx \<and>
         recomputeSummary summarize fault now m db = Inr db'"
  note P = recompute_props[OF assms a[THEN conjunct1] a[THEN conjunct2]]
  show "reachable db'" using P by simp
  then show "length (summaryRows db' m) \<le> 1" by (rule summaryRows_le1)
  show "map cs_summary_text (summaryRows db' m) = [tx]" using P by simp
  show "map cs_id (chunk_summaries db') = map cs_id (chunk_summaries db)"
    if "summaryRows db m \<noteq> []" using P that by simp
  show "summaryRows db' j = summaryRows db j" if "j \<noteq> m" for j using P that by simp
next
  assume "summarize (filter (\<lambda>c. c_meeting_id c = m) (chunks db)) = None"
  then show "recomputeSummary summarize fault now m db = Inr db"
    by (simp add: recomputeSummary_def)
qed

text \<open>The statement at a database reached by two statements.\<close>

theorem summary_row_unique_witness:
  "reachable summaryDb \<and> length (summaryRows summaryDb (str ''other'')) \<le> 1 \<and>
   summaryRows summaryDb (str ''other'') \<noteq> [] \<and>
   secondSummary (filter (\<lambda>c. c_meeting_id c = str ''other'') (chunks summaryDb)) =
     Some (str ''second summary'') \<and>
   (\<exists>db'. recomputeSummary secondSummary noFault 7 (str ''other'') summaryDb = Inr db' \<and>
      reachable db' \<and>
      map cs_summary_text (summaryRows db' (str ''other'')) = [str ''second summary''] \<and>
      map cs_id (chunk_summaries db') = map cs_id (chunk_summaries summaryDb))"
proof -
  have 1: "execute (InsertOrReplaceMeeting otherRow) emptyDatabase =
      Inr (emptyDatabase\<lparr> meetings := [otherRow] \<rparr>, 1)"
    by (simp add: cascadeDelete_def meetingExists_def emptyDatabase_def Let_def)
  have 2: "execute (InsertChunkSummary (str ''other'') (str ''first summary'') 5)
      (emptyDatabase\<lparr> meetings := [otherRow] \<rparr>) = Inr (summaryDb, 1)"
    by (simp add: summaryDb_def meetingExists_def emptyDatabase_def otherRow_def)
  have r: "reachable summaryDb"
    by (rule reachable.step[OF reachable.step[OF reachable.init 1] 2])
  note T = summary_row_unique[OF r, where m = "str ''other''" and summarize = secondSummary
      and fault = noFault and now = 7]
  have ne: "summaryRows summaryDb (str ''other'') \<noteq> []"
    by (simp add: summaryRows_def summaryDb_def emptyDatabase_def)
  have su: "secondSummary (filter (\<lambda>c. c_meeting_id c = str ''other'') (chunks summaryDb)) =
     Some (str ''second summary'')"
    by (simp add: secondSummary_def)
  have "\<exists>db'. recomputeSummary secondSummary noFault 7 (str ''other'') summaryDb = Inr db'"
    using ne
    by (simp add: recomputeSummary_def secondSummary_def transaction_def upsertSummary_def
        run_def noFault_def)
  then obtain db' where
    rc: "recomputeSummary secondSummary noFault 7 (str ''other'') summaryDb = Inr db'"
    by blast
  from T[THEN conjunct2, THEN conjunct1, THEN spec, THEN spec, THEN mp, OF conjI[OF su rc]] ne
  have p: "reachable db' \<and>
      map cs_summary_text (summaryRows db' (str ''other'')) = [str ''second summary''] \<and>
      map cs_id (chunk_summaries db') = map cs_id (chunk_summaries summaryDb)"
    by simp
  have e: "\<exists>db'. recomputeSummary secondSummary noFault 7 (str ''other'') summaryDb = Inr db' \<and>
      reachable db' \<and>
      map cs_summary_text (summaryRows db' (str ''other'')) = [str ''second summary''] \<and>
      map cs_id (chunk_summaries db') = map cs_id (chunk_summaries summaryDb)"
    by (rule exI[of _ db'], rule conjI[OF rc p])
  from r T[THEN conjunct1] ne su e show ?thesis by (intro conjI)
qed

subsection \<open>submitQuestion and the stream listeners\<close>

lemmas submit_defs =
  submitQuestion_def accepted_def meetingIdOf_def contextWindowChat_def catchBlock_def Let_def

lemma submit_not_accepted:
  "\<not> accepted question st \<Longrightarrow> submitQuestion api now ctx question st = st"
  by (auto simp: submitQuestion_def accepted_def)

lemma requests_none:
  assumes "accepted question st"
  shows "requests (submitQuestion None now ctx question st) = requests st"
  using assms
  by (auto simp: submit_defs split: option.splits if_splits)

lemma requests_noid:
  assumes "accepted question st" "meetingIdOf ctx = None"
  shows "requests (submitQuestion (Some a) now ctx question st) =
     requests st @ [StreamGeminiChat question (systemPrompt ctx)]"
  using assms
  by (auto simp: submit_defs split: option.splits if_splits Promise.splits)

lemma requests_id:
  assumes "accepted question st" "meetingIdOf ctx = Some i"
  shows "requests (submitQuestion (Some a) now ctx question st) =
     requests st @ RagQueryMeeting i question #
       (case ragQueryMeeting a i question of
          Rejected \<Rightarrow> []
        | Resolved result \<Rightarrow>
            if resultFallback result then [StreamGeminiChat question (systemPrompt ctx)] else [])"
  using assms
  by (auto simp: submit_defs split: option.splits if_splits Promise.splits)

lemma error_id:
  assumes "accepted question st" "meetingIdOf ctx = Some i"
  shows "errorMessage (submitQuestion (Some a) now ctx question st) =
       (case ragQueryMeeting a i question of
          Rejected \<Rightarrow> Some somethingWentWrong
        | Resolved result \<Rightarrow>
            if resultFallback result
            then (case streamGeminiChat a question (systemPrompt ctx) of
                    Resolved u \<Rightarrow> None | Rejected \<Rightarrow> Some somethingWentWrong)
            else None)"
  using assms
  by (auto simp: submit_defs split: option.splits if_splits Promise.splits)

lemma state_id:
  assumes "accepted question st" "meetingIdOf ctx = Some i"
  shows "chatState (submitQuestion (Some a) now ctx question st) =
       (case ragQueryMeeting a i question of
          Rejected \<Rightarrow> st_error
        | Resolved result \<Rightarrow>
            if resultFallback result
            then (case streamGeminiChat a question (systemPrompt ctx) of
                    Resolved u \<Rightarrow> st_waiting_for_llm | Rejected \<Rightarrow> st_error)
            else st_waiting_for_llm)"
  using assms
  by (auto simp: submit_defs split: option.splits if_splits Promise.splits)

lemma ragListeners_id:
  assumes "accepted question st" "meetingIdOf ctx = Some i"
  shows "ragListeners (submitQuestion (Some a) now ctx question st) =
       (case ragQueryMeeting a i question of
          Rejected \<Rightarrow> ragListeners st @ [AssistantId now]
        | Resolved result \<Rightarrow>
            if resultFallback result
            then remove1 (AssistantId now) (ragListeners st @ [AssistantId now])
            else ragListeners st @ [AssistantId now])"
  using assms
  by (auto simp: submit_defs split: option.splits if_splits Promise.splits)

lemma queryMeeting_fallback:
  "embeddedChunks db i = [] \<Longrightarrow>
   \<exists>r. queryMeeting minChunks lastUnavailable db i question = Resolved r \<and> resultFallback r"
  by (simp add: queryMeeting_def select_strategy_def resultFallback_def)

lemma systemPrompt_context: "sublist (buildContextString ctx) (systemPrompt ctx)"
  unfolding systemPrompt_def sublist_def
  by (rule exI[of _ "promptHeader @ nl @ nl"], rule exI[of _ "[]"]) simp

lemma systemPrompt_nonempty: "systemPrompt ctx \<noteq> []"
  by (simp add: systemPrompt_def promptHeader_def)

lemma rag_error_fold:
  "ls \<noteq> [] \<Longrightarrow>
   errorMessage (foldl (\<lambda>s a. onRAGStreamError a err s) s0 ls) = Some couldNotRespond \<and>
   chatState (foldl (\<lambda>s a. onRAGStreamError a err s) s0 ls) = st_error"
proof (induction ls arbitrary: s0)
  case Nil
  then show ?case by simp
next
  case (Cons a ls)
  show ?case
  proof (cases "ls = []")
    case True
    then show ?thesis by (simp add: onRAGStreamError_def)
  next
    case False
    then show ?thesis using Cons.IH by simp
  qed
qed

lemma rag_error_requests:
  "requests (foldl (\<lambda>s a. onRAGStreamError a err s) s0 ls) = requests s0"
  by (induction ls arbitrary: s0) (simp_all add: onRAGStreamError_def)

lemma fold_requests_chunk:
  "requests (foldl (\<lambda>s a. onRAGStreamChunk a c s) s0 ls) = requests s0"
  by (induction ls arbitrary: s0) (simp_all add: onRAGStreamChunk_def)

lemma fold_requests_complete:
  "requests (foldl (\<lambda>s a. onRAGStreamComplete a s) s0 ls) = requests s0"
  by (induction ls arbitrary: s0) (simp_all add: onRAGStreamComplete_def)

lemma fold_requests_token:
  "requests (foldl (\<lambda>s a. onGeminiStreamToken a c s) s0 ls) = requests s0"
  by (induction ls arbitrary: s0) (simp_all add: onGeminiStreamToken_def)

lemma fold_requests_done:
  "requests (foldl (\<lambda>s a. onGeminiStreamDone a s) s0 ls) = requests s0"
  by (induction ls arbitrary: s0) (simp_all add: onGeminiStreamDone_def)

lemma fold_error_chunk:
  "errorMessage (foldl (\<lambda>s a. onRAGStreamChunk a c s) s0 ls) = errorMessage s0"
  by (induction ls arbitrary: s0) (simp_all add: onRAGStreamChunk_def)

lemma fold_error_complete:
  "errorMessage (foldl (\<lambda>s a. onRAGStreamComplete a s) s0 ls) = errorMessage s0"
  by (induction ls arbitrary: s0) (simp_all add: onRAGStreamComplete_def)

lemma fold_error_token:
  "errorMessage (foldl (\<lambda>s a. onGeminiStreamToken a c s) s0 ls) = errorMessage s0"
  by (induction ls arbitrary: s0) (simp_all add: onGeminiStreamToken_def)

lemma fold_error_done:
  "errorMessage (foldl (\<lambda>s a. onGeminiStreamDone a s) s0 ls) = errorMessage s0"
  by (induction ls arbitrary: s0) (simp_all add: onGeminiStreamDone_def)

lemma deliver_requests: "requests (deliver ev s) = requests s"
  by (cases ev)
    (simp_all add: fold_requests_chunk fold_requests_complete rag_error_requests
      fold_requests_token fold_requests_done)

lemma deliver_error:
  "errorMessage (deliver ev s) =
     (if (\<exists>e. ev = RAGStreamError e) \<and> ragListeners s \<noteq> [] then Some couldNotRespond
      else errorMessage s)"
proof (cases ev)
  case (RAGStreamError e)
  show ?thesis
  proof (cases "ragListeners s = []")
    case True
    then show ?thesis using RAGStreamError by simp
  next
    case False
    then show ?thesis using RAGStreamError rag_error_fold[OF False, of e s] by simp
  qed
qed (simp_all add: fold_error_chunk fold_error_complete fold_error_token fold_error_done)

lemma messages_differ: "couldNotRespond \<noteq> somethingWentWrong"
  by (simp add: couldNotRespond_def somethingWentWrong_def)

lemma transcript_in_prompt:
  assumes "mc_transcript ctx = Some ts" "ts \<noteq> []"
  shows "sublist
     (str ''RECENT TRANSCRIPT:'' @
        concat (map (\<lambda>t. [0x0A] @ str ''['' @
                  (if te_speaker t = str ''user'' then str ''Me'' else str ''Them'') @
                  str '']: '' @ te_text t)
          (drop (length ts - 20) ts)))
     (systemPrompt ctx)"
  by (rule sublist_trans'[OF transcript_in_context[OF assms] systemPrompt_context])

lemma line_in_prompt:
  assumes "mc_transcript ctx = Some ts" "ts \<noteq> []" "t \<in> set (drop (length ts - 20) ts)"
  shows "sublist
     (str ''['' @ (if te_speaker t = str ''user'' then str ''Me'' else str ''Them'') @
        str '']: '' @ te_text t)
     (systemPrompt ctx)"
  by (rule sublist_trans'[OF line_in_context[OF assms] systemPrompt_context])

text \<open>
  Claim C1, as amended. A query that does not pass the guard of \<open>submitQuestion\<close> (a
  question that is blank, that is empty once trimmed, or a chat that is waiting or
  streaming) changes nothing. For a query that passes it: without \<open>window.electronAPI\<close> no
  request is sent; with it, when the context carries no usable meeting id, the only
  request is \<open>streamGeminiChat\<close> with the question and the system prompt; when it carries
  one, \<open>ragQueryMeeting\<close> is called and \<open>streamGeminiChat\<close> follows exactly when the call
  resolves with \<open>fallback = true\<close>; when the RAG handler is the one of the spec and the
  store has no embedded chunk for the meeting, the query goes to the fallback. The system
  prompt is the fixed instruction, a blank line and the context string; it is not empty
  and contains the recent-transcript section with the lines of the last 20 raw
  utterances. (The answer is what the language model then streams.)
\<close>

theorem submitQuestion_paths:
  "(\<not> accepted question st \<longrightarrow> submitQuestion api now ctx question st = st) \<and>
   (accepted question st \<longrightarrow>
      requests (submitQuestion None now ctx question st) = requests st \<and>
      (meetingIdOf ctx = None \<longrightarrow>
         requests (submitQuestion (Some a) now ctx question st) =
           requests st @ [StreamGeminiChat question (systemPrompt ctx)]) \<and>
      (\<forall>i. meetingIdOf ctx = Some i \<longrightarrow>
         requests (submitQuestion (Some a) now ctx question st) =
           requests st @ RagQueryMeeting i question #
             (case ragQueryMeeting a i question of
                Rejected \<Rightarrow> []
              | Resolved result \<Rightarrow>
                  if resultFallback result
                  then [StreamGeminiChat question (systemPrompt ctx)] else [])) \<and>
      (\<forall>i minChunks lastUnavailable db.
         meetingIdOf ctx = Some i \<and>
         ragQueryMeeting a = queryMeeting minChunks lastUnavailable db \<and>
         embeddedChunks db i = [] \<longrightarrow>
         requests (submitQuestion (Some a) now ctx question st) =
           requests st @
             [RagQueryMeeting i question, StreamGeminiChat question (systemPrompt ctx)])) \<and>
   systemPrompt ctx = promptHeader @ [0x0A, 0x0A] @ buildContextString ctx \<and>
   systemPrompt ctx \<noteq> [] \<and>
   sublist (buildContextString ctx) (systemPrompt ctx) \<and>
   (\<forall>ts. mc_transcript ctx = Some ts \<and> ts \<noteq> [] \<longrightarrow>
      sublist
        (str ''RECENT TRANSCRIPT:'' @
           concat (map (\<lambda>t. [0x0A] @ str ''['' @
                     (if te_speaker t = str ''user'' then str ''Me'' else str ''Them'') @
                     str '']: '' @ te_text t)
             (drop (length ts - 20) ts)))
        (systemPrompt ctx) \<and>
      (\<forall>t \<in> set (drop (length ts - 20) ts).
         sublist
           (str ''['' @ (if te_speaker t = str ''user'' then str ''Me'' else str ''Them'') @
              str '']: '' @ te_text t)
           (systemPrompt ctx)))"
proof (intro conjI allI impI ballI)
  show "submitQuestion api now ctx question st = st" if "\<not> accepted question st"
    using submit_not_accepted[OF that] .
  show "requests (submitQuestion None now ctx question st) = requests st"
    if "accepted question st"
    using requests_none[OF that] .
  show "requests (submitQuestion (Some a) now ctx question st) =
         requests st @ [StreamGeminiChat question (systemPrompt ctx)]"
    if "accepted question st" "meetingIdOf ctx = None"
    using requests_noid[OF that] .
  show "requests (submitQuestion (Some a) now ctx question st) =
         requests st @ RagQueryMeeting i question #
           (case ragQueryMeeting a i question of
              Rejected \<Rightarrow> []
            | Resolved result \<Rightarrow>
                if resultFallback result
                then [StreamGeminiChat question (systemPrompt ctx)] else [])"
    if "accepted question st" "meetingIdOf ctx = Some i" for i
    using requests_id[OF that] .
  show "requests (submitQuestion (Some a) now ctx question st) =
          requests st @
            [RagQueryMeeting i question, StreamGeminiChat question (systemPrompt ctx)]"
    if acc: "accepted question st"
      and h: "meetingIdOf ctx = Some i \<and>
        ragQueryMeeting a = queryMeeting minChunks lastUnavailable db \<and>
        embeddedChunks db i = []" for i minChunks lastUnavailable db
  proof -
    from h queryMeeting_fallback[of db i minChunks lastUnavailable question]
    obtain r where "ragQueryMeeting a i question = Resolved r" "resultFallback r" by auto
    then show ?thesis using requests_id[OF acc h[THEN conjunct1], of a now] by simp
  qed
  show "systemPrompt ctx = promptHeader @ [0x0A, 0x0A] @ buildContextString ctx"
    by (simp add: systemPrompt_def nl_def)
  show "systemPrompt ctx \<noteq> []" by (rule systemPrompt_nonempty)
  show "sublist (buildContextString ctx) (systemPrompt ctx)" by (rule systemPrompt_context)
  show "sublist
        (str ''RECENT TRANSCRIPT:'' @
           concat (map (\<lambda>t. [0x0A] @ str ''['' @
                     (if te_speaker t = str ''user'' then str ''Me'' else str ''Them'') @
                     str '']: '' @ te_text t)
             (drop (length ts - 20) ts)))
        (systemPrompt ctx)"
    if "mc_transcript ctx = Some ts \<and> ts \<noteq> []" for ts
    using transcript_in_prompt[OF that[THEN conjunct1] that[THEN conjunct2]] .
  show "sublist
           (str ''['' @ (if te_speaker t = str ''user'' then str ''Me'' else str ''Them'') @
              str '']: '' @ te_text t)
           (systemPrompt ctx)"
    if "mc_transcript ctx = Some ts \<and> ts \<noteq> []" "t \<in> set (drop (length ts - 20) ts)" for ts t
    using line_in_prompt[OF that(1)[THEN conjunct1] that(1)[THEN conjunct2] that(2)] .
qed

lemma question_trim: "trim (str ''What was decided?'') \<noteq> []"
  by (simp add: trim_eval)

lemma question_accepted: "accepted (str ''What was decided?'') initialChat"
  using question_trim by (simp add: accepted_def initialChat_def)

lemma blank_not_accepted: "\<not> accepted blankQuery initialChat"
  by (simp add: accepted_def trim_eval blankQuery_def)

lemma demo_no_embeddings: "embeddedChunks demoDatabase (str ''demo-meeting-002'') = []"
  by (simp add: embeddedChunks_def demoDatabase_def emptyDatabase_def demoChunk_def)

lemma demo_transcript: "mc_transcript demoContext = Some demoTranscript" "demoTranscript \<noteq> []"
  by (simp_all add: demoContext_def demoTranscript_def)

text \<open>The statement at the demo context, with and without its meeting id, and at a
  question of white space only.\<close>

theorem submitQuestion_paths_witness:
  "\<not> accepted blankQuery initialChat \<and>
   submitQuestion (Some specApi) 1 demoContext blankQuery initialChat = initialChat \<and>
   accepted (str ''What was decided?'') initialChat \<and> meetingIdOf noIdContext = None \<and>
   requests (submitQuestion (Some specApi) 1 noIdContext (str ''What was decided?'')
      initialChat) =
     [StreamGeminiChat (str ''What was decided?'') (systemPrompt noIdContext)] \<and>
   meetingIdOf demoContext = Some (str ''demo-meeting-002'') \<and>
   ragQueryMeeting specApi = queryMeeting 1 False demoDatabase \<and>
   embeddedChunks demoDatabase (str ''demo-meeting-002'') = [] \<and>
   requests (submitQuestion (Some specApi) 1 demoContext (str ''What was decided?'')
      initialChat) =
     [RagQueryMeeting (str ''demo-meeting-002'') (str ''What was decided?''),
      StreamGeminiChat (str ''What was decided?'') (systemPrompt demoContext)] \<and>
   mc_transcript demoContext = Some demoTranscript \<and> demoTranscript \<noteq> [] \<and>
   \<lparr> te_speaker = str ''user'', te_text = str ''Yes, exactly.'', te_timestamp = 20000 \<rparr>
     \<in> set (drop (length demoTranscript - 20) demoTranscript) \<and>
   sublist (str ''[Me]: Yes, exactly.'') (systemPrompt demoContext)"
proof -
  note Z = submitQuestion_paths[where question = blankQuery and st = initialChat
      and api = "Some specApi" and now = 1 and ctx = demoContext]
  note A = submitQuestion_paths[where question = "str ''What was decided?''"
      and st = initialChat and ctx = noIdContext and a = specApi and now = 1]
  note B = submitQuestion_paths[where question = "str ''What was decided?''"
      and st = initialChat and ctx = demoContext and a = specApi and now = 1]
  have z: "submitQuestion (Some specApi) 1 demoContext blankQuery initialChat = initialChat"
    using Z[THEN conjunct1, THEN mp, OF blank_not_accepted] .
  have n: "meetingIdOf noIdContext = None"
    by (simp add: meetingIdOf_def noIdContext_def demoContext_def)
  have i: "meetingIdOf demoContext = Some (str ''demo-meeting-002'')"
    by (simp add: meetingIdOf_def demoContext_def)
  have q: "ragQueryMeeting specApi = queryMeeting 1 False demoDatabase"
    by (simp add: specApi_def)
  have r0: "requests initialChat = []" by (simp add: initialChat_def)
  note A1 = A[THEN conjunct2, THEN conjunct1, THEN mp, OF question_accepted]
  note B1 = B[THEN conjunct2, THEN conjunct1, THEN mp, OF question_accepted]
  have a: "requests (submitQuestion (Some specApi) 1 noIdContext (str ''What was decided?'')
      initialChat) = [StreamGeminiChat (str ''What was decided?'') (systemPrompt noIdContext)]"
    using A1[THEN conjunct2, THEN conjunct1, THEN mp, OF n] r0 by simp
  have b: "requests (submitQuestion (Some specApi) 1 demoContext (str ''What was decided?'')
      initialChat) =
     [RagQueryMeeting (str ''demo-meeting-002'') (str ''What was decided?''),
      StreamGeminiChat (str ''What was decided?'') (systemPrompt demoContext)]"
    using B1[THEN conjunct2, THEN conjunct2, THEN conjunct2, THEN spec, THEN spec, THEN spec,
        THEN spec, THEN mp, OF conjI[OF i conjI[OF q demo_no_embeddings]]] r0
    by simp
  have "sublist
      (str ''['' @
         (if te_speaker \<lparr> te_speaker = str ''user'', te_text = str ''Yes, exactly.'',
                           te_timestamp = 20000 \<rparr> = str ''user''
          then str ''Me'' else str ''Them'') @
         str '']: '' @
         te_text \<lparr> te_speaker = str ''user'', te_text = str ''Yes, exactly.'',
                    te_timestamp = 20000 \<rparr>)
      (systemPrompt demoContext)"
    using B[THEN conjunct2, THEN conjunct2, THEN conjunct2, THEN conjunct2, THEN conjunct2,
        THEN spec, THEN mp, OF conjI[OF demo_transcript], THEN conjunct2, THEN bspec,
        OF demoTranscript_last] .
  then have c: "sublist (str ''[Me]: Yes, exactly.'') (systemPrompt demoContext)"
    by (simp add: str_def)
  from blank_not_accepted z question_accepted n a i q demo_no_embeddings b demo_transcript
    demoTranscript_last c
  show ?thesis by (intro conjI)
qed

text \<open>The claim as stated fails twice: a query submitted while an answer is streaming
  takes no path at all; and with no embedded chunk the fallback is taken, but a stream
  that ends without a token leaves an empty answer.\<close>

theorem submitQuestion_paths_counterexample:
  "requests (submitQuestion (Some specApi) 1 noIdContext (str ''What was decided?'')
     (initialChat\<lparr> chatState := st_streaming_response \<rparr>)) = [] \<and>
   embeddedChunks demoDatabase (str ''demo-meeting-002'') = [] \<and>
   messages (deliver GeminiStreamDone
     (submitQuestion (Some specApi) 1 demoContext (str ''What was decided?'') initialChat)) =
     [\<lparr> msg_id = UserId 1, msg_role = user, msg_content = str ''What was decided?'',
        msg_isStreaming = None \<rparr>,
      \<lparr> msg_id = AssistantId 1, msg_role = assistant, msg_content = [],
        msg_isStreaming = Some False \<rparr>] \<and>
   chatState (deliver GeminiStreamDone
     (submitQuestion (Some specApi) 1 demoContext (str ''What was decided?'') initialChat)) =
     st_idle"
proof -
  have a: "requests (submitQuestion (Some specApi) 1 noIdContext (str ''What was decided?'')
     (initialChat\<lparr> chatState := st_streaming_response \<rparr>)) = []"
    by (simp add: submitQuestion_def initialChat_def)
  have r: "ragQueryMeeting specApi (str ''demo-meeting-002'') (str ''What was decided?'') =
      Resolved (Some \<lparr> fallback = Some True \<rparr>)"
    by (simp add: specApi_def queryMeeting_def select_strategy_def demo_no_embeddings)
  have g: "streamGeminiChat specApi (str ''What was decided?'') (systemPrompt demoContext) =
      Resolved ()"
    by (simp add: specApi_def)
  have s: "submitQuestion (Some specApi) 1 demoContext (str ''What was decided?'')
      initialChat =
      \<lparr> messages =
          [\<lparr> msg_id = UserId 1, msg_role = user, msg_content = str ''What was decided?'',
             msg_isStreaming = None \<rparr>,
           \<lparr> msg_id = AssistantId 1, msg_role = assistant, msg_content = [],
             msg_isStreaming = Some True \<rparr>],
        chatState = st_waiting_for_llm, errorMessage = None, ragListeners = [],
        geminiListeners = [AssistantId 1],
        requests = [RagQueryMeeting (str ''demo-meeting-002'') (str ''What was decided?''),
                    StreamGeminiChat (str ''What was decided?'') (systemPrompt demoContext)] \<rparr>"
    using r g question_trim
    by (simp add: submitQuestion_def contextWindowChat_def initialChat_def demoContext_def
        resultFallback_def Let_def)
  have b: "messages (deliver GeminiStreamDone
     (submitQuestion (Some specApi) 1 demoContext (str ''What was decided?'') initialChat)) =
     [\<lparr> msg_id = UserId 1, msg_role = user, msg_content = str ''What was decided?'',
        msg_isStreaming = None \<rparr>,
      \<lparr> msg_id = AssistantId 1, msg_role = assistant, msg_content = [],
        msg_isStreaming = Some False \<rparr>]"
    unfolding s by (simp add: onGeminiStreamDone_def stopStreaming_def)
  have c: "chatState (deliver GeminiStreamDone
     (submitQuestion (Some specApi) 1 demoContext (str ''What was decided?'') initialChat)) =
     st_idle"
    unfolding s by (simp add: onGeminiStreamDone_def stopStreaming_def)
  from a demo_no_embeddings b c show ?thesis by (intro conjI)
qed

lemma rag_error_after_submit:
  assumes "accepted question st" "meetingIdOf ctx = Some i"
    "ragQueryMeeting a i question = Resolved r" "\<not> resultFallback r"
  shows "errorMessage (deliver (RAGStreamError err)
           (submitQuestion (Some a) now ctx question st)) = Some couldNotRespond \<and>
     chatState (deliver (RAGStreamError err)
           (submitQuestion (Some a) now ctx question st)) = st_error \<and>
     requests (deliver (RAGStreamError err)
           (submitQuestion (Some a) now ctx question st)) =
       requests st @ [RagQueryMeeting i question]"
proof -
  let ?s = "submitQuestion (Some a) now ctx question st"
  have l: "ragListeners ?s \<noteq> []"
    using ragListeners_id[OF assms(1,2), of a now] assms(3,4) by simp
  have q: "requests ?s = requests st @ [RagQueryMeeting i question]"
    using requests_id[OF assms(1,2), of a now] assms(3,4) by simp
  show ?thesis
    using rag_error_fold[OF l, of err ?s] rag_error_requests[of err ?s "ragListeners ?s"] q
    by simp
qed

lemma length_remove1_snoc: "length (remove1 x (xs @ [x])) = length xs"
  by (simp add: length_remove1)

lemma rag_error_after_fallback:
  assumes "accepted question st" "meetingIdOf ctx = Some i"
    "ragQueryMeeting a i question = Resolved r" "resultFallback r"
  shows "(errorMessage (deliver (RAGStreamError err)
            (submitQuestion (Some a) now ctx question st)) = Some couldNotRespond) =
     (ragListeners st \<noteq> [])"
proof -
  let ?s = "submitQuestion (Some a) now ctx question st"
  have l: "ragListeners ?s = remove1 (AssistantId now) (ragListeners st @ [AssistantId now])"
    using ragListeners_id[OF assms(1,2), of a now] assms(3,4) by simp
  have n: "(ragListeners ?s \<noteq> []) = (ragListeners st \<noteq> [])"
    using length_remove1_snoc[of "AssistantId now" "ragListeners st"] unfolding l
    by (metis length_0_conv)
  have e: "errorMessage ?s \<noteq> Some couldNotRespond"
    using error_id[OF assms(1,2), of a now] messages_differ
    by (auto split: Promise.splits if_splits)
  show ?thesis unfolding deliver_error using n e by simp
qed

text \<open>
  Claim C2, as amended. "Couldn't get a response" is set by the RAG stream error
  listener only: an event sets it exactly when it is a RAG stream error that arrives
  while a RAG listener of the chat is registered (the error state is then set too), and
  no event makes the chat send a request: the listener starts no fallback. For an
  accepted query with a meeting id, and events that arrive once the awaited calls of
  \<open>submitQuestion\<close> have settled: \<open>submitQuestion\<close> does not set that message; when the
  RAG call resolves without fallback, the listener of the query stays registered, and a
  RAG stream error then
  surfaces the message and the error state with the RAG request as the only one; when
  the call resolves with \<open>fallback = true\<close>, the fallback request is sent, one
  registration of the query's listener is removed, no error is set unless the fallback
  call itself rejects, and a later RAG stream error surfaces "Couldn't get a response"
  exactly when a listener registered before the query is still there; a rejected RAG
  call, like a rejected fallback call, sets the other message, "Something went wrong",
  and leaves the listener of the query registered.
\<close>

theorem couldNotRespond_surfaces:
  assumes "accepted question st" "meetingIdOf ctx = Some i"
  shows "errorMessage (submitQuestion (Some a) now ctx question st) \<noteq> Some couldNotRespond \<and>
     (\<forall>ev s. errorMessage (deliver ev s) =
        (if (\<exists>e. ev = RAGStreamError e) \<and> ragListeners s \<noteq> [] then Some couldNotRespond
         else errorMessage s)) \<and>
     (\<forall>ev s. requests (deliver ev s) = requests s) \<and>
     (\<forall>r. ragQueryMeeting a i question = Resolved r \<and> \<not> resultFallback r \<longrightarrow>
        AssistantId now \<in> set (ragListeners (submitQuestion (Some a) now ctx question st)) \<and>
        errorMessage (submitQuestion (Some a) now ctx question st) = None \<and>
        requests (submitQuestion (Some a) now ctx question st) =
          requests st @ [RagQueryMeeting i question] \<and>
        errorMessage (deliver (RAGStreamError err)
          (submitQuestion (Some a) now ctx question st)) = Some couldNotRespond \<and>
        chatState (deliver (RAGStreamError err)
          (submitQuestion (Some a) now ctx question st)) = st_error \<and>
        requests (deliver (RAGStreamError err)
          (submitQuestion (Some a) now ctx question st)) =
          requests st @ [RagQueryMeeting i question]) \<and>
     (\<forall>r. ragQueryMeeting a i question = Resolved r \<and> resultFallback r \<longrightarrow>
        requests (submitQuestion (Some a) now ctx question st) =
          requests st @
            [RagQueryMeeting i question, StreamGeminiChat question (systemPrompt ctx)] \<and>
        errorMessage (submitQuestion (Some a) now ctx question st) =
          (case streamGeminiChat a question (systemPrompt ctx) of
             Resolved u \<Rightarrow> None | Rejected \<Rightarrow> Some somethingWentWrong) \<and>
        chatState (submitQuestion (Some a) now ctx question st) =
          (case streamGeminiChat a question (systemPrompt ctx) of
             Resolved u \<Rightarrow> st_waiting_for_llm | Rejected \<Rightarrow> st_error) \<and>
        ragListeners (submitQuestion (Some a) now ctx question st) =
          remove1 (AssistantId now) (ragListeners st @ [AssistantId now]) \<and>
        length (ragListeners (submitQuestion (Some a) now ctx question st)) =
          length (ragListeners st) \<and>
        (errorMessage (deliver (RAGStreamError err)
           (submitQuestion (Some a) now ctx question st)) = Some couldNotRespond) =
          (ragListeners st \<noteq> [])) \<and>
     (ragQueryMeeting a i question = Rejected \<longrightarrow>
        errorMessage (submitQuestion (Some a) now ctx question st) = Some somethingWentWrong \<and>
        chatState (submitQuestion (Some a) now ctx question st) = st_error \<and>
        requests (submitQuestion (Some a) now ctx question st) =
          requests st @ [RagQueryMeeting i question] \<and>
        ragListeners (submitQuestion (Some a) now ctx question st) =
          ragListeners st @ [AssistantId now]) \<and>
     (\<forall>e s. ragListeners s \<noteq> [] \<longrightarrow> chatState (deliver (RAGStreamError e) s) = st_error)"
proof (intro conjI allI impI)
  show "errorMessage (submitQuestion (Some a) now ctx question st) \<noteq> Some couldNotRespond"
    using error_id[OF assms, of a now] messages_differ
    by (auto split: Promise.splits if_splits)
next
  fix ev s
  show "errorMessage (deliver ev s) =
        (if (\<exists>e. ev = RAGStreamError e) \<and> ragListeners s \<noteq> [] then Some couldNotRespond
         else errorMessage s)"
    by (rule deliver_error)
  show "requests (deliver ev s) = requests s" by (rule deliver_requests)
next
  fix r assume h: "ragQueryMeeting a i question = Resolved r \<and> \<not> resultFallback r"
  note R = rag_error_after_submit[OF assms h[THEN conjunct1] h[THEN conjunct2], of err now]
  show "AssistantId now \<in> set (ragListeners (submitQuestion (Some a) now ctx question st))"
    using ragListeners_id[OF assms, of a now] h by simp
  show "errorMessage (submitQuestion (Some a) now ctx question st) = None"
    using error_id[OF assms, of a now] h by simp
  show "requests (submitQuestion (Some a) now ctx question st) =
          requests st @ [RagQueryMeeting i question]"
    using requests_id[OF assms, of a now] h by simp
  show "errorMessage (deliver (RAGStreamError err)
          (submitQuestion (Some a) now ctx question st)) = Some couldNotRespond"
    using R by simp
  show "chatState (deliver (RAGStreamError err)
          (submitQuestion (Some a) now ctx question st)) = st_error"
    using R by simp
  show "requests (deliver (RAGStreamError err)
          (submitQuestion (Some a) now ctx question st)) =
          requests st @ [RagQueryMeeting i question]"
    using R by simp
next
  fix r assume h: "ragQueryMeeting a i question = Resolved r \<and> resultFallback r"
  show "requests (submitQuestion (Some a) now ctx question st) =
          requests st @
            [RagQueryMeeting i question, StreamGeminiChat question (systemPrompt ctx)]"
    using requests_id[OF assms, of a now] h by simp
  show "errorMessage (submitQuestion (Some a) now ctx question st) =
          (case streamGeminiChat a question (systemPrompt ctx) of
             Resolved u \<Rightarrow> None | Rejected \<Rightarrow> Some somethingWentWrong)"
    using error_id[OF assms, of a now] h by simp
  show "chatState (submitQuestion (Some a) now ctx question st) =
          (case streamGeminiChat a question (systemPrompt ctx) of
             Resolved u \<Rightarrow> st_waiting_for_llm | Rejected \<Rightarrow> st_error)"
    using state_id[OF assms, of a now] h by simp
  show l: "ragListeners (submitQuestion (Some a) now ctx question st) =
          remove1 (AssistantId now) (ragListeners st @ [AssistantId now])"
    using ragListeners_id[OF assms, of a now] h by simp
  show "length (ragListeners (submitQuestion (Some a) now ctx question st)) =
          length (ragListeners st)"
    unfolding l by (rule length_remove1_snoc)
  show "(errorMessage (deliver (RAGStreamError err)
           (submitQuestion (Some a) now ctx question st)) = Some couldNotRespond) =
          (ragListeners st \<noteq> [])"
    using rag_error_after_fallback[OF assms h[THEN conjunct1] h[THEN conjunct2]] .
next
  assume h: "ragQueryMeeting a i question = Rejected"
  show "errorMessage (submitQuestion (Some a) now ctx question st) = Some somethingWentWrong"
    using error_id[OF assms, of a now] h by simp
  show "chatState (submitQuestion (Some a) now ctx question st) = st_error"
    using state_id[OF assms, of a now] h by simp
  show "requests (submitQuestion (Some a) now ctx question st) =
          requests st @ [RagQueryMeeting i question]"
    using requests_id[OF assms, of a now] h by simp
  show "ragListeners (submitQuestion (Some a) now ctx question st) =
          ragListeners st @ [AssistantId now]"
    using ragListeners_id[OF assms, of a now] h by simp
next
  fix e and s :: ChatUI assume "ragListeners s \<noteq> []"
  then show "chatState (deliver (RAGStreamError e) s) = st_error"
    using rag_error_fold[of "ragListeners s" e s] by simp
qed

lemma ragApi_result:
  "ragQueryMeeting ragApi (str ''demo-meeting-002'') (str ''What was decided?'') =
     Resolved (Some \<lparr> fallback = Some False \<rparr>)"
  by (simp add: ragApi_def)

lemma specApi_result:
  "ragQueryMeeting specApi (str ''demo-meeting-002'') (str ''What was decided?'') =
     Resolved (Some \<lparr> fallback = Some True \<rparr>)"
  by (simp add: specApi_def queryMeeting_def select_strategy_def demo_no_embeddings)

lemma demo_id: "meetingIdOf demoContext = Some (str ''demo-meeting-002'')"
  by (simp add: meetingIdOf_def demoContext_def)

lemma afterRejected_state:
  "chatState afterRejected = st_error \<and> ragListeners afterRejected = [AssistantId 1] \<and>
   errorMessage afterRejected = Some somethingWentWrong"
  using question_trim
  by (simp add: afterRejected_def submitQuestion_def catchBlock_def rejectApi_def
      initialChat_def demoContext_def Let_def)

lemma afterRejected_accepted: "accepted (str ''What was decided?'') afterRejected"
  using question_trim afterRejected_state by (simp add: accepted_def)

text \<open>The statement at the demo context: a RAG call without fallback followed by a RAG
  stream error; a RAG call with fallback in a fresh chat; and a RAG call with fallback
  after a query whose RAG call was rejected, followed by a RAG stream error.\<close>

theorem couldNotRespond_surfaces_witness:
  "accepted (str ''What was decided?'') initialChat \<and>
   meetingIdOf demoContext = Some (str ''demo-meeting-002'') \<and>
   ragQueryMeeting ragApi (str ''demo-meeting-002'') (str ''What was decided?'') =
     Resolved (Some \<lparr> fallback = Some False \<rparr>) \<and>
   \<not> resultFallback (Some \<lparr> fallback = Some False \<rparr>) \<and>
   errorMessage (deliver (RAGStreamError (str ''embedding backend unavailable''))
      (submitQuestion (Some ragApi) 1 demoContext (str ''What was decided?'') initialChat)) =
     Some couldNotRespond \<and>
   ragQueryMeeting specApi (str ''demo-meeting-002'') (str ''What was decided?'') =
     Resolved (Some \<lparr> fallback = Some True \<rparr>) \<and>
   resultFallback (Some \<lparr> fallback = Some True \<rparr>) \<and>
   errorMessage (submitQuestion (Some specApi) 1 demoContext (str ''What was decided?'')
      initialChat) = None \<and>
   chatState (submitQuestion (Some specApi) 1 demoContext (str ''What was decided?'')
      initialChat) = st_waiting_for_llm \<and>
   errorMessage (deliver (RAGStreamError (str ''embedding backend unavailable''))
      (submitQuestion (Some specApi) 1 demoContext (str ''What was decided?'') initialChat)) =
     None \<and>
   accepted (str ''What was decided?'') afterRejected \<and>
   ragListeners afterRejected = [AssistantId 1] \<and>
   errorMessage (deliver (RAGStreamError (str ''embedding backend unavailable''))
      (submitQuestion (Some specApi) 2 demoContext (str ''What was decided?'') afterRejected)) =
     Some couldNotRespond"
proof -
  note A = couldNotRespond_surfaces[OF question_accepted demo_id, where a = ragApi and now = 1
      and err = "str ''embedding backend unavailable''"]
  note B = couldNotRespond_surfaces[OF question_accepted demo_id, where a = specApi and now = 1
      and err = "str ''embedding backend unavailable''"]
  note C = couldNotRespond_surfaces[OF afterRejected_accepted demo_id, where a = specApi
      and now = 2 and err = "str ''embedding backend unavailable''"]
  have nf: "\<not> resultFallback (Some \<lparr> fallback = Some False \<rparr>)"
    by (simp add: resultFallback_def)
  have f: "resultFallback (Some \<lparr> fallback = Some True \<rparr>)"
    by (simp add: resultFallback_def)
  have g: "streamGeminiChat specApi (str ''What was decided?'') (systemPrompt demoContext) =
      Resolved ()"
    by (simp add: specApi_def)
  have l0: "ragListeners initialChat = []" by (simp add: initialChat_def)
  have l1: "ragListeners afterRejected = [AssistantId 1]"
    using afterRejected_state by simp
  have ne: "ragListeners afterRejected \<noteq> []"
    using l1 by simp
  have a: "errorMessage (deliver (RAGStreamError (str ''embedding backend unavailable''))
      (submitQuestion (Some ragApi) 1 demoContext (str ''What was decided?'') initialChat)) =
     Some couldNotRespond"
    using A[THEN conjunct2, THEN conjunct2, THEN conjunct2, THEN conjunct1, THEN spec, THEN mp,
        OF conjI[OF ragApi_result nf]] by simp
  note B2 = B[THEN conjunct2, THEN conjunct2, THEN conjunct2, THEN conjunct2, THEN conjunct1,
      THEN spec, THEN mp, OF conjI[OF specApi_result f]]
  have b: "errorMessage (submitQuestion (Some specApi) 1 demoContext (str ''What was decided?'')
      initialChat) = None"
    using B2 g by simp
  have c: "chatState (submitQuestion (Some specApi) 1 demoContext (str ''What was decided?'')
      initialChat) = st_waiting_for_llm"
    using B2 g by simp
  have "ragListeners (submitQuestion (Some specApi) 1 demoContext (str ''What was decided?'')
      initialChat) = []"
    using B2 l0 by simp
  then have d: "errorMessage (deliver (RAGStreamError (str ''embedding backend unavailable''))
      (submitQuestion (Some specApi) 1 demoContext (str ''What was decided?'') initialChat)) =
     None"
    using B[THEN conjunct2, THEN conjunct1, THEN spec, THEN spec,
        of "RAGStreamError (str ''embedding backend unavailable'')"
          "submitQuestion (Some specApi) 1 demoContext (str ''What was decided?'') initialChat"]
      b
    by simp
  note C2 = C[THEN conjunct2, THEN conjunct2, THEN conjunct2, THEN conjunct2, THEN conjunct1,
      THEN spec, THEN mp, OF conjI[OF specApi_result f]]
  have e: "errorMessage (deliver (RAGStreamError (str ''embedding backend unavailable''))
      (submitQuestion (Some specApi) 2 demoContext (str ''What was decided?'') afterRejected)) =
     Some couldNotRespond"
    using C2[THEN conjunct2, THEN conjunct2, THEN conjunct2, THEN conjunct2, THEN conjunct2,
        THEN iffD2, OF ne] .
  from question_accepted demo_id ragApi_result nf a specApi_result f b c d
    afterRejected_accepted l1 e
  show ?thesis by (intro conjI)
qed

text \<open>The claim as stated fails: a RAG stream error alone surfaces the error state, and
  the fallback path is never tried.\<close>

theorem couldNotRespond_counterexample:
  "errorMessage (deliver (RAGStreamError (str ''embedding backend unavailable''))
      (submitQuestion (Some ragApi) 1 demoContext (str ''What was decided?'') initialChat)) =
     Some couldNotRespond \<and>
   chatState (deliver (RAGStreamError (str ''embedding backend unavailable''))
      (submitQuestion (Some ragApi) 1 demoContext (str ''What was decided?'') initialChat)) =
     st_error \<and>
   requests (deliver (RAGStreamError (str ''embedding backend unavailable''))
      (submitQuestion (Some ragApi) 1 demoContext (str ''What was decided?'') initialChat)) =
     [RagQueryMeeting (str ''demo-meeting-002'') (str ''What was decided?'')]"
proof -
  have nf: "\<not> resultFallback (Some \<lparr> fallback = Some False \<rparr>)"
    by (simp add: resultFallback_def)
  have r0: "requests initialChat = []" by (simp add: initialChat_def)
  from rag_error_after_submit[OF question_accepted demo_id ragApi_result nf,
      of "str ''embedding backend unavailable''" 1] r0
  show ?thesis by simp
qed

subsection \<open>The embedding queue\<close>
























subsection \<open>The chunker\<close>

lemma good_refl: "good ck us ck us []"
  by (simp add: good_def)

lemma good_trans:
  assumes "good ck us ck1 us1 cs1" "good ck1 us1 ck2 us2 cs2"
  shows "good ck us ck2 us2 (cs1 @ cs2)"
proof -
  let ?k = "ck_next_index ck"
  have i1: "map nc_chunk_index cs1 = [?k ..< ?k + length cs1]"
    and n1: "ck_next_index ck1 = ?k + length cs1"
    using assms(1) unfolding good_def by blast+
  have i2: "map nc_chunk_index cs2 = [ck_next_index ck1 ..< ck_next_index ck1 + length cs2]"
    and n2: "ck_next_index ck2 = ck_next_index ck1 + length cs2"
    using assms(2) unfolding good_def by blast+
  have u: "[?k ..< ?k + length cs1 + length cs2] =
      [?k ..< ?k + length cs1] @ [?k + length cs1 ..< ?k + length cs1 + length cs2]"
    by (rule upt_add_eq_append) simp
  have i: "map nc_chunk_index (cs1 @ cs2) = [?k ..< ?k + length (cs1 @ cs2)]"
    using i1 i2 n1 u by (simp add: add.assoc[symmetric])
  have n: "ck_next_index ck2 = ?k + length (cs1 @ cs2)"
    using n1 n2 by simp
  have s: "sorted (pendingTs ck2 us2) \<and> set (pendingTs ck2 us2) \<subseteq> set (pendingTs ck us) \<and>
         sorted (map nc_start_ts (cs1 @ cs2)) \<and>
         (\<forall>c \<in> set (cs1 @ cs2). nc_start_ts c \<in> set (pendingTs ck us)) \<and>
         (\<forall>c \<in> set (cs1 @ cs2). \<forall>t \<in> set (pendingTs ck2 us2). nc_start_ts c \<le> t)"
    if h: "sorted (pendingTs ck us)"
  proof -
    from assms(1) h have a: "sorted (pendingTs ck1 us1)"
      "set (pendingTs ck1 us1) \<subseteq> set (pendingTs ck us)" "sorted (map nc_start_ts cs1)"
      "\<forall>c \<in> set cs1. nc_start_ts c \<in> set (pendingTs ck us)"
      "\<forall>c \<in> set cs1. \<forall>t \<in> set (pendingTs ck1 us1). nc_start_ts c \<le> t"
      unfolding good_def by blast+
    from assms(2) a(1) have b: "sorted (pendingTs ck2 us2)"
      "set (pendingTs ck2 us2) \<subseteq> set (pendingTs ck1 us1)" "sorted (map nc_start_ts cs2)"
      "\<forall>c \<in> set cs2. nc_start_ts c \<in> set (pendingTs ck1 us1)"
      "\<forall>c \<in> set cs2. \<forall>t \<in> set (pendingTs ck2 us2). nc_start_ts c \<le> t"
      unfolding good_def by blast+
    have x: "\<forall>x \<in> set cs1. \<forall>y \<in> set cs2. nc_start_ts x \<le> nc_start_ts y"
      using a(5) b(4) by blast
    have 1: "sorted (map nc_start_ts (cs1 @ cs2))"
      using a(3) b(3) x by (simp add: sorted_append)
    have 2: "\<forall>c \<in> set (cs1 @ cs2). nc_start_ts c \<in> set (pendingTs ck us)"
      using a(2,4) b(4) by auto
    have 3: "\<forall>c \<in> set (cs1 @ cs2). \<forall>t \<in> set (pendingTs ck2 us2). nc_start_ts c \<le> t"
      using a(5) b(2,5) by auto
    have 4: "set (pendingTs ck2 us2) \<subseteq> set (pendingTs ck us)"
      using a(2) b(2) by (rule subset_trans[rotated])
    from b(1) 4 1 2 3 show ?thesis by (intro conjI)
  qed
  show ?thesis unfolding good_def
    by (intro conjI impI i n) (use s in simp_all)
qed

lemma sorted_hd_le: "sorted (x # xs) \<Longrightarrow> t \<in> set (x # xs) \<Longrightarrow> (x::int) \<le> t"
  by auto

lemma good_emit: "emit estimate ck = (ck', cs) \<Longrightarrow> good ck us ck' us cs"
proof (cases "ck_buffer ck")
  case Nil
  assume "emit estimate ck = (ck', cs)"
  then show ?thesis using Nil by (auto simp: emit_def good_refl)
next
  case (Cons first rest)
  assume "emit estimate ck = (ck', cs)"
  then have e: "ck' = ck\<lparr> ck_buffer := [], ck_next_index := Suc (ck_next_index ck) \<rparr>"
    "cs = [materialize estimate (ck_meeting_id ck) (ck_next_index ck) first rest]"
    using Cons by (auto simp: emit_def)
  show ?thesis
    unfolding good_def e pendingTs_def using Cons
    by (auto simp: materialize_def sorted_append)
qed

lemma good_admit: "admit estimate u ck = (ck', cs) \<Longrightarrow> good ck (u # us) ck' us cs"
proof (cases "mustCloseBefore estimate ck u")
  case False
  assume "admit estimate u ck = (ck', cs)"
  then have "ck' = ck\<lparr> ck_buffer := ck_buffer ck @ [u] \<rparr>" "cs = []"
    using False by (auto simp: admit_def)
  then show ?thesis by (simp add: good_def pendingTs_def)
next
  case True
  assume a: "admit estimate u ck = (ck', cs)"
  obtain ck1 cs1 where e: "emit estimate ck = (ck1, cs1)" by (cases "emit estimate ck")
  then have r: "ck' = ck1\<lparr> ck_buffer := [u] \<rparr>" "cs = cs1"
    using a True by (auto simp: admit_def)
  have b: "ck_buffer ck1 = []" using e by (auto simp: emit_def split: list.splits)
  have g: "good ck (u # us) ck1 (u # us) cs1" using e by (rule good_emit)
  have "pendingTs ck' us = pendingTs ck1 (u # us)" "ck_next_index ck' = ck_next_index ck1"
    using r b by (simp_all add: pendingTs_def)
  then show ?thesis using g r by (simp add: good_def)
qed

lemma good_closeFull: "closeFull estimate ck = (ck', cs) \<Longrightarrow> good ck us ck' us cs"
  by (auto simp: closeFull_def good_refl good_emit split: if_splits)

lemma good_append: "appendUtterance estimate u ck = (ck', cs) \<Longrightarrow> good ck (u # us) ck' us cs"
proof -
  assume a: "appendUtterance estimate u ck = (ck', cs)"
  obtain ck1 cs1 where 1: "admit estimate u ck = (ck1, cs1)" by (cases "admit estimate u ck")
  obtain ck2 cs2 where 2: "closeFull estimate ck1 = (ck2, cs2)"
    by (cases "closeFull estimate ck1")
  have "ck' = ck2" "cs = cs1 @ cs2" using a 1 2 by (simp_all add: appendUtterance_def)
  then show ?thesis using good_trans[OF good_admit[OF 1] good_closeFull[OF 2]] by simp
qed

lemma good_appendAll: "appendAll estimate us ck = (ck', cs) \<Longrightarrow> good ck us ck' [] cs"
proof (induction us arbitrary: ck ck' cs)
  case Nil
  then show ?case by (auto simp: good_refl)
next
  case (Cons u us)
  obtain ck1 cs1 where 1: "appendUtterance estimate u ck = (ck1, cs1)"
    by (cases "appendUtterance estimate u ck")
  obtain ck2 cs2 where 2: "appendAll estimate us ck1 = (ck2, cs2)"
    by (cases "appendAll estimate us ck1")
  have "ck' = ck2" "cs = cs1 @ cs2" using Cons.prems 1 2 by simp_all
  then show ?case using good_trans[OF good_append[OF 1] Cons.IH[OF 2]] by simp
qed

lemma good_chunkTranscript:
  "\<exists>ck'. good (newChunker cfg m) us ck' [] (chunkTranscript estimate cfg m us meetingEnded)"
proof -
  obtain ck1 cs1 where 1: "appendAll estimate us (newChunker cfg m) = (ck1, cs1)"
    by (cases "appendAll estimate us (newChunker cfg m)")
  note g1 = good_appendAll[OF 1]
  show ?thesis
  proof (cases meetingEnded)
    case False
    then show ?thesis using 1 g1 by (auto simp: chunkTranscript_def)
  next
    case True
    obtain ck2 cs2 where 2: "emit estimate ck1 = (ck2, cs2)" by (cases "emit estimate ck1")
    have c: "chunkTranscript estimate cfg m us meetingEnded = cs1 @ cs2"
      using True 1 2 by (auto simp: chunkTranscript_def flush_def emit_def split: list.splits)
    show ?thesis unfolding c using good_trans[OF g1 good_emit[OF 2]] by blast
  qed
qed

text \<open>
  Claim C7, as amended. For every sequence of utterances appended to a new chunker, with
  or without a final flush, the chunks produced have the indices 0, 1, 2, ... in order;
  and if the utterances are appended in timestamp order (as the transcript has them),
  the \<open>start_ts\<close> of the chunks are non-decreasing in that order.
\<close>

theorem chunk_index_contiguous:
  "map nc_chunk_index (chunkTranscript estimate cfg m us meetingEnded) =
     [0 ..< length (chunkTranscript estimate cfg m us meetingEnded)] \<and>
   (sorted (map ut_timestamp_ms us) \<longrightarrow>
      sorted (map nc_start_ts (chunkTranscript estimate cfg m us meetingEnded)))"
proof -
  obtain ck' where
    "good (newChunker cfg m) us ck' [] (chunkTranscript estimate cfg m us meetingEnded)"
    using good_chunkTranscript by blast
  then show ?thesis by (simp add: good_def newChunker_def pendingTs_def)
qed

text \<open>The statement at the demo transcript, with the final flush.\<close>

theorem chunk_index_contiguous_witness:
  "sorted (map ut_timestamp_ms demoUtterances) \<and>
   length (chunkTranscript roughEstimate demoChunkerConfig (str ''demo-meeting-002'')
     demoUtterances True) = 5 \<and>
   map nc_chunk_index (chunkTranscript roughEstimate demoChunkerConfig (str ''demo-meeting-002'')
     demoUtterances True) = [0, 1, 2, 3, 4] \<and>
   sorted (map nc_start_ts (chunkTranscript roughEstimate demoChunkerConfig
     (str ''demo-meeting-002'') demoUtterances True))"
proof -
  note T = chunk_index_contiguous[of roughEstimate demoChunkerConfig "str ''demo-meeting-002''"
      demoUtterances True]
  have s: "sorted (map ut_timestamp_ms demoUtterances)"
    by (simp add: demoUtterances_def demoTranscript_def)
  have l: "length (chunkTranscript roughEstimate demoChunkerConfig (str ''demo-meeting-002'')
     demoUtterances True) = 5"
    by code_simp
  have u: "[0 ..< 5] = [0, 1, 2, 3, 4::nat]" by (simp add: upt_rec)
  have a: "map nc_chunk_index (chunkTranscript roughEstimate demoChunkerConfig
     (str ''demo-meeting-002'') demoUtterances True) = [0, 1, 2, 3, 4]"
    using T l u by simp
  have b: "sorted (map nc_start_ts (chunkTranscript roughEstimate demoChunkerConfig
     (str ''demo-meeting-002'') demoUtterances True))"
    using T s by blast
  from s l a b show ?thesis by (intro conjI)
qed

text \<open>The claim as stated fails for utterances that are not in timestamp order: the
  indices are contiguous, and the \<open>start_ts\<close> decrease.\<close>

theorem start_ts_unordered_counterexample:
  "map nc_chunk_index
     (chunkTranscript roughEstimate tightChunkerConfig (str ''demo-meeting-002'')
        unorderedUtterances True) = [0, 1] \<and>
   map nc_start_ts
     (chunkTranscript roughEstimate tightChunkerConfig (str ''demo-meeting-002'')
        unorderedUtterances True) = [10, 0] \<and>
   \<not> sorted (map nc_start_ts
     (chunkTranscript roughEstimate tightChunkerConfig (str ''demo-meeting-002'')
        unorderedUtterances True))"
proof -
  have c: "chunkTranscript roughEstimate tightChunkerConfig (str ''demo-meeting-002'')
        unorderedUtterances True =
     [materialize roughEstimate (str ''demo-meeting-002'') 0
        \<lparr> ut_speaker = self, ut_text = str ''Yes, exactly.'', ut_timestamp_ms = 10 \<rparr> [],
      materialize roughEstimate (str ''demo-meeting-002'') 1
        \<lparr> ut_speaker = other, ut_text = str ''Could you clarify that phrase?'',
          ut_timestamp_ms = 0 \<rparr> []]"
    by (simp add: chunkTranscript_def unorderedUtterances_def tightChunkerConfig_def
        newChunker_def appendUtterance_def admit_def mustCloseBefore_def closeFull_def
        emit_def flush_def bufferTokens_def roughEstimate_def)
  show ?thesis unfolding c by (simp add: materialize_def)
qed

end
